(* ===== verification/Chat_Prelude.thy ===== *)
theory Chat_Prelude
  imports Complex_Main "HOL-Library.Word" "HOL-Library.AList"
begin

text \<open>
  Shared vocabulary of the development: fixed-width integers, the byte view of
  \<^verbatim>\<open>std::string\<close>, the character classes of the C locale, \<^verbatim>\<open>std::to_string\<close>,
  whitespace tokenisation (\<^verbatim>\<open>istringstream >>\<close>), the two container idioms of the
  program (an unordered set as a distinct list, a queue that drops its front
  until it is short enough), and the effect type of the stateful components: a
  state transformer whose result is \<open>None\<close> while a C++ exception is in flight.
\<close>

named_theorems effect_simps \<open>equations that run the effect combinators\<close>
named_theorems returns_intros \<open>rules that show an action does not throw\<close>
named_theorems keeps_intros \<open>rules that compose preservation of a state predicate\<close>

section \<open>Machine integers and bytes\<close>

type_synonym u8 = "8 word"
type_synonym u16 = "16 word"
type_synonym u32 = "32 word"
type_synonym u64 = "64 word"
type_synonym i64 = "64 word"
type_synonym bytes = "u8 list"

definition byte_of_char :: "char \<Rightarrow> u8" where
  "byte_of_char c = word_of_nat (of_char c)"

definition char_of_byte :: "u8 \<Rightarrow> char" where
  "char_of_byte b = char_of (unat b)"

definition bytes_of :: "string \<Rightarrow> bytes" where
  "bytes_of s = map byte_of_char s"

definition string_of :: "bytes \<Rightarrow> string" where
  "string_of bs = map char_of_byte bs"

lemma char_of_byte_of_char [simp]: "char_of_byte (byte_of_char c) = c"
proof -
  have "(of_char c :: nat) < 2 ^ 8"
    using nat_of_char_less_256 [of c] by simp
  then have "unat (word_of_nat (of_char c) :: u8) = of_char c"
    by (simp add: unat_of_nat take_bit_nat_eq_self)
  then show ?thesis by (simp add: char_of_byte_def byte_of_char_def)
qed

lemma byte_of_char_of_byte [simp]: "byte_of_char (char_of_byte b) = b"
proof -
  have "unat b < 256" using unsigned_less [of b, where 'a = nat] by simp
  then show ?thesis by (simp add: char_of_byte_def byte_of_char_def)
qed

lemma string_of_bytes_of [simp]: "string_of (bytes_of s) = s"
  by (simp add: string_of_def bytes_of_def comp_def)

lemma bytes_of_string_of [simp]: "bytes_of (string_of bs) = bs"
  by (simp add: string_of_def bytes_of_def comp_def)

lemma length_bytes_of [simp]: "length (bytes_of s) = length s"
  by (simp add: bytes_of_def)

lemma length_string_of [simp]: "length (string_of bs) = length bs"
  by (simp add: string_of_def)

lemma bytes_of_eq_Nil [simp]: "bytes_of s = [] \<longleftrightarrow> s = []"
  by (simp add: bytes_of_def)

lemma bytes_of_inject [simp]: "bytes_of s = bytes_of t \<longleftrightarrow> s = t"
  by (metis string_of_bytes_of)

section \<open>Characters in the C locale\<close>

abbreviation code :: "char \<Rightarrow> nat" where
  "code c \<equiv> of_char c"

definition isupper_c :: "char \<Rightarrow> bool" where
  "isupper_c c \<longleftrightarrow> 65 \<le> code c \<and> code c \<le> 90"

definition islower_c :: "char \<Rightarrow> bool" where
  "islower_c c \<longleftrightarrow> 97 \<le> code c \<and> code c \<le> 122"

definition isdigit_c :: "char \<Rightarrow> bool" where
  "isdigit_c c \<longleftrightarrow> 48 \<le> code c \<and> code c \<le> 57"

definition isspace_c :: "char \<Rightarrow> bool" where
  "isspace_c c \<longleftrightarrow> code c = 32 \<or> 9 \<le> code c \<and> code c \<le> 13"

definition tolower_c :: "char \<Rightarrow> char" where
  "tolower_c c = (if isupper_c c then char_of (code c + 32) else c)"

definition isalpha_c :: "char \<Rightarrow> bool" where
  "isalpha_c c \<longleftrightarrow> isupper_c c \<or> islower_c c"

lemma tolower_c_not_upper [simp]: "\<not> isupper_c (tolower_c c)"
proof (cases "isupper_c c")
  case True
  then have "code c + 32 < 256" by (simp add: isupper_c_def)
  then have "code (char_of (code c + 32 :: nat) :: char) = code c + 32" by simp
  with True show ?thesis by (simp add: tolower_c_def isupper_c_def)
qed (simp add: tolower_c_def)

lemma tolower_c_idem [simp]: "tolower_c (tolower_c c) = tolower_c c"
  by (simp add: tolower_c_def [of "tolower_c c"])

section \<open>\<^verbatim>\<open>std::to_string\<close> on unsigned values\<close>

definition digit_char :: "nat \<Rightarrow> char" where
  "digit_char d = char_of (48 + d)"

fun nat_to_string :: "nat \<Rightarrow> string" where
  "nat_to_string n =
     (if n < 10 then [digit_char n] else nat_to_string (n div 10) @ [digit_char (n mod 10)])"

declare nat_to_string.simps [simp del]

definition u64_to_string :: "u64 \<Rightarrow> string" where
  "u64_to_string w = nat_to_string (unat w)"

definition u32_to_string :: "u32 \<Rightarrow> string" where
  "u32_to_string w = nat_to_string (unat w)"

lemma code_digit_char: "d < 10 \<Longrightarrow> code (digit_char d) = 48 + d"
  by (simp add: digit_char_def)

lemma isdigit_digit_char: "d < 10 \<Longrightarrow> isdigit_c (digit_char d)"
  by (simp add: isdigit_c_def code_digit_char)

lemma nat_to_string_digits: "c \<in> set (nat_to_string n) \<Longrightarrow> isdigit_c c"
proof (induction n arbitrary: c rule: nat_to_string.induct)
  case (1 n)
  show ?case
  proof (cases "n < 10")
    case True
    with "1.prems" show ?thesis
      by (simp add: nat_to_string.simps [of n] isdigit_digit_char)
  next
    case False
    with "1.prems" have "c \<in> set (nat_to_string (n div 10)) \<or> c = digit_char (n mod 10)"
      by (auto simp: nat_to_string.simps [of n])
    with "1.IH" [OF False] show ?thesis by (auto intro: isdigit_digit_char)
  qed
qed

lemma digit_char_inject: "d < 10 \<Longrightarrow> e < 10 \<Longrightarrow> digit_char d = digit_char e \<Longrightarrow> d = e"
  by (metis add_left_cancel code_digit_char)

definition string_to_nat :: "string \<Rightarrow> nat" where
  "string_to_nat s = foldl (\<lambda>a c. 10 * a + (code c - 48)) 0 s"

lemma string_to_nat_nat_to_string [simp]: "string_to_nat (nat_to_string n) = n"
proof (induction n rule: nat_to_string.induct)
  case (1 n)
  show ?case
  proof (cases "n < 10")
    case True
    then show ?thesis by (simp add: nat_to_string.simps [of n] code_digit_char string_to_nat_def)
  next
    case False
    with "1.IH" show ?thesis
      by (simp add: nat_to_string.simps [of n] code_digit_char string_to_nat_def)
  qed
qed

lemma nat_to_string_inject [simp]: "nat_to_string m = nat_to_string n \<longleftrightarrow> m = n"
  by (metis string_to_nat_nat_to_string)

lemma nat_to_string_not_Nil [simp]: "nat_to_string n \<noteq> []"
  by (subst nat_to_string.simps) simp

section \<open>Tokenisation by whitespace\<close>

text \<open>\<^verbatim>\<open>while (iss >> arg)\<close>: skip blanks, read up to the next blank, repeat.\<close>

function split_ws :: "string \<Rightarrow> string list" where
  "split_ws s =
     (case dropWhile isspace_c s of
        [] \<Rightarrow> []
      | c # cs \<Rightarrow> (c # takeWhile (\<lambda>x. \<not> isspace_c x) cs)
                 # split_ws (dropWhile (\<lambda>x. \<not> isspace_c x) cs))"
  by pat_completeness auto
termination
proof (relation "measure length")
  fix s :: string and c cs
  assume "dropWhile isspace_c s = c # cs"
  then have "length (c # cs) \<le> length s"
    using length_dropWhile_le [of isspace_c s] by simp
  then show "(dropWhile (\<lambda>x. \<not> isspace_c x) cs, s) \<in> measure length"
    using length_dropWhile_le [of "\<lambda>x. \<not> isspace_c x" cs] by simp
qed simp

declare split_ws.simps [simp del]

lemma split_ws_tokens: "t \<in> set (split_ws s) \<Longrightarrow> t \<noteq> [] \<and> (\<forall>c \<in> set t. \<not> isspace_c c)"
proof (induction s arbitrary: t rule: split_ws.induct)
  case (1 s)
  show ?case
  proof (cases "dropWhile isspace_c s")
    case Nil
    with "1.prems" show ?thesis by (simp add: split_ws.simps [of s])
  next
    case (Cons c cs)
    then have c: "\<not> isspace_c c" by (metis hd_dropWhile list.sel(1) list.discI)
    have "split_ws s = (c # takeWhile (\<lambda>x. \<not> isspace_c x) cs)
        # split_ws (dropWhile (\<lambda>x. \<not> isspace_c x) cs)"
      by (simp only: split_ws.simps [of s] Cons list.case)
    with "1.prems" have "t = c # takeWhile (\<lambda>x. \<not> isspace_c x) cs
        \<or> t \<in> set (split_ws (dropWhile (\<lambda>x. \<not> isspace_c x) cs))"
      by (simp only: set_simps insert_iff)
    then show ?thesis
    proof
      assume "t = c # takeWhile (\<lambda>x. \<not> isspace_c x) cs"
      with c show ?thesis by (auto dest: set_takeWhileD)
    next
      assume "t \<in> set (split_ws (dropWhile (\<lambda>x. \<not> isspace_c x) cs))"
      then show ?thesis by (rule "1.IH" [OF Cons])
    qed
  qed
qed

section \<open>Containers\<close>

text \<open>
  An \<^verbatim>\<open>unordered_set\<close> that the program iterates over is a duplicate-free list. The
  iteration order of the C++ container is unspecified; the model takes insertion
  order, and no theorem depends on which order it is.
\<close>

definition uset_insert :: "'a \<Rightarrow> 'a list \<Rightarrow> 'a list" where
  "uset_insert x xs = (if x \<in> set xs then xs else xs @ [x])"

definition uset_erase :: "'a \<Rightarrow> 'a list \<Rightarrow> 'a list" where
  "uset_erase x xs = filter (\<lambda>y. y \<noteq> x) xs"

lemma set_uset_insert [simp]: "set (uset_insert x xs) = insert x (set xs)"
  by (auto simp: uset_insert_def)

lemma set_uset_erase [simp]: "set (uset_erase x xs) = set xs - {x}"
  by (auto simp: uset_erase_def)

lemma distinct_uset_insert [simp]: "distinct (uset_insert x xs) = distinct xs"
  by (auto simp: uset_insert_def)

lemma distinct_uset_erase [simp]: "distinct xs \<Longrightarrow> distinct (uset_erase x xs)"
  by (simp add: uset_erase_def)

lemma uset_insert_not_Nil [simp]: "uset_insert x xs \<noteq> []"
  by (auto simp: uset_insert_def)

text \<open>\<^verbatim>\<open>while (q.size() > n) q.pop_front();\<close>\<close>

fun pop_front_while :: "nat \<Rightarrow> 'a list \<Rightarrow> 'a list" where
  "pop_front_while n [] = []"
| "pop_front_while n (x # xs) = (if length (x # xs) > n then pop_front_while n xs else x # xs)"

lemma pop_front_while_eq: "pop_front_while n xs = drop (length xs - n) xs"
proof (induction xs)
  case Nil
  show ?case by simp
next
  case (Cons x xs)
  show ?case
  proof (cases "length (x # xs) > n")
    case True
    then have "length (x # xs) - n = Suc (length xs - n)" by simp
    with True Cons.IH show ?thesis by simp
  qed simp
qed

lemma length_pop_front_while: "length (pop_front_while n xs) = min n (length xs)"
  by (simp add: pop_front_while_eq)

lemma set_pop_front_while: "set (pop_front_while n xs) \<subseteq> set xs"
  by (simp add: pop_front_while_eq set_drop_subset)

section \<open>Effects\<close>

text \<open>
  \<open>('s, 'a) act\<close> is a C++ call on the state \<open>'s\<close>: it returns \<open>Some a\<close>, or \<open>None\<close>
  when it leaves by an exception; the state changes made before the throw stay.
\<close>

type_synonym ('s, 'a) act = "'s \<Rightarrow> 'a option \<times> 's"

definition eret :: "'a \<Rightarrow> ('s, 'a) act" where
  "eret a = (\<lambda>s. (Some a, s))"

definition ethrow :: "('s, 'a) act" where
  "ethrow = (\<lambda>s. (None, s))"

definition ebind :: "('s, 'a) act \<Rightarrow> ('a \<Rightarrow> ('s, 'b) act) \<Rightarrow> ('s, 'b) act" where
  "ebind m f = (\<lambda>s. case m s of (None, s') \<Rightarrow> (None, s') | (Some a, s') \<Rightarrow> f a s')"

definition eseq :: "('s, 'a) act \<Rightarrow> ('s, 'b) act \<Rightarrow> ('s, 'b) act" where
  "eseq m n = ebind m (\<lambda>_. n)"

definition ecatch :: "('s, 'a) act \<Rightarrow> ('s, 'a) act \<Rightarrow> ('s, 'a) act" where
  "ecatch m h = (\<lambda>s. case m s of (None, s') \<Rightarrow> h s' | (Some a, s') \<Rightarrow> (Some a, s'))"

definition eread :: "('s \<Rightarrow> 'a) \<Rightarrow> ('s, 'a) act" where
  "eread f = (\<lambda>s. (Some (f s), s))"

definition emodify :: "('s \<Rightarrow> 's) \<Rightarrow> ('s, unit) act" where
  "emodify f = (\<lambda>s. (Some (), f s))"

text \<open>A library call that throws is an \<open>option\<close>-valued expression.\<close>

definition eopt :: "'a option \<Rightarrow> ('s, 'a) act" where
  "eopt x = (\<lambda>s. (x, s))"

text \<open>A call that cannot throw.\<close>

definition elift :: "('s \<Rightarrow> 'a \<times> 's) \<Rightarrow> ('s, 'a) act" where
  "elift f = (\<lambda>s. case f s of (a, s') \<Rightarrow> (Some a, s'))"

definition ewhen :: "bool \<Rightarrow> ('s, unit) act \<Rightarrow> ('s, unit) act" where
  "ewhen b m = (if b then m else eret ())"

fun eeach :: "('a \<Rightarrow> ('s, unit) act) \<Rightarrow> 'a list \<Rightarrow> ('s, unit) act" where
  "eeach f [] = eret ()"
| "eeach f (x # xs) = eseq (f x) (eeach f xs)"

lemma eret_run [effect_simps]: "eret a s = (Some a, s)"
  by (simp add: eret_def)

lemma ethrow_run [effect_simps]: "ethrow s = (None, s)"
  by (simp add: ethrow_def)

lemma eread_run [effect_simps]: "eread f s = (Some (f s), s)"
  by (simp add: eread_def)

lemma emodify_run [effect_simps]: "emodify f s = (Some (), f s)"
  by (simp add: emodify_def)

lemma eopt_run [effect_simps]: "eopt x s = (x, s)"
  by (simp add: eopt_def)

lemma elift_run [effect_simps]: "elift f s = (Some (fst (f s)), snd (f s))"
  by (simp add: elift_def case_prod_unfold)

lemma ewhen_run [effect_simps]: "ewhen b m s = (if b then m s else (Some (), s))"
  by (simp add: ewhen_def eret_def)

lemma ebind_run [effect_simps]:
  "ebind m f s = (case m s of (None, s') \<Rightarrow> (None, s') | (Some a, s') \<Rightarrow> f a s')"
  by (simp add: ebind_def)

lemma eseq_run [effect_simps]:
  "eseq m n s = (case m s of (None, s') \<Rightarrow> (None, s') | (Some a, s') \<Rightarrow> n s')"
  by (simp add: eseq_def ebind_def)

lemma ecatch_run [effect_simps]:
  "ecatch m h s = (case m s of (None, s') \<Rightarrow> h s' | (Some a, s') \<Rightarrow> (Some a, s'))"
  by (simp add: ecatch_def)

subsection \<open>Predicates an action keeps\<close>

definition keeps :: "('s \<Rightarrow> bool) \<Rightarrow> ('s, 'a) act \<Rightarrow> bool" where
  "keeps P m \<longleftrightarrow> (\<forall>s. P s \<longrightarrow> P (snd (m s)))"

lemma keepsI: "(\<And>s. P s \<Longrightarrow> P (snd (m s))) \<Longrightarrow> keeps P m"
  by (simp add: keeps_def)

lemma keepsD: "keeps P m \<Longrightarrow> P s \<Longrightarrow> P (snd (m s))"
  by (simp add: keeps_def)

lemma keeps_eret [keeps_intros]: "keeps P (eret a)"
  by (simp add: keeps_def eret_def)

lemma keeps_ethrow [keeps_intros]: "keeps P ethrow"
  by (simp add: keeps_def ethrow_def)

lemma keeps_eread [keeps_intros]: "keeps P (eread f)"
  by (simp add: keeps_def eread_def)

lemma keeps_eopt [keeps_intros]: "keeps P (eopt x)"
  by (simp add: keeps_def eopt_def)

lemma keeps_emodify: "(\<And>s. P s \<Longrightarrow> P (f s)) \<Longrightarrow> keeps P (emodify f)"
  by (simp add: keeps_def emodify_def)

lemma keeps_elift: "(\<And>s. P s \<Longrightarrow> P (snd (f s))) \<Longrightarrow> keeps P (elift f)"
  by (simp add: keeps_def elift_def case_prod_unfold)

lemma keeps_ewhen [keeps_intros]: "keeps P m \<Longrightarrow> keeps P (ewhen b m)"
  by (simp add: ewhen_def keeps_eret)

lemma keeps_ebind [keeps_intros]: "keeps P m \<Longrightarrow> (\<And>a. keeps P (f a)) \<Longrightarrow> keeps P (ebind m f)"
  by (fastforce simp: keeps_def ebind_def split: prod.splits option.splits)

lemma keeps_eseq [keeps_intros]: "keeps P m \<Longrightarrow> keeps P n \<Longrightarrow> keeps P (eseq m n)"
  by (simp add: eseq_def keeps_ebind)

lemma keeps_ecatch [keeps_intros]: "keeps P m \<Longrightarrow> keeps P h \<Longrightarrow> keeps P (ecatch m h)"
  by (fastforce simp: keeps_def ecatch_def split: prod.splits option.splits)

lemma keeps_eeach [keeps_intros]: "(\<And>x. keeps P (f x)) \<Longrightarrow> keeps P (eeach f xs)"
  by (induction xs) (auto intro: keeps_intros)

lemma keeps_if [keeps_intros]: "keeps P m \<Longrightarrow> keeps P n \<Longrightarrow> keeps P (if b then m else n)"
  by simp

lemma keeps_case_option [keeps_intros]:
  "keeps P m \<Longrightarrow> (\<And>x. keeps P (f x)) \<Longrightarrow> keeps P (case y of None \<Rightarrow> m | Some x \<Rightarrow> f x)"
  by (cases y) auto

lemma keeps_let [keeps_intros]: "keeps P (f x) \<Longrightarrow> keeps P (let y = x in f y)"
  by simp

lemma keeps_case_prod [keeps_intros]: "(\<And>a b. keeps P (f a b)) \<Longrightarrow> keeps P (case p of (a, b) \<Rightarrow> f a b)"
  by (cases p) auto


subsection \<open>Triples\<close>

text \<open>
  \<open>triple P m Q X\<close>: from \<open>P\<close> the action ends in \<open>Q\<close> of its result, or throws in a state
  satisfying \<open>X\<close>.
\<close>

definition triple :: "('s \<Rightarrow> bool) \<Rightarrow> ('s, 'a) act \<Rightarrow> ('a \<Rightarrow> 's \<Rightarrow> bool) \<Rightarrow> ('s \<Rightarrow> bool) \<Rightarrow> bool" where
  "triple P m Q X \<longleftrightarrow> (\<forall>s. P s \<longrightarrow> (case m s of (Some a, s') \<Rightarrow> Q a s' | (None, s') \<Rightarrow> X s'))"

lemma triple_bind:
  assumes "triple P m R X" and "\<And>a. triple (R a) (f a) Q X"
  shows "triple P (ebind m f) Q X"
  unfolding triple_def
proof (intro allI impI)
  fix s assume "P s"
  then have m: "case m s of (Some a, s') \<Rightarrow> R a s' | (None, s') \<Rightarrow> X s'"
    using assms(1) by (simp add: triple_def)
  obtain r s' where r: "m s = (r, s')" by (cases "m s")
  show "case ebind m f s of (Some a, s') \<Rightarrow> Q a s' | (None, s') \<Rightarrow> X s'"
  proof (cases r)
    case None
    with r m show ?thesis by (simp add: ebind_def)
  next
    case (Some a)
    with r m have "R a s'" by simp
    with assms(2) [of a] have "case f a s' of (Some b, s'') \<Rightarrow> Q b s'' | (None, s'') \<Rightarrow> X s''"
      by (simp add: triple_def)
    with r Some show ?thesis by (simp add: ebind_def)
  qed
qed

lemma triple_seq:
  "triple P m (\<lambda>_. R) X \<Longrightarrow> triple R n Q X \<Longrightarrow> triple P (eseq m n) Q X"
  unfolding eseq_def by (rule triple_bind)

lemma triple_if:
  "(b \<Longrightarrow> triple P m Q X) \<Longrightarrow> (\<not> b \<Longrightarrow> triple P n Q X) \<Longrightarrow> triple P (if b then m else n) Q X"
  by simp

lemma triple_case_prod: "(\<And>a b. p = (a, b) \<Longrightarrow> triple P (f a b) Q X) \<Longrightarrow> triple P (case p of (a, b) \<Rightarrow> f a b) Q X"
  by (cases p) simp

lemma triple_opt: "triple P (eopt x) (\<lambda>_. P) P"
  by (auto simp: triple_def eopt_def split: option.split)

lemma triple_read: "triple P (eread f) (\<lambda>a s. P s \<and> a = f s) X"
  by (simp add: triple_def eread_def)

lemma triple_modify: "(\<And>s. P s \<Longrightarrow> Q (f s)) \<Longrightarrow> triple P (emodify f) (\<lambda>_. Q) X"
  by (simp add: triple_def emodify_def)

lemma triple_lift: "(\<And>s. P s \<Longrightarrow> Q (fst (f s)) (snd (f s))) \<Longrightarrow> triple P (elift f) Q X"
  by (simp add: triple_def elift_def case_prod_unfold)

lemma triple_pre: "triple P' m Q X \<Longrightarrow> (\<And>s. P s \<Longrightarrow> P' s) \<Longrightarrow> triple P m Q X"
  by (simp add: triple_def)

lemma triple_keeps: "triple P m (\<lambda>_. P) P \<longleftrightarrow> keeps P m"
proof -
  have "(case m s of (Some a, s') \<Rightarrow> P s' | (None, s') \<Rightarrow> P s') = P (snd (m s))" for s
    by (auto split: prod.split option.split)
  then show ?thesis by (simp add: triple_def keeps_def)
qed

lemma keeps_triple: "keeps P m \<Longrightarrow> (\<And>s. P' s \<Longrightarrow> P s) \<Longrightarrow> triple P' m (\<lambda>_. P) P"
  using triple_keeps [of P m] by (blast intro: triple_pre)

subsection \<open>Actions that do not throw\<close>

definition returns :: "('s, 'a) act \<Rightarrow> bool" where
  "returns m \<longleftrightarrow> (\<forall>s. fst (m s) \<noteq> None)"

lemma returnsE:
  assumes "returns m"
  obtains a s' where "m s = (Some a, s')"
proof -
  have "fst (m s) \<noteq> None" using assms by (simp add: returns_def)
  then show ?thesis using that by (cases "m s") auto
qed

lemma returns_eret [returns_intros]: "returns (eret a)"
  by (simp add: returns_def eret_def)

lemma returns_eread [returns_intros]: "returns (eread f)"
  by (simp add: returns_def eread_def)

lemma returns_emodify [returns_intros]: "returns (emodify f)"
  by (simp add: returns_def emodify_def)

lemma returns_elift [returns_intros]: "returns (elift f)"
  by (simp add: returns_def elift_run)

lemma returns_ebind [returns_intros]:
  assumes "returns m" and "\<And>a. returns (f a)"
  shows "returns (ebind m f)"
  unfolding returns_def
proof
  fix s
  obtain a s' where "m s = (Some a, s')" by (rule returnsE [OF assms(1)])
  with assms(2) [of a] show "fst (ebind m f s) \<noteq> None" by (simp add: ebind_run returns_def)
qed

lemma returns_eseq [returns_intros]: "returns m \<Longrightarrow> returns n \<Longrightarrow> returns (eseq m n)"
  by (simp add: eseq_def returns_ebind)

lemma returns_ecatch [returns_intros]: "returns h \<Longrightarrow> returns (ecatch m h)"
  by (simp add: returns_def ecatch_run split: prod.split option.split)

lemma returns_eeach [returns_intros]: "(\<And>x. returns (f x)) \<Longrightarrow> returns (eeach f xs)"
  by (induction xs) (auto intro: returns_intros)

lemma returns_if [returns_intros]: "returns m \<Longrightarrow> returns n \<Longrightarrow> returns (if b then m else n)"
  by simp

lemma returns_case_option [returns_intros]:
  "returns m \<Longrightarrow> (\<And>x. returns (f x)) \<Longrightarrow> returns (case y of None \<Rightarrow> m | Some x \<Rightarrow> f x)"
  by (cases y) auto

lemma returns_case_prod [returns_intros]: "(\<And>a b. returns (f a b)) \<Longrightarrow> returns (case p of (a, b) \<Rightarrow> f a b)"
  by (cases p) auto

lemma returns_case_sum [returns_intros]:
  "(\<And>a. returns (f a)) \<Longrightarrow> (\<And>b. returns (g b)) \<Longrightarrow> returns (case y of Inl a \<Rightarrow> f a | Inr b \<Rightarrow> g b)"
  by (cases y) auto

end
