(* ===== verification/Json_Api.thy ===== *)
theory Json_Api
  imports Chat_Prelude
begin

text \<open>
  The JSON library (\<^verbatim>\<open>nlohmann::json\<close>) is not part of the repository. Its value type
  is the type variable \<open>'j\<close> and the operations the program calls are the fields
  of a record that every definition using JSON takes as an argument. An
  operation that throws is \<open>option\<close>-valued. \<open>json_ok\<close> names the documented laws the
  program relies on; it appears as a hypothesis only where a theorem needs it.
  The last section builds one value type and one codec that satisfy the laws, for
  use in witnesses.
\<close>

record 'j json_api =
  j_null :: 'j
  j_str :: "string \<Rightarrow> 'j"
  j_bool :: "bool \<Rightarrow> 'j"
  j_u64 :: "u64 \<Rightarrow> 'j"
  j_i64 :: "i64 \<Rightarrow> 'j"
  j_arr :: "'j list \<Rightarrow> 'j"
  j_obj :: "(string \<times> 'j) list \<Rightarrow> 'j"
  j_set :: "'j \<Rightarrow> string \<Rightarrow> 'j \<Rightarrow> 'j option"
  j_is_object :: "'j \<Rightarrow> bool"
  j_is_array :: "'j \<Rightarrow> bool"
  j_contains :: "'j \<Rightarrow> string \<Rightarrow> bool"
  j_at :: "'j \<Rightarrow> string \<Rightarrow> 'j option"
  j_get_str :: "'j \<Rightarrow> string option"
  j_get_bool :: "'j \<Rightarrow> bool option"
  j_get_u64 :: "'j \<Rightarrow> u64 option"
  j_get_i64 :: "'j \<Rightarrow> i64 option"
  j_elems :: "'j \<Rightarrow> 'j list"
  j_items :: "'j \<Rightarrow> (string \<times> 'j) list"
  j_dump :: "'j \<Rightarrow> string option"
  j_dump2 :: "'j \<Rightarrow> string option"
  j_parse :: "string \<Rightarrow> 'j option"

text \<open>
  \<^verbatim>\<open>j.value(key, default)\<close> is documented as: throw unless \<open>j\<close> is an object; the
  converted member when the key is there; the default otherwise. \<^verbatim>\<open>std::string x = j[key]\<close>
  converts the member and throws when it is not a string. \<^verbatim>\<open>dump(2)\<close> is the indented form.
\<close>

definition j_value :: "'j json_api \<Rightarrow> ('j \<Rightarrow> 'a option) \<Rightarrow> 'j \<Rightarrow> string \<Rightarrow> 'a \<Rightarrow> 'a option" where
  "j_value J conv j k d =
     (if \<not> j_is_object J j then None
      else if j_contains J j k then Option.bind (j_at J j k) conv
      else Some d)"

abbreviation j_value_str :: "'j json_api \<Rightarrow> 'j \<Rightarrow> string \<Rightarrow> string \<Rightarrow> string option" where
  "j_value_str J \<equiv> j_value J (j_get_str J)"

abbreviation j_value_bool :: "'j json_api \<Rightarrow> 'j \<Rightarrow> string \<Rightarrow> bool \<Rightarrow> bool option" where
  "j_value_bool J \<equiv> j_value J (j_get_bool J)"

abbreviation j_value_u64 :: "'j json_api \<Rightarrow> 'j \<Rightarrow> string \<Rightarrow> u64 \<Rightarrow> u64 option" where
  "j_value_u64 J \<equiv> j_value J (j_get_u64 J)"

abbreviation j_value_i64 :: "'j json_api \<Rightarrow> 'j \<Rightarrow> string \<Rightarrow> i64 \<Rightarrow> i64 option" where
  "j_value_i64 J \<equiv> j_value J (j_get_i64 J)"

definition j_at_str :: "'j json_api \<Rightarrow> 'j \<Rightarrow> string \<Rightarrow> string option" where
  "j_at_str J j k = Option.bind (j_at J j k) (j_get_str J)"

definition j_has_all :: "'j json_api \<Rightarrow> 'j \<Rightarrow> string list \<Rightarrow> bool" where
  "j_has_all J j ks \<longleftrightarrow> list_all (j_contains J j) ks"

definition j_strs :: "'j json_api \<Rightarrow> string list \<Rightarrow> 'j" where
  "j_strs J xs = j_arr J (map (j_str J) xs)"

section \<open>Documented laws\<close>

definition json_ok :: "'j json_api \<Rightarrow> bool" where
  "json_ok J \<longleftrightarrow>
     (\<forall>kvs. j_is_object J (j_obj J kvs)) \<and>
     (\<forall>kvs k. j_contains J (j_obj J kvs) k = (k \<in> fst ` set kvs)) \<and>
     (\<forall>kvs k. distinct (map fst kvs) \<longrightarrow> j_at J (j_obj J kvs) k = map_of kvs k) \<and>
     (\<forall>s. j_get_str J (j_str J s) = Some s) \<and>
     (\<forall>b. j_get_bool J (j_bool J b) = Some b) \<and>
     (\<forall>w. j_get_u64 J (j_u64 J w) = Some w) \<and>
     (\<forall>w. j_get_i64 J (j_u64 J w) = Some w) \<and>
     (\<forall>w. j_get_i64 J (j_i64 J w) = Some w) \<and>
     (\<forall>j s. j_dump J j = Some s \<longrightarrow> s \<noteq> [] \<and> j_parse J s = Some j) \<and>
     (\<forall>j s. j_dump2 J j = Some s \<longrightarrow> j_parse J s = Some j) \<and>
     (\<forall>kvs. distinct (map fst kvs) \<longrightarrow>
        distinct (map fst (j_items J (j_obj J kvs))) \<and> set (j_items J (j_obj J kvs)) = set kvs) \<and>
     (\<forall>js. j_is_array J (j_arr J js) \<and> j_elems J (j_arr J js) = js) \<and>
     (\<forall>kvs k v. distinct (map fst kvs) \<longrightarrow> j_set J (j_obj J kvs) k v = Some (j_obj J (AList.update k v kvs))) \<and>
     (\<forall>k v. j_set J (j_null J) k v = Some (j_obj J [(k, v)])) \<and>
     \<not> j_is_object J (j_null J)"

lemma json_ok_obj:
  assumes "json_ok J"
  shows "j_is_object J (j_obj J kvs)"
    and "j_contains J (j_obj J kvs) k = (k \<in> fst ` set kvs)"
    and "distinct (map fst kvs) \<Longrightarrow> j_at J (j_obj J kvs) k = map_of kvs k"
  using assms by (simp_all add: json_ok_def)

lemma json_ok_get:
  assumes "json_ok J"
  shows "j_get_str J (j_str J s) = Some s"
    and "j_get_bool J (j_bool J b) = Some b"
    and "j_get_u64 J (j_u64 J w) = Some w"
    and "j_get_i64 J (j_u64 J w) = Some w"
    and "j_get_i64 J (j_i64 J w) = Some w"
  using assms by (simp_all add: json_ok_def)

lemma json_ok_items:
  assumes "json_ok J" and "distinct (map fst kvs)"
  shows "distinct (map fst (j_items J (j_obj J kvs)))" and "set (j_items J (j_obj J kvs)) = set kvs"
  using assms by (simp_all add: json_ok_def)

lemma json_ok_arr:
  assumes "json_ok J"
  shows "j_is_array J (j_arr J js)" and "j_elems J (j_arr J js) = js" and "\<not> j_is_object J (j_null J)"
  using assms by (simp_all add: json_ok_def)

lemma json_ok_set:
  assumes "json_ok J"
  shows "distinct (map fst kvs) \<Longrightarrow> j_set J (j_obj J kvs) k v = Some (j_obj J (AList.update k v kvs))"
    and "j_set J (j_null J) k v = Some (j_obj J [(k, v)])"
  using assms by (simp_all add: json_ok_def)

lemma json_ok_parse_dump: "json_ok J \<Longrightarrow> j_dump J j = Some s \<Longrightarrow> j_parse J s = Some j"
  by (simp add: json_ok_def)

lemma json_ok_parse_dump2: "json_ok J \<Longrightarrow> j_dump2 J j = Some s \<Longrightarrow> j_parse J s = Some j"
  by (simp add: json_ok_def)

lemma json_ok_dump_not_Nil: "json_ok J \<Longrightarrow> j_dump J j = Some s \<Longrightarrow> s \<noteq> []"
  by (simp add: json_ok_def)

lemma j_value_obj:
  assumes "json_ok J" and "distinct (map fst kvs)" and "map_of kvs k = Some v"
  shows "j_value J conv (j_obj J kvs) k d = conv v"
proof -
  have "k \<in> fst ` set kvs" using assms(3) by (metis map_of_eq_None_iff option.distinct(1))
  with assms show ?thesis by (simp add: j_value_def json_ok_obj)
qed

lemma j_at_str_obj:
  "json_ok J \<Longrightarrow> distinct (map fst kvs) \<Longrightarrow> map_of kvs k = Some v \<Longrightarrow>
   j_at_str J (j_obj J kvs) k = j_get_str J v"
  by (simp add: j_at_str_def json_ok_obj)

lemma j_has_all_obj:
  "json_ok J \<Longrightarrow> j_has_all J (j_obj J kvs) ks \<longleftrightarrow> set ks \<subseteq> fst ` set kvs"
  by (auto simp: j_has_all_def json_ok_obj list_all_iff)

lemmas json_obj_simps = json_ok_obj json_ok_get j_value_obj j_at_str_obj j_has_all_obj

section \<open>A concrete value type\<close>

datatype jval = JNull | JBool bool | JNum u64 | JStr string | JArr "jval list"
  | JObj "(string \<times> jval) list"

text \<open>A self-delimiting text form: every string character is escaped by a \<open>c\<close>.\<close>

definition put_str :: "string \<Rightarrow> string" where
  "put_str s = concat (map (\<lambda>c. [CHR ''c'', c]) s) @ ''.''"

fun get_str :: "string \<Rightarrow> (string \<times> string) option" where
  "get_str (x # y # r) =
     (if x = CHR ''c'' then map_option (\<lambda>(s, r'). (y # s, r')) (get_str r)
      else if x = CHR ''.'' then Some ([], y # r) else None)"
| "get_str [x] = (if x = CHR ''.'' then Some ([], []) else None)"
| "get_str [] = None"

lemma get_put_str: "get_str (put_str s @ r) = Some (s, r)"
proof (induction s)
  case Nil
  show ?case by (cases r) (simp_all add: put_str_def)
next
  case (Cons c s)
  then show ?case by (simp add: put_str_def)
qed

lemma length_put_str: "length (put_str s) = 2 * length s + 1"
  by (induction s) (simp_all add: put_str_def)

fun put_jval :: "jval \<Rightarrow> string" where
  "put_jval JNull = ''n''"
| "put_jval (JBool b) = (if b then ''t'' else ''f'')"
| "put_jval (JNum w) = CHR ''i'' # put_str (nat_to_string (unat w))"
| "put_jval (JStr s) = CHR ''s'' # put_str s"
| "put_jval (JArr vs) = CHR ''a'' # concat (map (\<lambda>v. CHR '','' # put_jval v) vs) @ '']''"
| "put_jval (JObj kvs) =
     CHR ''o'' # concat (map (\<lambda>(k, v). CHR '','' # put_str k @ put_jval v) kvs) @ '']''"

fun get_jval :: "nat \<Rightarrow> string \<Rightarrow> (jval \<times> string) option"
  and get_jvals :: "nat \<Rightarrow> string \<Rightarrow> (jval list \<times> string) option"
  and get_items :: "nat \<Rightarrow> string \<Rightarrow> ((string \<times> jval) list \<times> string) option" where
  "get_jval 0 s = None"
| "get_jval (Suc n) s = (case s of [] \<Rightarrow> None | x # r \<Rightarrow>
     if x = CHR ''n'' then Some (JNull, r)
     else if x = CHR ''t'' then Some (JBool True, r)
     else if x = CHR ''f'' then Some (JBool False, r)
     else if x = CHR ''i'' then map_option (\<lambda>(d, r'). (JNum (of_nat (string_to_nat d)), r')) (get_str r)
     else if x = CHR ''s'' then map_option (\<lambda>(d, r'). (JStr d, r')) (get_str r)
     else if x = CHR ''a'' then map_option (\<lambda>(vs, r'). (JArr vs, r')) (get_jvals n r)
     else if x = CHR ''o'' then map_option (\<lambda>(kvs, r'). (JObj kvs, r')) (get_items n r)
     else None)"
| "get_jvals 0 s = None"
| "get_jvals (Suc n) s = (case s of [] \<Rightarrow> None | x # r \<Rightarrow>
     if x = CHR '']'' then Some ([], r)
     else if x = CHR '','' then Option.bind (get_jval n r) (\<lambda>(v, r').
       map_option (\<lambda>(vs, r''). (v # vs, r'')) (get_jvals n r'))
     else None)"
| "get_items 0 s = None"
| "get_items (Suc n) s = (case s of [] \<Rightarrow> None | x # r \<Rightarrow>
     if x = CHR '']'' then Some ([], r)
     else if x = CHR '','' then Option.bind (get_str r) (\<lambda>(k, r').
       Option.bind (get_jval n r') (\<lambda>(v, r'').
         map_option (\<lambda>(kvs, r'''). ((k, v) # kvs, r''')) (get_items n r'')))
     else None)"

fun jsize :: "jval \<Rightarrow> nat" where
  "jsize (JArr vs) = 1 + sum_list (map (\<lambda>v. 1 + jsize v) vs) + 1"
| "jsize (JObj kvs) = 1 + sum_list (map (\<lambda>(k, v). 1 + jsize v) kvs) + 1"
| "jsize _ = 1"

lemma jsize_put: "jsize v \<le> length (put_jval v)"
proof (induction v rule: jsize.induct)
  case (1 vs)
  then have "sum_list (map (\<lambda>v. 1 + jsize v) vs) \<le> sum_list (map (\<lambda>v. 1 + length (put_jval v)) vs)"
    by (intro sum_list_mono) auto
  then show ?case by (simp add: length_concat comp_def)
next
  case (2 kvs)
  have "jsize (snd kv) \<le> length (put_jval (snd kv))" if "kv \<in> set kvs" for kv
    using 2 [OF that, of "fst kv" "snd kv"] by simp
  then have "sum_list (map (\<lambda>kv. 1 + jsize (snd kv)) kvs)
      \<le> sum_list (map (\<lambda>kv. 1 + (length (put_str (fst kv)) + length (put_jval (snd kv)))) kvs)"
    by (intro sum_list_mono) (simp add: trans_le_add2)
  then show ?case by (simp add: length_concat comp_def case_prod_unfold)
qed (simp_all add: put_str_def)

lemma get_jvals_put:
  assumes "\<And>v n r. v \<in> set vs \<Longrightarrow> jsize v \<le> n \<Longrightarrow> get_jval n (put_jval v @ r) = Some (v, r)"
    and "sum_list (map (\<lambda>v. 1 + jsize v) vs) + 1 \<le> n"
  shows "get_jvals n (concat (map (\<lambda>v. CHR '','' # put_jval v) vs) @ '']'' @ r) = Some (vs, r)"
  using assms
proof (induction vs arbitrary: n)
  case Nil
  then obtain m where "n = Suc m" by (cases n) auto
  then show ?case by simp
next
  case (Cons v vs)
  then obtain m where n: "n = Suc m" by (cases n) auto
  have "get_jval m (put_jval v @ concat (map (\<lambda>v. CHR '','' # put_jval v) vs) @ '']'' @ r)
      = Some (v, concat (map (\<lambda>v. CHR '','' # put_jval v) vs) @ '']'' @ r)"
    using Cons.prems n by simp
  moreover have "get_jvals m (concat (map (\<lambda>v. CHR '','' # put_jval v) vs) @ '']'' @ r) = Some (vs, r)"
    using Cons.prems n by (intro Cons.IH) auto
  ultimately show ?case by (simp add: n)
qed

lemma get_items_put:
  assumes "\<And>k v n r. (k, v) \<in> set kvs \<Longrightarrow> jsize v \<le> n \<Longrightarrow> get_jval n (put_jval v @ r) = Some (v, r)"
    and "sum_list (map (\<lambda>(k, v). 1 + jsize v) kvs) + 1 \<le> n"
  shows "get_items n (concat (map (\<lambda>(k, v). CHR '','' # put_str k @ put_jval v) kvs) @ '']'' @ r)
    = Some (kvs, r)"
  using assms
proof (induction kvs arbitrary: n)
  case Nil
  then obtain m where "n = Suc m" by (cases n) auto
  then show ?case by simp
next
  case (Cons kv kvs)
  obtain k v where kv: "kv = (k, v)" by (cases kv)
  obtain m where n: "n = Suc m" using Cons.prems(2) by (cases n) auto
  let ?rest = "concat (map (\<lambda>(k, v). CHR '','' # put_str k @ put_jval v) kvs) @ '']'' @ r"
  have "get_jval m (put_jval v @ ?rest) = Some (v, ?rest)"
    using Cons.prems(2) n kv by (intro Cons.prems(1) [of k v]) auto
  moreover have "get_items m ?rest = Some (kvs, r)"
    using Cons.prems n kv by (intro Cons.IH) auto
  ultimately show ?case by (simp add: n kv get_put_str)
qed

lemma get_put_jval: "jsize v \<le> n \<Longrightarrow> get_jval n (put_jval v @ r) = Some (v, r)"
proof (induction v arbitrary: n r rule: jsize.induct)
  case (1 vs)
  then obtain m where n: "n = Suc m" and m: "sum_list (map (\<lambda>v. 1 + jsize v) vs) + 1 \<le> m"
    by (cases n) auto
  from get_jvals_put [OF "1.IH" m] show ?case by (simp add: n)
next
  case (2 kvs)
  then obtain m where n: "n = Suc m" and m: "sum_list (map (\<lambda>(k, v). 1 + jsize v) kvs) + 1 \<le> m"
    by (cases n) auto
  have "get_jval k' (put_jval v @ r) = Some (v, r)" if "(k, v) \<in> set kvs" "jsize v \<le> k'" for k v k' r
    using "2.IH" [OF that(1) refl that(2)] .
  from get_items_put [OF this m] show ?case by (simp add: n)
qed (auto simp: get_put_str gr0_conv_Suc Suc_le_eq)

definition jval_parse :: "string \<Rightarrow> jval option" where
  "jval_parse s = (case get_jval (length s) s of Some (v, []) \<Rightarrow> Some v | _ \<Rightarrow> None)"

lemma jval_parse_put: "jval_parse (put_jval v) = Some v"
  using get_put_jval [OF jsize_put, of v "[]"] by (simp add: jval_parse_def)

fun jval_set :: "jval \<Rightarrow> string \<Rightarrow> jval \<Rightarrow> jval option" where
  "jval_set (JObj kvs) k v = Some (JObj (AList.update k v kvs))"
| "jval_set JNull k v = Some (JObj [(k, v)])"
| "jval_set _ k v = None"

fun jval_items :: "jval \<Rightarrow> (string \<times> jval) list" where
  "jval_items (JObj kvs) = kvs"
| "jval_items _ = []"

definition jval_api :: "jval json_api" where
  "jval_api = \<lparr>
     j_null = JNull, j_str = JStr, j_bool = JBool, j_u64 = JNum, j_i64 = JNum, j_arr = JArr,
     j_obj = JObj, j_set = jval_set,
     j_is_object = (\<lambda>j. case j of JObj _ \<Rightarrow> True | _ \<Rightarrow> False),
     j_is_array = (\<lambda>j. case j of JArr _ \<Rightarrow> True | _ \<Rightarrow> False),
     j_contains = (\<lambda>j k. k \<in> fst ` set (jval_items j)),
     j_at = (\<lambda>j k. map_of (jval_items j) k),
     j_get_str = (\<lambda>j. case j of JStr s \<Rightarrow> Some s | _ \<Rightarrow> None),
     j_get_bool = (\<lambda>j. case j of JBool b \<Rightarrow> Some b | _ \<Rightarrow> None),
     j_get_u64 = (\<lambda>j. case j of JNum w \<Rightarrow> Some w | _ \<Rightarrow> None),
     j_get_i64 = (\<lambda>j. case j of JNum w \<Rightarrow> Some w | _ \<Rightarrow> None),
     j_elems = (\<lambda>j. case j of JArr vs \<Rightarrow> vs | _ \<Rightarrow> []),
     j_items = jval_items,
     j_dump = (\<lambda>j. Some (put_jval j)),
     j_dump2 = (\<lambda>j. Some (put_jval j)),
     j_parse = jval_parse \<rparr>"

lemma put_jval_not_Nil: "put_jval v \<noteq> []"
  by (cases v) simp_all

lemma jval_api_ok: "json_ok jval_api"
  by (simp add: json_ok_def jval_api_def jval_parse_put put_jval_not_Nil)

lemmas jval_api_simps = jval_api_def jval_items.simps jval_set.simps

end
