(* ===== verification/Protocol.thy ===== *)
theory Protocol
  imports Json_Api
begin

unbundle bit_operations_syntax

text \<open>
  The wire protocol: \<^verbatim>\<open>common/protocol/message.hpp\<close> (the message type, its JSON form,
  identifiers and size limits) and \<^verbatim>\<open>common/protocol/framing.hpp\<close> (length-prefixed
  frames and the streaming decoder). The lemmas show that a header reads back as
  the length written, that the decoder's result does not depend on how the bytes
  are cut into reads, and that what was encoded is what is decoded.
\<close>

section \<open>Messages\<close>

datatype message_type =
    MESSAGE | COMMAND | SYSTEM | ERROR | PRESENCE | AUTH_REQUEST | AUTH_RESPONSE
  | ROOM_EVENT | DIRECT_MESSAGE | KEY_EXCHANGE | ROOM_KEY | ROOM_MEMBERSHIP
  | ENCRYPTED_MESSAGE | HEALTH

definition message_type_table :: "(message_type \<times> string) list" where
  "message_type_table = [
     (MESSAGE, ''message''), (COMMAND, ''command''), (SYSTEM, ''system''), (ERROR, ''error''),
     (PRESENCE, ''presence''), (AUTH_REQUEST, ''auth_request''),
     (AUTH_RESPONSE, ''auth_response''), (ROOM_EVENT, ''room_event''),
     (DIRECT_MESSAGE, ''direct_message''), (KEY_EXCHANGE, ''key_exchange''),
     (ROOM_KEY, ''room_key''), (ROOM_MEMBERSHIP, ''room_membership''),
     (ENCRYPTED_MESSAGE, ''encrypted_message''), (HEALTH, ''health'')]"

text \<open>
  The serialisation macro looks the value up in the table in both directions and
  falls back to the first entry, so an unknown type reads as \<open>MESSAGE\<close>.
\<close>

definition message_type_to_json :: "'j json_api \<Rightarrow> message_type \<Rightarrow> 'j" where
  "message_type_to_json J t =
     (case find (\<lambda>(t', s). t' = t) message_type_table of
        Some (_, s) \<Rightarrow> j_str J s | None \<Rightarrow> j_str J ''message'')"

definition message_type_from_json :: "'j json_api \<Rightarrow> 'j \<Rightarrow> message_type" where
  "message_type_from_json J j =
     (case find (\<lambda>(t, s). j_str J s = j) message_type_table of
        Some (t, _) \<Rightarrow> t | None \<Rightarrow> MESSAGE)"

record 'j message =
  m_type :: message_type
  m_id :: string
  m_timestamp :: i64
  m_from :: string
  m_room :: string
  m_payload :: 'j

definition MAX_MESSAGE_SIZE :: nat where "MAX_MESSAGE_SIZE = 65536"
definition MAX_USERNAME_LENGTH :: nat where "MAX_USERNAME_LENGTH = 32"
definition MIN_USERNAME_LENGTH :: nat where "MIN_USERNAME_LENGTH = 3"
definition MAX_ROOM_NAME_LENGTH :: nat where "MAX_ROOM_NAME_LENGTH = 64"
definition MAX_PASSWORD_LENGTH :: nat where "MAX_PASSWORD_LENGTH = 128"
definition MIN_PASSWORD_LENGTH :: nat where "MIN_PASSWORD_LENGTH = 8"
definition PROTOCOL_VERSION :: u64 where "PROTOCOL_VERSION = 2"
definition MAX_ROOM_KEY_B64_LENGTH :: nat where "MAX_ROOM_KEY_B64_LENGTH = 2048"
definition MAX_ROOM_NONCE_B64_LENGTH :: nat where "MAX_ROOM_NONCE_B64_LENGTH = 64"
definition MAX_ROOM_SIGNATURE_B64_LENGTH :: nat where "MAX_ROOM_SIGNATURE_B64_LENGTH = 128"
definition MAX_ROOM_PUBKEY_B64_LENGTH :: nat where "MAX_ROOM_PUBKEY_B64_LENGTH = 64"
definition MAX_ROOM_CIPHERTEXT_B64_LENGTH :: nat where "MAX_ROOM_CIPHERTEXT_B64_LENGTH = 60000"

section \<open>Identifiers\<close>

definition hex_char :: "nat \<Rightarrow> char" where
  "hex_char d = (if d < 10 then char_of (48 + d) else char_of (87 + d))"

fun to_hex :: "nat \<Rightarrow> string" where
  "to_hex n = (if n < 16 then [hex_char n] else to_hex (n div 16) @ [hex_char (n mod 16)])"

declare to_hex.simps [simp del]

text \<open>\<^verbatim>\<open>std::hex << std::setfill('0') << std::setw(w) << n\<close>\<close>

definition setw_hex :: "nat \<Rightarrow> nat \<Rightarrow> string" where
  "setw_hex w n = replicate (w - length (to_hex n)) (CHR ''0'') @ to_hex n"

definition uuid_version :: "u64 \<Rightarrow> u64" where
  "uuid_version ab = (ab AND 0xFFFFFFFFFFFF0FFF) OR 0x0000000000004000"

definition uuid_variant :: "u64 \<Rightarrow> u64" where
  "uuid_variant cd = (cd AND 0x3FFFFFFFFFFFFFFF) OR 0x8000000000000000"

definition generate_uuid :: "u64 \<Rightarrow> u64 \<Rightarrow> string" where
  "generate_uuid r1 r2 =
     (let ab = uuid_version r1; cd = uuid_variant r2 in
        setw_hex 8 (unat (drop_bit 32 ab)) @ ''-''
      @ setw_hex 4 (unat (drop_bit 16 ab AND 0xFFFF)) @ ''-''
      @ setw_hex 4 (unat (ab AND 0xFFFF)) @ ''-''
      @ setw_hex 4 (unat (drop_bit 48 cd)) @ ''-''
      @ setw_hex 12 (unat (cd AND 0xFFFFFFFFFFFF)))"

text \<open>
  \<^verbatim>\<open>Message::create\<close> and the two canned messages. The two random words and the wall
  clock are arguments; \<^verbatim>\<open>payload\<close> starts as JSON null.
\<close>

definition message_create ::
  "'j json_api \<Rightarrow> u64 \<Rightarrow> u64 \<Rightarrow> i64 \<Rightarrow> message_type \<Rightarrow> string \<Rightarrow> string \<Rightarrow> 'j message" where
  "message_create J r1 r2 now t from_user room_name =
     \<lparr>m_type = t, m_id = generate_uuid r1 r2, m_timestamp = now, m_from = from_user,
      m_room = room_name, m_payload = j_null J\<rparr>"

definition error_payload :: "'j json_api \<Rightarrow> string \<Rightarrow> string \<Rightarrow> 'j" where
  "error_payload J msg errcode = j_obj J [(''message'', j_str J msg), (''code'', j_str J errcode)]"

definition message_error :: "'j json_api \<Rightarrow> u64 \<Rightarrow> u64 \<Rightarrow> i64 \<Rightarrow> string \<Rightarrow> string \<Rightarrow> 'j message" where
  "message_error J r1 r2 now msg errcode =
     (message_create J r1 r2 now ERROR ''server'' '''')\<lparr>m_payload := error_payload J msg errcode\<rparr>"

definition message_system :: "'j json_api \<Rightarrow> u64 \<Rightarrow> u64 \<Rightarrow> i64 \<Rightarrow> string \<Rightarrow> 'j message" where
  "message_system J r1 r2 now msg =
     (message_create J r1 r2 now SYSTEM ''server'' '''')
       \<lparr>m_payload := j_obj J [(''message'', j_str J msg)]\<rparr>"

definition message_to_json :: "'j json_api \<Rightarrow> 'j message \<Rightarrow> 'j" where
  "message_to_json J m = j_obj J [
     (''type'', message_type_to_json J (m_type m)),
     (''id'', j_str J (m_id m)),
     (''timestamp'', j_i64 J (m_timestamp m)),
     (''from'', j_str J (m_from m)),
     (''room'', j_str J (m_room m)),
     (''payload'', m_payload m)]"

text \<open>\<^verbatim>\<open>from_json\<close>: three mandatory members, three optional ones; \<open>None\<close> is a throw.\<close>

definition opt_member :: "'j json_api \<Rightarrow> ('j \<Rightarrow> 'a option) \<Rightarrow> 'j \<Rightarrow> string \<Rightarrow> 'a \<Rightarrow> 'a option" where
  "opt_member J conv j k d = (if j_contains J j k then Option.bind (j_at J j k) conv else Some d)"

definition message_from_json :: "'j json_api \<Rightarrow> 'j \<Rightarrow> 'j message option" where
  "message_from_json J j =
     Option.bind (j_at J j ''type'') (\<lambda>t.
     Option.bind (j_at_str J j ''id'') (\<lambda>i.
     Option.bind (Option.bind (j_at J j ''timestamp'') (j_get_i64 J)) (\<lambda>ts.
     Option.bind (opt_member J (j_get_str J) j ''from'' '''') (\<lambda>f.
     Option.bind (opt_member J (j_get_str J) j ''room'' '''') (\<lambda>r.
     Option.bind (opt_member J Some j ''payload'' (j_null J)) (\<lambda>p.
       Some \<lparr>m_type = message_type_from_json J t, m_id = i, m_timestamp = ts, m_from = f,
             m_room = r, m_payload = p\<rparr>))))))"

section \<open>Frames\<close>

definition HEADER_SIZE :: nat where "HEADER_SIZE = 4"

definition frame_header :: "u32 \<Rightarrow> bytes" where
  "frame_header len =
     [ucast (drop_bit 24 len AND 0xFF), ucast (drop_bit 16 len AND 0xFF),
      ucast (drop_bit 8 len AND 0xFF), ucast (len AND 0xFF)]"

definition encode_raw :: "string \<Rightarrow> bytes option" where
  "encode_raw json_str =
     (if length json_str > MAX_MESSAGE_SIZE then None
      else Some (frame_header (of_nat (length json_str)) @ bytes_of json_str))"

definition encode :: "'j json_api \<Rightarrow> 'j message \<Rightarrow> bytes option" where
  "encode J msg =
     (case j_dump J (message_to_json J msg) of
        None \<Rightarrow> None
      | Some json_str \<Rightarrow>
          if length json_str > MAX_MESSAGE_SIZE then None
          else Some (frame_header (of_nat (length json_str)) @ bytes_of json_str))"

definition read_length :: "bytes \<Rightarrow> u32" where
  "read_length header =
     push_bit 24 (ucast (header ! 0)) OR push_bit 16 (ucast (header ! 1))
     OR push_bit 8 (ucast (header ! 2)) OR ucast (header ! 3)"

section \<open>The streaming decoder\<close>

datatype decoder_state = READING_HEADER | READING_PAYLOAD

datatype frame_error = FrameTooLarge | InvalidJson

record decoder =
  d_state :: decoder_state
  d_needed :: nat
  d_payload_length :: u32
  d_header :: bytes
  d_payload :: bytes

definition decoder_init :: decoder where
  "decoder_init = \<lparr>d_state = READING_HEADER, d_needed = HEADER_SIZE, d_payload_length = 0,
     d_header = [], d_payload = []\<rparr>"

definition decoder_reset :: "decoder \<Rightarrow> decoder" where
  "decoder_reset d =
     d\<lparr>d_state := READING_HEADER, d_needed := HEADER_SIZE, d_header := [], d_payload := []\<rparr>"

definition decode_message :: "'j json_api \<Rightarrow> bytes \<Rightarrow> 'j message option" where
  "decode_message J body = Option.bind (j_parse J (string_of body)) (message_from_json J)"

text \<open>
  \<^verbatim>\<open>Decoder::feed\<close>: \<open>data\<close> is the unread part of the buffer, \<open>ms\<close> the local vector
  of decoded messages. A throw loses that vector and leaves the decoder as it is.
\<close>

function feed :: "'j json_api \<Rightarrow> decoder \<Rightarrow> bytes \<Rightarrow> 'j message list
    \<Rightarrow> (frame_error + 'j message list) \<times> decoder" where
  "feed J d data ms =
     (if data = [] then (Inr ms, d)
      else
        let n = min (d_needed d) (length data); chunk = take n data; rest = drop n data in
        case d_state d of
          READING_HEADER \<Rightarrow>
            let d1 = d\<lparr>d_header := d_header d @ chunk, d_needed := d_needed d - n\<rparr> in
            if d_needed d1 = 0 then
              let d2 = d1\<lparr>d_payload_length := read_length (d_header d1)\<rparr> in
              if unat (d_payload_length d2) > MAX_MESSAGE_SIZE then (Inl FrameTooLarge, d2)
              else feed J (d2\<lparr>d_header := [], d_payload := [],
                     d_needed := unat (d_payload_length d2), d_state := READING_PAYLOAD\<rparr>) rest ms
            else feed J d1 rest ms
        | READING_PAYLOAD \<Rightarrow>
            let d1 = d\<lparr>d_payload := d_payload d @ chunk, d_needed := d_needed d - n\<rparr> in
            if d_needed d1 = 0 then
              (case decode_message J (d_payload d1) of
                 None \<Rightarrow> (Inl InvalidJson, d1)
               | Some m \<Rightarrow> feed J (d1\<lparr>d_payload := [], d_needed := HEADER_SIZE,
                              d_state := READING_HEADER\<rparr>) rest (ms @ [m]))
            else feed J d1 rest ms)"
  by pat_completeness auto

definition feed_rank :: "decoder \<Rightarrow> nat" where
  "feed_rank d = (if d_needed d = 0 then (if d_state d = READING_HEADER then 2 else 1) else 0)"

termination feed
  by (relation "measure (\<lambda>(J, d, data, ms). 3 * length data + feed_rank d)")
     (auto simp: feed_rank_def HEADER_SIZE_def min_def split: if_splits)

declare feed.simps [simp del]

section \<open>Frame lemmas\<close>

lemma length_frame_header [simp]: "length (frame_header len) = 4"
  by (simp add: frame_header_def)

lemma bit_header_byte:
  "bit (ucast (ucast (w AND 0xFF :: u32) :: u8) :: u32) n \<longleftrightarrow> n < 8 \<and> bit w n"
proof -
  have m: "(0xFF :: u32) = mask 8" by (simp add: mask_eq_exp_minus_1)
  show ?thesis unfolding m by (auto simp: bit_simps dest: bit_imp_le_length)
qed

lemma read_length_frame_header: "read_length (frame_header len @ r) = len"
proof (rule bit_word_eqI)
  fix n :: nat
  assume n: "n < LENGTH(32)"
  have "bit (read_length (frame_header len @ r)) n \<longleftrightarrow>
      24 \<le> n \<and> n - 24 < 8 \<and> bit len (24 + (n - 24)) \<or> 16 \<le> n \<and> n - 16 < 8 \<and> bit len (16 + (n - 16))
      \<or> 8 \<le> n \<and> n - 8 < 8 \<and> bit len (8 + (n - 8)) \<or> n < 8 \<and> bit len n"
    using n by (simp add: read_length_def frame_header_def bit_or_iff bit_push_bit_iff
        bit_header_byte bit_drop_bit_eq)
  also have "\<dots> \<longleftrightarrow> bit len n"
    using n by (cases "24 \<le> n"; cases "16 \<le> n"; cases "8 \<le> n"; simp; linarith)
  finally show "bit (read_length (frame_header len @ r)) n = bit len n" .
qed

text \<open>The three ways one turn of the loop can go.\<close>

lemma feed_Nil [simp]: "feed J d [] ms = (Inr ms, d)"
  by (simp add: feed.simps)

definition header_done :: "decoder \<Rightarrow> bytes \<Rightarrow> decoder" where
  "header_done d h = d\<lparr>d_header := h, d_needed := 0, d_payload_length := read_length h\<rparr>"

definition start_payload :: "decoder \<Rightarrow> decoder" where
  "start_payload d = d\<lparr>d_header := [], d_payload := [], d_needed := unat (d_payload_length d),
     d_state := READING_PAYLOAD\<rparr>"

definition payload_done :: "decoder \<Rightarrow> bytes \<Rightarrow> decoder" where
  "payload_done d p = d\<lparr>d_payload := p, d_needed := 0\<rparr>"

definition start_header :: "decoder \<Rightarrow> decoder" where
  "start_header d = d\<lparr>d_payload := [], d_needed := HEADER_SIZE, d_state := READING_HEADER\<rparr>"

lemmas decoder_moves = header_done_def start_payload_def payload_done_def start_header_def

lemma feed_header_done:
  assumes "d_state d = READING_HEADER" and "d_needed d \<le> length data" and "data \<noteq> []"
  shows "feed J d data ms =
    (let d2 = header_done d (d_header d @ take (d_needed d) data) in
     if unat (d_payload_length d2) > MAX_MESSAGE_SIZE then (Inl FrameTooLarge, d2)
     else feed J (start_payload d2) (drop (d_needed d) data) ms)"
  using assms by (subst feed.simps) (simp add: Let_def min_def decoder_moves)

lemma feed_payload_done:
  assumes "d_state d = READING_PAYLOAD" and "d_needed d \<le> length data" and "data \<noteq> []"
  shows "feed J d data ms =
    (let d1 = payload_done d (d_payload d @ take (d_needed d) data) in
     case decode_message J (d_payload d1) of
       None \<Rightarrow> (Inl InvalidJson, d1)
     | Some m \<Rightarrow> feed J (start_header d1) (drop (d_needed d) data) (ms @ [m]))"
  using assms
  by (subst feed.simps) (simp add: Let_def min_def decoder_moves split: option.split)

definition absorb :: "decoder \<Rightarrow> bytes \<Rightarrow> decoder" where
  "absorb d a = (if d_state d = READING_HEADER
     then d\<lparr>d_header := d_header d @ a, d_needed := d_needed d - length a\<rparr>
     else d\<lparr>d_payload := d_payload d @ a, d_needed := d_needed d - length a\<rparr>)"

lemma feed_partial:
  assumes "length a < d_needed d"
  shows "feed J d a ms = (Inr ms, absorb d a)"
proof (cases "a = []")
  case True
  then show ?thesis by (cases d) (simp add: absorb_def)
next
  case False
  with assms show ?thesis
    by (subst feed.simps) (simp add: min_def Let_def absorb_def split: decoder_state.split)
qed

lemma absorb_simps:
  "d_state (absorb d a) = d_state d" "d_needed (absorb d a) = d_needed d - length a"
  "absorb (absorb d a) b = absorb d (a @ b)"
  by (cases d; simp add: absorb_def)+

lemma feed_absorb:
  assumes a: "length a < d_needed d" and b: "b \<noteq> []"
  shows "feed J d (a @ b) ms = feed J (absorb d a) b ms"
proof (cases "length (a @ b) < d_needed d")
  case True
  then show ?thesis by (simp add: feed_partial absorb_simps less_diff_conv2)
next
  case False
  then have ab: "d_needed d \<le> length (a @ b)" "a @ b \<noteq> []" using b by auto
  have b': "d_needed (absorb d a) \<le> length b" using ab by (simp add: absorb_simps)
  show ?thesis
  proof (cases "d_state d")
    case READING_HEADER
    then show ?thesis
      using a b' by (simp add: feed_header_done [OF _ ab] feed_header_done [OF _ b' b] absorb_simps
          Let_def) (cases d, simp add: absorb_def header_done_def)
  next
    case READING_PAYLOAD
    then show ?thesis
      using a b' by (simp add: feed_payload_done [OF _ ab] feed_payload_done [OF _ b' b] absorb_simps
          Let_def) (cases d, simp add: absorb_def payload_done_def split: option.split)
  qed
qed

definition then_feed :: "'j json_api \<Rightarrow> (frame_error + 'j message list) \<times> decoder \<Rightarrow> bytes
    \<Rightarrow> (frame_error + 'j message list) \<times> decoder" where
  "then_feed J r b = (case r of (Inl e, d) \<Rightarrow> (Inl e, d) | (Inr ms, d) \<Rightarrow> feed J d b ms)"

lemma feed_append: "feed J d (a @ b) ms = then_feed J (feed J d a ms) b"
proof (induction J d a ms rule: feed.induct)
  case (1 J d a ms)
  consider "a = [] \<or> b = []" | "length a < d_needed d" "b \<noteq> []"
    | (full) "a \<noteq> []" "d_needed d \<le> length a" by linarith
  then show ?case
  proof cases
    case 1
    then show ?thesis by (auto simp: then_feed_def split: prod.splits sum.splits)
  next
    case 2
    then show ?thesis by (simp add: feed_absorb feed_partial then_feed_def)
  next
    case full
    then have ab: "d_needed d \<le> length (a @ b)" "a @ b \<noteq> []" by auto
    let ?n = "d_needed d"
    show ?thesis
    proof (cases "d_state d")
      case READING_HEADER
      let ?d2 = "header_done d (d_header d @ take ?n a)"
      have IH: "feed J (start_payload ?d2) (drop ?n a @ b) ms
          = then_feed J (feed J (start_payload ?d2) (drop ?n a) ms) b"
        if "unat (d_payload_length ?d2) \<le> MAX_MESSAGE_SIZE"
        using "1.IH"(1) [OF full(1) refl refl refl READING_HEADER refl _ refl] full(2) that
        by (simp add: min_def decoder_moves)
      show ?thesis
        using full READING_HEADER IH
        by (simp add: feed_header_done [OF READING_HEADER] Let_def then_feed_def not_less)
    next
      case READING_PAYLOAD
      let ?d1 = "payload_done d (d_payload d @ take ?n a)"
      have IH: "feed J (start_header ?d1) (drop ?n a @ b) (ms @ [m])
          = then_feed J (feed J (start_header ?d1) (drop ?n a) (ms @ [m])) b"
        if "decode_message J (d_payload ?d1) = Some m" for m
        using "1.IH"(3) [OF full(1) refl refl refl READING_PAYLOAD refl] full(2) that
        by (simp add: min_def decoder_moves)
      show ?thesis
        using full READING_PAYLOAD IH
        by (simp add: feed_payload_done [OF READING_PAYLOAD] Let_def then_feed_def split: option.split)
    qed
  qed
qed

section \<open>JSON form of a message\<close>

lemma message_type_json:
  assumes "json_ok J"
  shows "message_type_from_json J (message_type_to_json J t) = t"
proof -
  have "j_str J s = j_str J s' \<longleftrightarrow> s = s'" for s s'
    by (metis assms json_ok_get(1) option.inject)
  then show ?thesis
    by (cases t) (simp_all add: message_type_from_json_def message_type_to_json_def
        message_type_table_def)
qed

lemma message_json:
  assumes "json_ok J"
  shows "message_from_json J (message_to_json J m) = Some m"
  using assms
  by (cases m) (simp add: message_from_json_def message_to_json_def opt_member_def j_at_str_def
      json_ok_obj json_ok_get message_type_json)

lemma encode_Some:
  assumes "encode J m = Some f"
  obtains s where "j_dump J (message_to_json J m) = Some s" and "length s \<le> MAX_MESSAGE_SIZE"
    and "f = frame_header (of_nat (length s)) @ bytes_of s"
  using assms by (auto simp: encode_def split: option.splits if_splits)

lemma unat_frame_length: "n \<le> MAX_MESSAGE_SIZE \<Longrightarrow> unat (of_nat n :: u32) = n"
  by (simp add: MAX_MESSAGE_SIZE_def unat_of_nat take_bit_nat_eq_self)

definition between_frames :: "decoder \<Rightarrow> bool" where
  "between_frames d \<longleftrightarrow>
     d_state d = READING_HEADER \<and> d_needed d = HEADER_SIZE \<and> d_header d = [] \<and> d_payload d = []"

lemma feed_frame:
  assumes d: "between_frames d" and s: "s \<noteq> []" "length s \<le> MAX_MESSAGE_SIZE"
    and m: "decode_message J (bytes_of s) = Some m"
  shows "feed J d (frame_header (of_nat (length s)) @ bytes_of s) ms
    = (Inr (ms @ [m]), d\<lparr>d_payload_length := of_nat (length s)\<rparr>)"
proof -
  let ?len = "of_nat (length s) :: u32"
  let ?d3 = "d\<lparr>d_payload_length := ?len, d_needed := length s, d_state := READING_PAYLOAD\<rparr>"
  have "feed J d (frame_header ?len @ bytes_of s) ms = feed J ?d3 (bytes_of s) ms"
    using d s read_length_frame_header [of ?len "[]"]
    by (cases d) (subst feed_header_done,
        simp_all add: between_frames_def HEADER_SIZE_def decoder_moves unat_frame_length)
  also have "\<dots> = (Inr (ms @ [m]), start_header (payload_done ?d3 (bytes_of s)))"
    using d s m by (subst feed_payload_done) (simp_all add: between_frames_def payload_done_def)
  also have "start_header (payload_done ?d3 (bytes_of s)) = d\<lparr>d_payload_length := ?len\<rparr>"
    using d by (cases d) (simp add: between_frames_def decoder_moves)
  finally show ?thesis .
qed

lemma feed_encode:
  assumes J: "json_ok J" and e: "encode J m = Some f" and d: "between_frames d"
  shows "\<exists>len. feed J d f ms = (Inr (ms @ [m]), d\<lparr>d_payload_length := len\<rparr>)"
proof -
  from e obtain s where s: "j_dump J (message_to_json J m) = Some s"
    "length s \<le> MAX_MESSAGE_SIZE" "f = frame_header (of_nat (length s)) @ bytes_of s"
    by (rule encode_Some)
  have "decode_message J (bytes_of s) = Some m"
    using J s(1) by (simp add: decode_message_def json_ok_parse_dump message_json)
  with d s J show ?thesis by (auto simp: feed_frame json_ok_dump_not_Nil)
qed

lemma feed_encode_list:
  assumes J: "json_ok J" and "between_frames d" and "map (encode J) msgs = map Some fs"
  shows "\<exists>len. feed J d (concat fs) ms = (Inr (ms @ msgs), d\<lparr>d_payload_length := len\<rparr>)"
  using assms(2,3)
proof (induction msgs arbitrary: fs d ms)
  case Nil
  then have "feed J d (concat fs) ms = (Inr (ms @ []), d\<lparr>d_payload_length := d_payload_length d\<rparr>)"
    by simp
  then show ?case by blast
next
  case (Cons m msgs)
  then obtain f fs' where fs: "fs = f # fs'" "encode J m = Some f"
    "map (encode J) msgs = map Some fs'" by (cases fs) auto
  obtain len where "feed J d f ms = (Inr (ms @ [m]), d\<lparr>d_payload_length := len\<rparr>)"
    using feed_encode [OF J fs(2) Cons.prems(1)] by blast
  moreover have "between_frames (d\<lparr>d_payload_length := len\<rparr>)"
    using Cons.prems(1) by (simp add: between_frames_def)
  from Cons.IH [OF this fs(3), of "ms @ [m]"] obtain len' where
    "feed J (d\<lparr>d_payload_length := len\<rparr>) (concat fs') (ms @ [m])
      = (Inr ((ms @ [m]) @ msgs), d\<lparr>d_payload_length := len'\<rparr>)" by auto
  ultimately have "feed J d (concat fs) ms
      = (Inr (ms @ m # msgs), d\<lparr>d_payload_length := len'\<rparr>)"
    by (simp add: fs(1) feed_append then_feed_def)
  then show ?case by blast
qed

section \<open>Identifier lemmas\<close>

lemma setw_hex_1: "n < 16 \<Longrightarrow> setw_hex (Suc 0) n = [hex_char n]"
  by (simp add: setw_hex_def to_hex.simps [of n])

lemma hex_char_0: "hex_char 0 = CHR ''0''"
  by code_simp

lemma setw_hex_snoc:
  "setw_hex (Suc (Suc w)) n = setw_hex (Suc w) (n div 16) @ [hex_char (n mod 16)]"
proof (cases "n < 16")
  case True
  then have "to_hex n = [hex_char n]" "to_hex 0 = [CHR ''0'']"
    by (simp_all add: to_hex.simps [of n] to_hex.simps [of 0] hex_char_0)
  with True show ?thesis
    by (simp add: setw_hex_def replicate_append_same)
next
  case False
  then show ?thesis by (simp add: setw_hex_def to_hex.simps [of n])
qed

lemma setw_hex_shape:
  "n < 16 ^ Suc w \<Longrightarrow>
   length (setw_hex (Suc w) n) = Suc w \<and> hd (setw_hex (Suc w) n) = hex_char (n div 16 ^ w)"
proof (induction w arbitrary: n)
  case 0
  then show ?case by (simp add: setw_hex_1)
next
  case (Suc w)
  then have "n div 16 < 16 ^ Suc w" by (simp add: div_less_iff_less_mult mult.commute)
  from Suc.IH [OF this] show ?case
    by (auto simp: setw_hex_snoc hd_append div_mult2_eq)
qed

lemma setw_hex_cons:
  assumes "n < 16 ^ Suc w"
  obtains t where "setw_hex (Suc w) n = hex_char (n div 16 ^ w) # t" and "length t = w"
  using setw_hex_shape [OF assms] by (cases "setw_hex (Suc w) n") auto

lemma unat_and_mask: "unat (w AND mask k :: u64) < 2 ^ k"
  by (simp add: take_bit_eq_mask [symmetric] unsigned_take_bit_eq)

lemma unat_drop_bit: "unat (drop_bit k w :: u64) = unat w div 2 ^ k"
  using unsigned_less [of w, where 'a = nat]
  by (simp add: unsigned_drop_bit_eq drop_bit_eq_div [where 'a = nat] take_bit_nat_eq_self)

lemma unat_drop_bit_64: "k \<le> 64 \<Longrightarrow> unat (drop_bit k w :: u64) < 2 ^ (64 - k)"
  using unsigned_less [of w, where 'a = nat]
  by (simp add: unat_drop_bit div_less_iff_less_mult flip: power_add)

lemma version_nibble: "unat (uuid_version r AND 0xFFFF) div 16 ^ 3 = 4"
proof -
  have "drop_bit 12 (uuid_version r AND 0xFFFF) = (4 :: u64)"
    by (simp add: uuid_version_def drop_bit_and drop_bit_or bit.conj_disj_distrib2 and.assoc)
  then have "unat (uuid_version r AND 0xFFFF) div 2 ^ 12 = unat (4 :: u64)"
    by (metis unat_drop_bit)
  then show ?thesis by simp
qed

lemma variant_nibble: "unat (drop_bit 48 (uuid_variant r)) div 16 ^ 3 \<in> {8, 9, 10, 11}"
proof -
  have "drop_bit 62 (uuid_variant r) = (2 :: u64)"
    by (simp add: uuid_variant_def drop_bit_and drop_bit_or)
  then have "unat (uuid_variant r) div 2 ^ 62 = unat (2 :: u64)"
    by (metis unat_drop_bit)
  then have "unat (uuid_variant r) div 2 ^ 60 div 2 ^ 2 = 2"
    by (simp flip: div_mult2_eq)
  then have "unat (uuid_variant r) div 2 ^ 60 \<in> {8, 9, 10, 11}" by auto
  then show ?thesis by (simp add: unat_drop_bit flip: div_mult2_eq)
qed

lemma uuid_shape:
  "\<exists>a b c e f. generate_uuid r1 r2 = a @ ''-'' @ b @ ''-'' @ CHR ''4'' # c @ ''-'' @ e @ ''-'' @ f
     \<and> length a = 8 \<and> length b = 4 \<and> length c = 3 \<and> length e = 4 \<and> length f = 12
     \<and> hd e \<in> set ''89ab''"
proof -
  let ?ab = "uuid_version r1" and ?cd = "uuid_variant r2"
  have m: "(0xFFFF :: u64) = mask 16" "(0xFFFFFFFFFFFF :: u64) = mask 48"
    by (simp_all add: mask_eq_exp_minus_1)
  have a: "length (setw_hex 8 (unat (drop_bit 32 ?ab))) = 8"
    using setw_hex_shape [of _ 7] unat_drop_bit_64 [of 32 ?ab] by simp
  have b: "length (setw_hex 4 (unat (drop_bit 16 ?ab AND 0xFFFF))) = 4"
    using setw_hex_shape [of _ 3] unat_and_mask [of "drop_bit 16 ?ab" 16] by (simp flip: m)
  have f: "length (setw_hex 12 (unat (?cd AND 0xFFFFFFFFFFFF))) = 12"
    using setw_hex_shape [of _ 11] unat_and_mask [of ?cd 48] by (simp flip: m)
  have "unat (?ab AND 0xFFFF) < 16 ^ Suc 3" using unat_and_mask [of ?ab 16] by (simp flip: m)
  from setw_hex_cons [OF this] obtain c where
    c: "setw_hex 4 (unat (?ab AND 0xFFFF)) = hex_char 4 # c" "length c = 3"
    using version_nibble [of r1] by auto
  have "unat (drop_bit 48 ?cd) < 16 ^ Suc 3" using unat_drop_bit_64 [of 48 ?cd] by simp
  from setw_hex_shape [OF this] have e: "length (setw_hex 4 (unat (drop_bit 48 ?cd))) = 4"
    "hd (setw_hex 4 (unat (drop_bit 48 ?cd))) \<in> hex_char ` {8, 9, 10, 11}"
    using variant_nibble [of r2] by auto
  have h: "hex_char 4 = CHR ''4''" "hex_char ` {8, 9, 10, 11} = set ''89ab''"
    by code_simp+
  show ?thesis
    using a b c e f unfolding generate_uuid_def Let_def h
    by (metis append_Cons h(1))
qed

section \<open>Properties\<close>


text \<open>C24: a stream of encoded messages decodes to exactly those messages, in order, and
  leaves the decoder between two frames.\<close>

theorem framing_roundtrip:
  assumes "json_ok J" and "map (encode J) msgs = map Some frames"
  shows "\<exists>d. feed J decoder_init (concat frames) [] = (Inr msgs, d) \<and> between_frames d"
proof -
  have "between_frames decoder_init" by (simp add: between_frames_def decoder_init_def)
  from feed_encode_list [OF assms(1) this assms(2), of "[]"] show ?thesis
    by (auto simp: between_frames_def decoder_init_def)
qed

definition sample_message :: "jval message" where
  "sample_message = \<lparr>m_type = COMMAND, m_id = ''7'', m_timestamp = 5, m_from = ''al'', m_room = ''r'',
     m_payload = JObj [(''command'', JStr ''rooms'')]\<rparr>"

lemma encode_sample: "\<exists>f. encode jval_api sample_message = Some f"
proof -
  have "length (put_jval (message_to_json jval_api sample_message)) \<le> MAX_MESSAGE_SIZE"
    by (simp add: message_to_json_def sample_message_def jval_api_def message_type_to_json_def
        message_type_table_def put_str_def nat_to_string.simps MAX_MESSAGE_SIZE_def)
  then show ?thesis by (simp add: encode_def jval_api_def Let_def)
qed

theorem framing_roundtrip_witness:
  "\<exists>f d. feed jval_api decoder_init (concat [f, f]) [] = (Inr [sample_message, sample_message], d)
     \<and> between_frames d"
proof -
  from encode_sample obtain f where f: "encode jval_api sample_message = Some f" by blast
  have "map (encode jval_api) [sample_message, sample_message] = map Some [f, f]"
    by (simp add: f)
  from framing_roundtrip [OF jval_api_ok this] show ?thesis by blast
qed

text \<open>a frame is produced only for JSON text of at most 65536 bytes; its four header
  bytes read back as the exact number of payload bytes that follow.\<close>

theorem encode_header:
  assumes "encode J m = Some f"
  shows "unat (read_length f) = length f - HEADER_SIZE \<and> length f - HEADER_SIZE \<le> MAX_MESSAGE_SIZE
    \<and> HEADER_SIZE \<le> length f"
proof -
  from assms obtain s where "length s \<le> MAX_MESSAGE_SIZE"
    and f: "f = frame_header (of_nat (length s)) @ bytes_of s" by (rule encode_Some)
  then show ?thesis
    by (simp add: read_length_frame_header unat_frame_length HEADER_SIZE_def)
qed

theorem encode_header_witness:
  "\<exists>f. encode jval_api sample_message = Some f \<and> unat (read_length f) = length f - HEADER_SIZE"
  using encode_sample encode_header [of jval_api sample_message] by blast

text \<open>every generated message identifier is a version 4, variant 1 UUID: groups of 8, 4,
  4, 4 and 12 characters, the third starting with 4 and the fourth with 8, 9, a or b.\<close>

theorem generate_uuid_v4:
  "\<exists>a b c e f. generate_uuid r1 r2 = a @ ''-'' @ b @ ''-'' @ CHR ''4'' # c @ ''-'' @ e @ ''-'' @ f
     \<and> length a = 8 \<and> length b = 4 \<and> length c = 3 \<and> length e = 4 \<and> length f = 12
     \<and> hd e \<in> set ''89ab''"
  by (rule uuid_shape)

end
