(* ===== verification/Connection.thy ===== *)
theory Connection
  imports Protocol
begin

text \<open>
  \<^verbatim>\<open>server/network/connection.{hpp,cpp}\<close>: one client connection. The socket is modelled
  by the operations in flight on it: \<open>co_read\<close> says which asynchronous read or
  handshake is pending, \<open>co_write_op\<close> whether a write is, and \<open>co_wire\<close> lists the buffers
  handed to it so far. A completion handler is a function of the error flag or
  the bytes read. The locale \<open>write_queue\<close> states the discipline of the outgoing queue
  once (one write in flight, buffers in order); it is interpreted on the connection.
\<close>

section \<open>The outgoing queue discipline\<close>

datatype 'f wq_event = Push 'f | Complete

fun wq_run :: "('f \<Rightarrow> 'c \<Rightarrow> 'c) \<Rightarrow> ('c \<Rightarrow> 'c) \<Rightarrow> 'f wq_event list \<Rightarrow> 'c \<Rightarrow> 'c" where
  "wq_run push finish [] c = c"
| "wq_run push finish (Push f # es) c = wq_run push finish es (push f c)"
| "wq_run push finish (Complete # es) c = wq_run push finish es (finish c)"

fun wq_pushed :: "'f wq_event list \<Rightarrow> 'f list" where
  "wq_pushed [] = []"
| "wq_pushed (Push f # es) = f # wq_pushed es"
| "wq_pushed (Complete # es) = wq_pushed es"

locale write_queue =
  fixes push :: "'f \<Rightarrow> 'c \<Rightarrow> 'c" and finish :: "'c \<Rightarrow> 'c"
    and queue :: "'c \<Rightarrow> 'f list" and wire :: "'c \<Rightarrow> 'f list" and busy :: "'c \<Rightarrow> bool"
    and live :: "'c \<Rightarrow> bool"
  assumes push_live: "live c \<Longrightarrow> live (push f c)"
    and complete_live: "live c \<Longrightarrow> live (finish c)"
    and push_idle: "live c \<Longrightarrow> \<not> busy c \<Longrightarrow> queue c = [] \<Longrightarrow>
      busy (push f c) \<and> queue (push f c) = [f] \<and> wire (push f c) = wire c @ [f]"
    and push_busy: "live c \<Longrightarrow> busy c \<Longrightarrow>
      busy (push f c) \<and> queue (push f c) = queue c @ [f] \<and> wire (push f c) = wire c"
    and complete_idle: "\<not> busy c \<Longrightarrow> finish c = c"
    and complete_last: "live c \<Longrightarrow> busy c \<Longrightarrow> queue c = [x] \<Longrightarrow>
      \<not> busy (finish c) \<and> queue (finish c) = [] \<and> wire (finish c) = wire c"
    and complete_more: "live c \<Longrightarrow> busy c \<Longrightarrow> queue c = x # y # ys \<Longrightarrow>
      busy (finish c) \<and> queue (finish c) = y # ys \<and> wire (finish c) = wire c @ [y]"
begin

definition tracks :: "'f list \<Rightarrow> 'c \<Rightarrow> bool" where
  "tracks sent c \<longleftrightarrow> live c \<and> (busy c \<longleftrightarrow> queue c \<noteq> []) \<and> wire c @ tl (queue c) = sent"

lemma tracks_push:
  assumes "tracks sent c"
  shows "tracks (sent @ [f]) (push f c)"
proof (cases "queue c")
  case Nil
  with assms have "live c" "\<not> busy c" "wire c = sent" by (auto simp: tracks_def)
  with Nil push_idle [of c f] push_live [of c f] show ?thesis by (simp add: tracks_def)
next
  case (Cons x xs)
  with assms have "live c" "busy c" "wire c @ xs = sent" by (auto simp: tracks_def)
  with Cons push_busy [of c f] push_live [of c f] show ?thesis by (auto simp: tracks_def)
qed

lemma tracks_complete:
  assumes "tracks sent c"
  shows "tracks sent (finish c)"
proof (cases "queue c" rule: remdups_adj.cases)
  case 1
  with assms have "\<not> busy c" by (simp add: tracks_def)
  with assms show ?thesis by (simp add: complete_idle)
next
  case (2 x)
  with assms complete_last [of c x] complete_live [of c] show ?thesis by (auto simp: tracks_def)
next
  case (3 x y ys)
  with assms complete_more [of c x y ys] complete_live [of c] show ?thesis by (auto simp: tracks_def)
qed

lemma tracks_run: "tracks sent c \<Longrightarrow> tracks (sent @ wq_pushed es) (wq_run push finish es c)"
proof (induction es arbitrary: sent c)
  case Nil
  then show ?case by simp
next
  case (Cons e es)
  show ?case
  proof (cases e)
    case (Push f)
    with Cons.IH [OF tracks_push [OF Cons.prems, of f]] show ?thesis by simp
  next
    case Complete
    with Cons.IH [OF tracks_complete [OF Cons.prems]] show ?thesis by simp
  qed
qed

end

section \<open>State\<close>

datatype read_op = NoRead | InHandshake | ReadingHeader | ReadingBody u32

record connection =
  co_id :: u64
  co_remote_address :: string
  co_remote_port :: u16
  co_user_id :: u64
  co_username :: string
  co_closed :: bool
  co_write_queue :: "bytes list"
  co_writing :: bool
  co_read :: read_op
  co_write_op :: bool
  co_wire :: "bytes list"
  co_handshake_timer :: bool
  co_idle_timer :: bool

definition connection_new :: "u64 \<Rightarrow> connection" where
  "connection_new next_id = \<lparr>co_id = next_id, co_remote_address = [], co_remote_port = 0,
     co_user_id = 0, co_username = [], co_closed = False, co_write_queue = [], co_writing = False,
     co_read = NoRead, co_write_op = False, co_wire = [], co_handshake_timer = False,
     co_idle_timer = False\<rparr>"

definition conn_is_authenticated :: "connection \<Rightarrow> bool" where
  "conn_is_authenticated c \<longleftrightarrow> co_user_id c \<noteq> 0"

definition conn_set_user_id :: "u64 \<Rightarrow> connection \<Rightarrow> connection" where
  "conn_set_user_id i c = c\<lparr>co_user_id := i\<rparr>"

definition conn_set_username :: "string \<Rightarrow> connection \<Rightarrow> connection" where
  "conn_set_username n c = c\<lparr>co_username := n\<rparr>"

section \<open>Writing\<close>

definition conn_do_write :: "connection \<Rightarrow> connection" where
  "conn_do_write c =
     (if co_closed c then c
      else c\<lparr>co_write_op := True, co_wire := co_wire c @ [hd (co_write_queue c)]\<rparr>)"

definition conn_send_raw :: "bytes \<Rightarrow> connection \<Rightarrow> connection" where
  "conn_send_raw data c =
     (if co_closed c then c
      else
        let c1 = c\<lparr>co_write_queue := co_write_queue c @ [data]\<rparr>
        in if \<not> co_writing c1 then conn_do_write (c1\<lparr>co_writing := True\<rparr>) else c1)"

definition conn_send :: "'j json_api \<Rightarrow> 'j message \<Rightarrow> connection \<Rightarrow> connection" where
  "conn_send J msg c =
     (case encode J msg of None \<Rightarrow> c | Some frame \<Rightarrow> conn_send_raw frame c)"

text \<open>Completion of the pending write; \<open>ec\<close> is the error flag.\<close>

definition conn_write_done :: "bool \<Rightarrow> connection \<Rightarrow> connection" where
  "conn_write_done ec c =
     (let c1 = c\<lparr>co_write_op := False\<rparr> in
      if ec then c1\<lparr>co_writing := False\<rparr>
      else
        let c2 = c1\<lparr>co_write_queue := tl (co_write_queue c1)\<rparr>
        in if co_write_queue c2 \<noteq> [] then conn_do_write c2 else c2\<lparr>co_writing := False\<rparr>)"

section \<open>Closing and timers\<close>

definition conn_close :: "connection \<Rightarrow> connection" where
  "conn_close c =
     (if co_closed c then c
      else c\<lparr>co_closed := True, co_handshake_timer := False, co_idle_timer := False\<rparr>)"

definition conn_start_handshake_timeout :: "connection \<Rightarrow> connection" where
  "conn_start_handshake_timeout c = c\<lparr>co_handshake_timer := True\<rparr>"

definition conn_handshake_timer_fired :: "bool \<Rightarrow> connection \<Rightarrow> connection" where
  "conn_handshake_timer_fired ec c =
     (let c1 = c\<lparr>co_handshake_timer := False\<rparr> in if \<not> ec \<and> \<not> co_closed c then conn_close c1 else c1)"

definition conn_reset_idle_timeout :: "connection \<Rightarrow> connection" where
  "conn_reset_idle_timeout c = c\<lparr>co_idle_timer := True\<rparr>"

definition conn_start_idle_timeout :: "connection \<Rightarrow> connection" where
  "conn_start_idle_timeout c = conn_reset_idle_timeout c"

definition conn_idle_timer_fired :: "bool \<Rightarrow> connection \<Rightarrow> connection" where
  "conn_idle_timer_fired ec c =
     (let c1 = c\<lparr>co_idle_timer := False\<rparr> in if \<not> ec \<and> \<not> co_closed c then conn_close c1 else c1)"

section \<open>Handshake and reading\<close>

definition conn_do_handshake :: "connection \<Rightarrow> connection" where
  "conn_do_handshake c = (conn_start_handshake_timeout c)\<lparr>co_read := InHandshake\<rparr>"

text \<open>The remote endpoint is \<open>None\<close> when querying it throws.\<close>

definition conn_start :: "(string \<times> u16) option \<Rightarrow> connection \<Rightarrow> connection" where
  "conn_start endpoint c =
     (case endpoint of
        Some (address, port) \<Rightarrow> conn_do_handshake (c\<lparr>co_remote_address := address, co_remote_port := port\<rparr>)
      | None \<Rightarrow> conn_do_handshake c)"

definition conn_do_read_header :: "connection \<Rightarrow> connection" where
  "conn_do_read_header c = (if co_closed c then c else c\<lparr>co_read := ReadingHeader\<rparr>)"

definition conn_do_read_body :: "u32 \<Rightarrow> connection \<Rightarrow> connection" where
  "conn_do_read_body len c = (if co_closed c then c else c\<lparr>co_read := ReadingBody len\<rparr>)"

text \<open>
  The handlers run on a state that holds the connection objects; the two callbacks
  the server installs are arguments. \<open>upd\<close> writes to the connection object.
\<close>

definition on_handshake ::
  "((connection \<Rightarrow> connection) \<Rightarrow> 's \<Rightarrow> 's) \<Rightarrow> ('s \<Rightarrow> 's) \<Rightarrow> bool \<Rightarrow> 's \<Rightarrow> 's" where
  "on_handshake upd error_handler ec s =
     (let s1 = upd (\<lambda>c. c\<lparr>co_read := NoRead, co_handshake_timer := False\<rparr>) s in
      if ec then error_handler s1
      else upd (\<lambda>c. conn_do_read_header (conn_start_idle_timeout c)) s1)"

definition on_header ::
  "((connection \<Rightarrow> connection) \<Rightarrow> 's \<Rightarrow> 's) \<Rightarrow> (connection \<Rightarrow> connection) \<Rightarrow> ('s \<Rightarrow> 's) \<Rightarrow>
   bytes option \<Rightarrow> 's \<Rightarrow> 's" where
  "on_header upd send_too_large error_handler header s =
     (let s1 = upd (\<lambda>c. c\<lparr>co_read := NoRead\<rparr>) s in
      case header of
        None \<Rightarrow> error_handler s1
      | Some h \<Rightarrow>
          if unat (read_length h) > MAX_MESSAGE_SIZE
          then upd (\<lambda>c. conn_close (send_too_large c)) s1
          else upd (\<lambda>c. conn_do_read_body (read_length h) (conn_reset_idle_timeout c)) s1)"

definition on_body ::
  "'j json_api \<Rightarrow> ((connection \<Rightarrow> connection) \<Rightarrow> 's \<Rightarrow> 's) \<Rightarrow> (connection \<Rightarrow> connection) \<Rightarrow>
   ('s \<Rightarrow> 's) \<Rightarrow> ('j message \<Rightarrow> ('s, unit) act) \<Rightarrow> bytes option \<Rightarrow> 's \<Rightarrow> 's" where
  "on_body J upd send_parse_error error_handler message_handler body s =
     (let s1 = upd (\<lambda>c. c\<lparr>co_read := NoRead\<rparr>) s in
      case body of
        None \<Rightarrow> error_handler s1
      | Some b \<Rightarrow>
          let s2 = (case decode_message J b of
                None \<Rightarrow> upd send_parse_error s1
              | Some m \<Rightarrow>
                  (case message_handler m s1 of
                     (Some (), s') \<Rightarrow> s'
                   | (None, s') \<Rightarrow> upd send_parse_error s'))
          in upd conn_do_read_header s2)"

section \<open>Lemmas\<close>

lemma conn_send_fields [simp]:
  "co_id (conn_send J m c) = co_id c" "co_user_id (conn_send J m c) = co_user_id c"
  "co_username (conn_send J m c) = co_username c" "co_closed (conn_send J m c) = co_closed c"
  "co_remote_address (conn_send J m c) = co_remote_address c" "co_read (conn_send J m c) = co_read c"
  by (simp_all add: conn_send_def conn_send_raw_def conn_do_write_def Let_def split: option.split)

lemma conn_is_authenticated_send [simp]: "conn_is_authenticated (conn_send J m c) = conn_is_authenticated c"
  by (simp add: conn_is_authenticated_def)

text \<open>What a send appends to the queue.\<close>

definition frames :: "'j json_api \<Rightarrow> 'j message list \<Rightarrow> bytes list" where
  "frames J ms = concat (map (\<lambda>m. case encode J m of None \<Rightarrow> [] | Some f \<Rightarrow> [f]) ms)"

lemma frames_simps [simp]:
  "frames J [] = []" "frames J (ms @ ns) = frames J ms @ frames J ns"
  by (simp_all add: frames_def)

lemma conn_send_queue:
  "co_write_queue (conn_send J m c) =
     (if co_closed c then co_write_queue c else co_write_queue c @ frames J [m])"
  by (simp add: conn_send_def conn_send_raw_def conn_do_write_def Let_def frames_def split: option.split)

definition conn_complete :: "connection \<Rightarrow> connection" where
  "conn_complete c = (if co_write_op c then conn_write_done False c else c)"

interpretation cq: write_queue conn_send_raw conn_complete co_write_queue co_wire co_write_op
    "\<lambda>c. \<not> co_closed c \<and> co_writing c = co_write_op c"
  by unfold_locales
    (auto simp: conn_send_raw_def conn_do_write_def conn_complete_def conn_write_done_def Let_def)


text \<open>
  After a header that announces more than 65536 bytes the connection is closed
  with neither a read nor a timer left pending, so no completion handler will run for
  it again and the error handler, which alone removes the connection and its session,
  is never called.
\<close>

theorem oversized_header_strands_connection:
  assumes "unat (read_length h) > MAX_MESSAGE_SIZE" and "\<not> co_closed c"
  shows "let c' = on_header (\<lambda>f. f) (conn_send J m) eh (Some h) c in
    co_closed c' \<and> co_read c' = NoRead \<and> \<not> co_idle_timer c' \<and> \<not> co_handshake_timer c' \<and>
    c' = on_header (\<lambda>f. f) (conn_send J m) eh' (Some h) c"
  using assms by (simp add: on_header_def Let_def conn_close_def)

theorem oversized_header_strands_connection_witness:
  "let c' = on_header (\<lambda>f. f) (conn_send jval_api (message_error jval_api 0 0 0 ''Message too large'' ''SIZE_LIMIT''))
       (\<lambda>c. c\<lparr>co_id := 0\<rparr>) (Some [0xFF, 0, 0, 0]) (connection_new 5) in
    co_closed c' \<and> co_read c' = NoRead"
proof -
  have l: "unat (read_length [0xFF, 0, 0, 0]) > MAX_MESSAGE_SIZE"
    by (simp add: read_length_def MAX_MESSAGE_SIZE_def)
  have "\<not> co_closed (connection_new 5)" by (simp add: connection_new_def)
  from oversized_header_strands_connection [OF l this, of jval_api
      "message_error jval_api 0 0 0 ''Message too large'' ''SIZE_LIMIT''" "\<lambda>c. c\<lparr>co_id := 0\<rparr>"]
  show ?thesis by (simp only: Let_def)
qed

end
