(* ===== verification/Connection_Manager.thy ===== *)
theory Connection_Manager
  imports Connection
begin

text \<open>
  \<^verbatim>\<open>server/network/connection_manager.{hpp,cpp}\<close>: the table of connections, the username
  index and the two room maps. A \<^verbatim>\<open>Connection::Ptr\<close> is the id of an object in \<open>n_objs\<close>;
  ids are never reused. The record \<open>net\<close> is extended by the server's state, so the
  operations here apply to it unchanged. The locale \<open>membership\<close> is what the room
  code relies on: room members and the rooms of a connection are inverse to each
  other, and every operation changes exactly the pairs it names.
\<close>

record conn_manager =
  cm_connections :: "u64 list"
  cm_username_index :: "string \<Rightarrow> u64 option"
  cm_rooms :: "string \<Rightarrow> u64 list option"
  cm_conn_rooms :: "u64 \<Rightarrow> string list option"

record net =
  n_objs :: "u64 \<Rightarrow> connection"
  n_cm :: conn_manager

definition conn_manager_new :: conn_manager where
  "conn_manager_new = \<lparr>cm_connections = [], cm_username_index = Map.empty, cm_rooms = Map.empty,
     cm_conn_rooms = Map.empty\<rparr>"

section \<open>Objects\<close>

definition net_upd :: "u64 \<Rightarrow> (connection \<Rightarrow> connection) \<Rightarrow> 'a net_scheme \<Rightarrow> 'a net_scheme" where
  "net_upd i f s = s\<lparr>n_objs := (n_objs s)(i := f (n_objs s i))\<rparr>"

definition net_send :: "'j json_api \<Rightarrow> u64 \<Rightarrow> 'j message \<Rightarrow> 'a net_scheme \<Rightarrow> 'a net_scheme" where
  "net_send J i m = net_upd i (conn_send J m)"

definition net_send_all :: "'j json_api \<Rightarrow> u64 list \<Rightarrow> 'j message \<Rightarrow> 'a net_scheme \<Rightarrow> 'a net_scheme" where
  "net_send_all J is m s = fold (\<lambda>i. net_send J i m) is s"

definition cm_upd :: "(conn_manager \<Rightarrow> conn_manager) \<Rightarrow> 'a net_scheme \<Rightarrow> 'a net_scheme" where
  "cm_upd f s = s\<lparr>n_cm := f (n_cm s)\<rparr>"

section \<open>Operations\<close>

definition cm_add :: "u64 \<Rightarrow> conn_manager \<Rightarrow> conn_manager" where
  "cm_add i cm = cm\<lparr>cm_connections := uset_insert i (cm_connections cm)\<rparr>"

definition rooms_erase :: "u64 \<Rightarrow> string \<Rightarrow> (string \<Rightarrow> u64 list option) \<Rightarrow> (string \<Rightarrow> u64 list option)" where
  "rooms_erase i r rooms =
     (let members = uset_erase i (case rooms r of Some ms \<Rightarrow> ms | None \<Rightarrow> [])
      in if members = [] then rooms(r := None) else rooms(r := Some members))"

definition cm_remove_from_all_rooms :: "u64 \<Rightarrow> conn_manager \<Rightarrow> conn_manager" where
  "cm_remove_from_all_rooms i cm =
     (case cm_conn_rooms cm i of
        Some rs \<Rightarrow> cm\<lparr>cm_rooms := fold (rooms_erase i) rs (cm_rooms cm),
                      cm_conn_rooms := (cm_conn_rooms cm)(i := None)\<rparr>
      | None \<Rightarrow> cm)"

definition cm_remove :: "u64 \<Rightarrow> 'a net_scheme \<Rightarrow> 'a net_scheme" where
  "cm_remove i s =
     (if i \<in> set (cm_connections (n_cm s)) then
        (let name = co_username (n_objs s i);
             cm1 = (if name \<noteq> [] then (n_cm s)\<lparr>cm_username_index := (cm_username_index (n_cm s))(name := None)\<rparr>
                    else n_cm s);
             cm2 = cm_remove_from_all_rooms i cm1
         in s\<lparr>n_cm := cm2\<lparr>cm_connections := uset_erase i (cm_connections cm2)\<rparr>\<rparr>)
      else s)"

definition cm_get :: "u64 \<Rightarrow> conn_manager \<Rightarrow> u64 option" where
  "cm_get i cm = (if i \<in> set (cm_connections cm) then Some i else None)"

definition cm_get_by_username :: "string \<Rightarrow> conn_manager \<Rightarrow> u64 option" where
  "cm_get_by_username u cm = cm_username_index cm u"

definition cm_register_username :: "string \<Rightarrow> u64 \<Rightarrow> conn_manager \<Rightarrow> conn_manager" where
  "cm_register_username u i cm = cm\<lparr>cm_username_index := (cm_username_index cm)(u := Some i)\<rparr>"

definition cm_unregister_username :: "string \<Rightarrow> conn_manager \<Rightarrow> conn_manager" where
  "cm_unregister_username u cm = cm\<lparr>cm_username_index := (cm_username_index cm)(u := None)\<rparr>"

definition cm_get_room_members :: "string \<Rightarrow> conn_manager \<Rightarrow> u64 list" where
  "cm_get_room_members r cm =
     (case cm_rooms cm r of
        Some ms \<Rightarrow> filter (\<lambda>i. i \<in> set (cm_connections cm)) ms
      | None \<Rightarrow> [])"

definition cm_broadcast :: "'j json_api \<Rightarrow> 'j message \<Rightarrow> 'a net_scheme \<Rightarrow> 'a net_scheme" where
  "cm_broadcast J m s =
     net_send_all J (filter (\<lambda>i. conn_is_authenticated (n_objs s i)) (cm_connections (n_cm s))) m s"

definition cm_broadcast_to_room :: "'j json_api \<Rightarrow> string \<Rightarrow> 'j message \<Rightarrow> 'a net_scheme \<Rightarrow> 'a net_scheme" where
  "cm_broadcast_to_room J r m s = net_send_all J (cm_get_room_members r (n_cm s)) m s"

definition cm_broadcast_except :: "'j json_api \<Rightarrow> u64 \<Rightarrow> 'j message \<Rightarrow> 'a net_scheme \<Rightarrow> 'a net_scheme" where
  "cm_broadcast_except J exclude m s =
     net_send_all J (filter (\<lambda>i. i \<noteq> exclude \<and> conn_is_authenticated (n_objs s i))
       (cm_connections (n_cm s))) m s"

definition cm_count :: "conn_manager \<Rightarrow> nat" where
  "cm_count cm = length (cm_connections cm)"

definition cm_count_by_ip :: "string \<Rightarrow> 'a net_scheme \<Rightarrow> nat" where
  "cm_count_by_ip ip s =
     length (filter (\<lambda>i. co_remote_address (n_objs s i) = ip) (cm_connections (n_cm s)))"

definition cm_authenticated_count :: "'a net_scheme \<Rightarrow> nat" where
  "cm_authenticated_count s =
     length (filter (\<lambda>i. conn_is_authenticated (n_objs s i)) (cm_connections (n_cm s)))"

definition cm_for_each :: "(u64 \<Rightarrow> 'a net_scheme \<Rightarrow> 'a net_scheme) \<Rightarrow> 'a net_scheme \<Rightarrow> 'a net_scheme" where
  "cm_for_each fn s = fold fn (cm_connections (n_cm s)) s"

definition cm_close_all :: "'a net_scheme \<Rightarrow> 'a net_scheme" where
  "cm_close_all s = fold (\<lambda>i. net_upd i conn_close) (cm_connections (n_cm s)) s"

definition cm_add_to_room :: "u64 \<Rightarrow> string \<Rightarrow> conn_manager \<Rightarrow> conn_manager" where
  "cm_add_to_room i r cm =
     cm\<lparr>cm_rooms := (cm_rooms cm)(r := Some (uset_insert i (case cm_rooms cm r of Some ms \<Rightarrow> ms | None \<Rightarrow> []))),
        cm_conn_rooms := (cm_conn_rooms cm)(i := Some (uset_insert r
          (case cm_conn_rooms cm i of Some rs \<Rightarrow> rs | None \<Rightarrow> [])))\<rparr>"

definition cm_remove_from_room :: "u64 \<Rightarrow> string \<Rightarrow> conn_manager \<Rightarrow> conn_manager" where
  "cm_remove_from_room i r cm =
     cm\<lparr>cm_rooms := rooms_erase i r (cm_rooms cm),
        cm_conn_rooms := (case cm_conn_rooms cm i of
           Some rs \<Rightarrow> (cm_conn_rooms cm)(i := Some (uset_erase r rs))
         | None \<Rightarrow> cm_conn_rooms cm)\<rparr>"

definition cm_get_rooms :: "u64 \<Rightarrow> conn_manager \<Rightarrow> string list" where
  "cm_get_rooms i cm = (case cm_conn_rooms cm i of Some rs \<Rightarrow> rs | None \<Rightarrow> [])"

section \<open>Sending\<close>

lemma net_upd_other [simp]: "j \<noteq> i \<Longrightarrow> n_objs (net_upd i f s) j = n_objs s j"
  by (simp add: net_upd_def)

lemma net_upd_same [simp]: "n_objs (net_upd i f s) i = f (n_objs s i)"
  by (simp add: net_upd_def)

lemma net_upd_cm [simp]: "n_cm (net_upd i f s) = n_cm s"
  by (simp add: net_upd_def)

lemma net_send_cm [simp]: "n_cm (net_send J i m s) = n_cm s"
  by (simp add: net_send_def)

lemma net_send_all_simps [simp]:
  "net_send_all J [] m s = s"
  "net_send_all J (i # is) m s = net_send_all J is m (net_send J i m s)"
  by (simp_all add: net_send_all_def)

lemma net_send_all_cm [simp]: "n_cm (net_send_all J is m s) = n_cm s"
  by (induction "is" arbitrary: s) simp_all

lemma net_send_all_obj:
  "distinct is \<Longrightarrow> n_objs (net_send_all J is m s) j = (if j \<in> set is then conn_send J m (n_objs s j) else n_objs s j)"
proof (induction "is" arbitrary: s)
  case (Cons i "is")
  then show ?case by (cases "j = i") (simp_all add: net_send_def)
qed simp

lemma net_send_all_fields [simp]:
  "co_user_id (n_objs (net_send_all J is m s) j) = co_user_id (n_objs s j)"
  "co_username (n_objs (net_send_all J is m s) j) = co_username (n_objs s j)"
  "co_id (n_objs (net_send_all J is m s) j) = co_id (n_objs s j)"
  "co_closed (n_objs (net_send_all J is m s) j) = co_closed (n_objs s j)"
  by (induction "is" arbitrary: s) (simp_all add: net_send_def net_upd_def)

section \<open>Room membership\<close>

datatype room_event = Joined u64 string | Left u64 string | Gone u64

text \<open>Who is in a room after a history (newest event first).\<close>

fun is_in :: "room_event list \<Rightarrow> u64 \<Rightarrow> string \<Rightarrow> bool" where
  "is_in [] c r = False"
| "is_in (Joined c' r' # es) c r = (c' = c \<and> r' = r \<or> is_in es c r)"
| "is_in (Left c' r' # es) c r = (\<not> (c' = c \<and> r' = r) \<and> is_in es c r)"
| "is_in (Gone c' # es) c r = (c' \<noteq> c \<and> is_in es c r)"

locale membership =
  fixes ok :: "'m \<Rightarrow> bool" and members :: "'m \<Rightarrow> string \<Rightarrow> u64 set" and joined :: "'m \<Rightarrow> u64 \<Rightarrow> string set"
    and enter :: "u64 \<Rightarrow> string \<Rightarrow> 'm \<Rightarrow> 'm" and leave :: "u64 \<Rightarrow> string \<Rightarrow> 'm \<Rightarrow> 'm"
    and leave_all :: "u64 \<Rightarrow> 'm \<Rightarrow> 'm"
  assumes inverse: "ok m \<Longrightarrow> c \<in> members m r \<longleftrightarrow> r \<in> joined m c"
    and enter_ok: "ok m \<Longrightarrow> ok (enter c r m)"
    and leave_ok: "ok m \<Longrightarrow> ok (leave c r m)"
    and leave_all_ok: "ok m \<Longrightarrow> ok (leave_all c m)"
    and members_enter: "ok m \<Longrightarrow> members (enter c r m) r' = (if r' = r then insert c (members m r) else members m r')"
    and members_leave: "ok m \<Longrightarrow> members (leave c r m) r' = (if r' = r then members m r - {c} else members m r')"
    and members_leave_all: "ok m \<Longrightarrow> members (leave_all c m) r' = members m r' - {c}"
begin

fun apply_event :: "room_event \<Rightarrow> 'm \<Rightarrow> 'm" where
  "apply_event (Joined c r) m = enter c r m"
| "apply_event (Left c r) m = leave c r m"
| "apply_event (Gone c) m = leave_all c m"

lemma apply_event_ok: "ok m \<Longrightarrow> ok (apply_event e m)"
  by (cases e) (simp_all add: enter_ok leave_ok leave_all_ok)

lemma history_members:
  assumes "ok m0" and "\<And>r. members m0 r = {}"
  shows "ok (foldr apply_event es m0) \<and> members (foldr apply_event es m0) r = {c. is_in es c r}"
proof (induction es arbitrary: r)
  case Nil
  with assms show ?case by simp
next
  case (Cons e es)
  let ?m = "foldr apply_event es m0"
  have ok: "ok ?m" and mem: "\<And>r. members ?m r = {c. is_in es c r}" using Cons.IH by auto
  have "members (apply_event e ?m) r = {c. is_in (e # es) c r}"
    by (cases e) (auto simp: members_enter [OF ok] members_leave [OF ok] members_leave_all [OF ok] mem)
  with apply_event_ok [OF ok, of e] show ?case by simp
qed

lemma history_joined:
  assumes "ok m0" and "\<And>r. members m0 r = {}"
  shows "joined (foldr apply_event es m0) c = {r. is_in es c r}"
  using history_members [OF assms, of es] inverse by blast

lemma joined_leave_all: "ok m \<Longrightarrow> joined (leave_all c m) c = {}"
  using inverse [OF leave_all_ok, of m c c] members_leave_all [of m c] by auto

end

definition cm_members :: "conn_manager \<Rightarrow> string \<Rightarrow> u64 set" where
  "cm_members cm r = (case cm_rooms cm r of Some ms \<Rightarrow> set ms | None \<Rightarrow> {})"

definition cm_joined :: "conn_manager \<Rightarrow> u64 \<Rightarrow> string set" where
  "cm_joined cm i = set (cm_get_rooms i cm)"

definition rooms_ok :: "conn_manager \<Rightarrow> bool" where
  "rooms_ok cm \<longleftrightarrow>
     (\<forall>r ms. cm_rooms cm r = Some ms \<longrightarrow> ms \<noteq> [] \<and> distinct ms) \<and>
     (\<forall>c rs. cm_conn_rooms cm c = Some rs \<longrightarrow> distinct rs) \<and>
     (\<forall>c r. c \<in> cm_members cm r \<longleftrightarrow> r \<in> cm_joined cm c)"

definition room_set :: "(string \<Rightarrow> u64 list option) \<Rightarrow> string \<Rightarrow> u64 set" where
  "room_set rooms r = (case rooms r of Some ms \<Rightarrow> set ms | None \<Rightarrow> {})"

definition rooms_tidy :: "(string \<Rightarrow> u64 list option) \<Rightarrow> bool" where
  "rooms_tidy rooms \<longleftrightarrow> (\<forall>r ms. rooms r = Some ms \<longrightarrow> ms \<noteq> [] \<and> distinct ms)"

lemma rooms_erase_set: "room_set (rooms_erase i r rooms) r' = (if r' = r then room_set rooms r - {i} else room_set rooms r')"
proof -
  have e: "uset_erase i xs = [] \<longleftrightarrow> set xs - {i} = {}" for xs :: "u64 list"
    by (simp only: set_uset_erase [symmetric] set_empty)
  show ?thesis
    by (cases "rooms r") (auto simp: rooms_erase_def room_set_def Let_def e)
qed

lemma rooms_erase_tidy: "rooms_tidy rooms \<Longrightarrow> rooms_tidy (rooms_erase i r rooms)"
  by (auto simp: rooms_erase_def rooms_tidy_def Let_def split: option.splits)

lemma rooms_erase_fold:
  "room_set (fold (rooms_erase i) rs rooms) r = (if r \<in> set rs then room_set rooms r - {i} else room_set rooms r)"
  by (induction rs arbitrary: rooms) (auto simp: rooms_erase_set)

lemma rooms_erase_fold_tidy: "rooms_tidy rooms \<Longrightarrow> rooms_tidy (fold (rooms_erase i) rs rooms)"
  by (induction rs arbitrary: rooms) (auto simp: rooms_erase_tidy)

lemma rooms_ok_alt: "rooms_ok cm \<longleftrightarrow> rooms_tidy (cm_rooms cm) \<and>
    (\<forall>c rs. cm_conn_rooms cm c = Some rs \<longrightarrow> distinct rs) \<and>
    (\<forall>c r. c \<in> room_set (cm_rooms cm) r \<longleftrightarrow> r \<in> cm_joined cm c)"
  by (simp add: rooms_ok_def rooms_tidy_def cm_members_def room_set_def)

lemma cm_members_alt: "cm_members cm = room_set (cm_rooms cm)"
  by (simp add: fun_eq_iff cm_members_def room_set_def)

lemma add_to_room_members:
  "cm_members (cm_add_to_room i r cm) r' = (if r' = r then insert i (cm_members cm r) else cm_members cm r')"
  by (simp add: cm_members_def cm_add_to_room_def split: option.split)

lemma add_to_room_joined:
  "cm_joined (cm_add_to_room i r cm) c = (if c = i then insert r (cm_joined cm c) else cm_joined cm c)"
  by (auto simp: cm_joined_def cm_get_rooms_def cm_add_to_room_def split: option.split)

lemma add_to_room_ok: "rooms_ok cm \<Longrightarrow> rooms_ok (cm_add_to_room i r cm)"
  unfolding rooms_ok_def add_to_room_members add_to_room_joined
  by (auto simp: cm_add_to_room_def split: if_splits option.splits)

lemma remove_from_room_members:
  "cm_members (cm_remove_from_room i r cm) r' = (if r' = r then cm_members cm r - {i} else cm_members cm r')"
  by (simp add: cm_members_alt cm_remove_from_room_def rooms_erase_set)

lemma remove_from_room_joined:
  "cm_joined (cm_remove_from_room i r cm) c = (if c = i then cm_joined cm c - {r} else cm_joined cm c)"
  by (auto simp: cm_joined_def cm_get_rooms_def cm_remove_from_room_def split: option.split)

lemma remove_from_room_ok:
  assumes "rooms_ok cm"
  shows "rooms_ok (cm_remove_from_room i r cm)"
proof -
  have "rooms_tidy (cm_rooms (cm_remove_from_room i r cm))"
    using assms by (simp add: rooms_ok_alt cm_remove_from_room_def rooms_erase_tidy)
  moreover have "distinct rs" if "cm_conn_rooms (cm_remove_from_room i r cm) c = Some rs" for c rs
    using that assms by (auto simp: rooms_ok_def cm_remove_from_room_def split: option.splits if_splits)
  moreover have "c \<in> cm_members (cm_remove_from_room i r cm) r' \<longleftrightarrow> r' \<in> cm_joined (cm_remove_from_room i r cm) c" for c r'
    unfolding remove_from_room_members remove_from_room_joined using assms by (auto simp: rooms_ok_def)
  ultimately show ?thesis by (simp add: rooms_ok_alt cm_members_alt)
qed

lemma remove_all_members:
  assumes "rooms_ok cm"
  shows "cm_members (cm_remove_from_all_rooms i cm) r = cm_members cm r - {i}"
proof (cases "cm_conn_rooms cm i")
  case None
  then have "i \<notin> cm_members cm r" using assms by (simp add: rooms_ok_def cm_joined_def cm_get_rooms_def)
  with None show ?thesis by (simp add: cm_remove_from_all_rooms_def)
next
  case (Some rs)
  then have "r \<notin> set rs \<Longrightarrow> i \<notin> cm_members cm r"
    using assms by (simp add: rooms_ok_def cm_joined_def cm_get_rooms_def)
  with Some show ?thesis
    by (auto simp: cm_members_alt cm_remove_from_all_rooms_def rooms_erase_fold)
qed

lemma remove_all_joined:
  "cm_joined (cm_remove_from_all_rooms i cm) c = (if c = i then {} else cm_joined cm c)"
  by (simp add: cm_joined_def cm_get_rooms_def cm_remove_from_all_rooms_def split: option.split)

lemma remove_all_ok:
  assumes "rooms_ok cm"
  shows "rooms_ok (cm_remove_from_all_rooms i cm)"
proof -
  have "rooms_tidy (cm_rooms (cm_remove_from_all_rooms i cm))"
    using assms by (simp add: rooms_ok_alt cm_remove_from_all_rooms_def rooms_erase_fold_tidy split: option.split)
  moreover have "distinct rs" if "cm_conn_rooms (cm_remove_from_all_rooms i cm) c = Some rs" for c rs
    using that assms by (auto simp: rooms_ok_def cm_remove_from_all_rooms_def split: option.splits if_splits)
  moreover have "c \<in> cm_members (cm_remove_from_all_rooms i cm) r \<longleftrightarrow> r \<in> cm_joined (cm_remove_from_all_rooms i cm) c" for c r
    unfolding remove_all_members [OF assms] remove_all_joined using assms by (auto simp: rooms_ok_def)
  ultimately show ?thesis by (simp add: rooms_ok_alt cm_members_alt)
qed

interpretation rooms: membership rooms_ok cm_members cm_joined cm_add_to_room cm_remove_from_room
    cm_remove_from_all_rooms
  by unfold_locales
    (simp_all add: add_to_room_ok remove_from_room_ok remove_all_ok add_to_room_members
      remove_from_room_members remove_all_members, simp add: rooms_ok_def)


lemma rooms_ok_new: "rooms_ok conn_manager_new" and members_new: "cm_members conn_manager_new r = {}"
  by (simp_all add: rooms_ok_def conn_manager_new_def cm_members_def cm_joined_def cm_get_rooms_def)

lemma rooms_ok_cong:
  "cm_rooms cm = cm_rooms cm' \<Longrightarrow> cm_conn_rooms cm = cm_conn_rooms cm' \<Longrightarrow> rooms_ok cm = rooms_ok cm'"
  by (simp add: rooms_ok_def cm_members_def cm_joined_def cm_get_rooms_def)

lemma rooms_ok_other [simp]:
  "rooms_ok (cm_add i cm) = rooms_ok cm"
  "rooms_ok (cm_register_username u i cm) = rooms_ok cm"
  "rooms_ok (cm_unregister_username u cm) = rooms_ok cm"
  by (auto simp: cm_add_def cm_register_username_def cm_unregister_username_def intro!: rooms_ok_cong)

lemma room_ops_frame [simp]:
  "cm_username_index (cm_add_to_room i r cm) = cm_username_index cm"
  "cm_connections (cm_add_to_room i r cm) = cm_connections cm"
  "cm_username_index (cm_remove_from_room i r cm) = cm_username_index cm"
  "cm_connections (cm_remove_from_room i r cm) = cm_connections cm"
  "cm_username_index (cm_remove_from_all_rooms i cm) = cm_username_index cm"
  "cm_connections (cm_remove_from_all_rooms i cm) = cm_connections cm"
  by (simp_all add: cm_add_to_room_def cm_remove_from_room_def cm_remove_from_all_rooms_def split: option.split)

lemma cm_remove_eq:
  assumes "rooms_ok (n_cm s)" and "i \<in> set (cm_connections (n_cm s))"
  shows "rooms_ok (n_cm (cm_remove i s))"
    and "cm_members (n_cm (cm_remove i s)) r = cm_members (n_cm s) r - {i}"
    and "set (cm_connections (n_cm (cm_remove i s))) = set (cm_connections (n_cm s)) - {i}"
proof -
  let ?cm1 = "if co_username (n_objs s i) \<noteq> [] then (n_cm s)\<lparr>cm_username_index :=
      (cm_username_index (n_cm s))(co_username (n_objs s i) := None)\<rparr> else n_cm s"
  have ok1: "rooms_ok ?cm1" and m1: "cm_members ?cm1 r = cm_members (n_cm s) r"
    using assms(1) by (auto simp: cm_members_def intro: rooms_ok_cong [THEN iffD1, of "n_cm s"])
  have eq: "n_cm (cm_remove i s) = (cm_remove_from_all_rooms i ?cm1)
      \<lparr>cm_connections := uset_erase i (cm_connections (cm_remove_from_all_rooms i ?cm1))\<rparr>"
    using assms(2) by (simp add: cm_remove_def Let_def)
  have cs: "cm_connections (cm_remove_from_all_rooms i ?cm1) = cm_connections (n_cm s)"
    by (simp add: cm_remove_from_all_rooms_def split: option.split)
  show "rooms_ok (n_cm (cm_remove i s))"
    unfolding eq by (rule rooms_ok_cong [THEN iffD1, OF _ _ remove_all_ok [OF ok1, of i]]) simp_all
  show "cm_members (n_cm (cm_remove i s)) r = cm_members (n_cm s) r - {i}"
    unfolding eq using remove_all_members [OF ok1, of i r] m1 by (simp add: cm_members_def)
  show "set (cm_connections (n_cm (cm_remove i s))) = set (cm_connections (n_cm s)) - {i}"
    unfolding eq by (simp add: cs)
qed

text \<open>
  C28: The two room maps together record exactly the membership history: after any
  sequence of joins, leaves and removals a connection is listed in a room if and only
  if its last event concerning that room was joining it; the rooms listed for a
  connection are those same rooms; and no room with an empty member set is kept.
\<close>

theorem room_maps_track_history:
  "let cm = foldr rooms.apply_event es conn_manager_new in
   cm_members cm r = {c. is_in es c r} \<and> set (cm_get_rooms c cm) = {r. is_in es c r} \<and>
   cm_rooms cm r \<noteq> Some []"
proof -
  note h = rooms.history_members [OF rooms_ok_new members_new, of es]
  have "rooms_ok (foldr rooms.apply_event es conn_manager_new)" using h by blast
  then have "cm_rooms (foldr rooms.apply_event es conn_manager_new) r \<noteq> Some []"
    by (auto simp: rooms_ok_def)
  with h rooms.history_joined [OF rooms_ok_new members_new, of es c] show ?thesis
    by (simp add: Let_def cm_joined_def)
qed

lemma broadcast_to_room_exact_core:
  assumes "rooms_ok (n_cm s)"
  shows "n_objs (cm_broadcast_to_room J r m s) i =
      (if i \<in> cm_members (n_cm s) r \<and> i \<in> set (cm_connections (n_cm s))
       then conn_send J m (n_objs s i) else n_objs s i)
    \<and> (i \<in> cm_members (n_cm s) r \<and> i \<in> set (cm_connections (n_cm s)) \<and> \<not> co_closed (n_objs s i) \<longrightarrow>
        co_write_queue (n_objs (cm_broadcast_to_room J r m s) i) = co_write_queue (n_objs s i) @ frames J [m])
    \<and> n_cm (cm_broadcast_to_room J r m s) = n_cm s"
proof -
  have "distinct (cm_get_room_members r (n_cm s))"
    using assms by (auto simp: cm_get_room_members_def rooms_ok_def split: option.split)
  moreover have "set (cm_get_room_members r (n_cm s)) = cm_members (n_cm s) r \<inter> set (cm_connections (n_cm s))"
    by (auto simp: cm_get_room_members_def cm_members_def split: option.split)
  ultimately show ?thesis
    by (auto simp: cm_broadcast_to_room_def net_send_all_obj conn_send_queue)
qed

text \<open>
  A room broadcast queues one copy of the frame on every open connection that is a
  member of the room and still in the connection table, and changes no other
  connection.
\<close>

theorem broadcast_to_room_exact:
  assumes "rooms_ok (n_cm s)"
  shows "n_objs (cm_broadcast_to_room J r m s) i =
      (if i \<in> cm_members (n_cm s) r \<and> i \<in> set (cm_connections (n_cm s))
       then conn_send J m (n_objs s i) else n_objs s i)
    \<and> (i \<in> cm_members (n_cm s) r \<and> i \<in> set (cm_connections (n_cm s)) \<and> \<not> co_closed (n_objs s i) \<longrightarrow>
        co_write_queue (n_objs (cm_broadcast_to_room J r m s) i) = co_write_queue (n_objs s i) @ frames J [m])
    \<and> n_cm (cm_broadcast_to_room J r m s) = n_cm s"
  by (rule broadcast_to_room_exact_core [OF assms])

definition net_sample :: net where
  "net_sample = \<lparr>n_objs = connection_new,
     n_cm = cm_add_to_room 1 ''general'' (cm_add 2 (cm_add 1 conn_manager_new))\<rparr>"

theorem broadcast_to_room_exact_witness:
  "n_objs (cm_broadcast_to_room jval_api ''general'' (message_system jval_api 0 0 0 ''hi'') net_sample) 2 = connection_new 2
   \<and> co_write_queue (n_objs (cm_broadcast_to_room jval_api ''general'' (message_system jval_api 0 0 0 ''hi'') net_sample) 1)
     = frames jval_api [message_system jval_api 0 0 0 ''hi'']"
proof -
  have ok: "rooms_ok (n_cm net_sample)" by (simp add: net_sample_def add_to_room_ok rooms_ok_new)
  have "2 \<notin> cm_members (n_cm net_sample) ''general''" "1 \<in> cm_members (n_cm net_sample) ''general''"
    "1 \<in> set (cm_connections (n_cm net_sample))"
    by (simp_all add: net_sample_def cm_members_def cm_add_to_room_def cm_add_def conn_manager_new_def uset_insert_def)
  moreover have "n_objs net_sample = connection_new" by (simp add: net_sample_def)
  ultimately show ?thesis
    using broadcast_to_room_exact [OF ok, of jval_api "''general''" "message_system jval_api 0 0 0 ''hi''" 1]
      broadcast_to_room_exact [OF ok, of jval_api "''general''" "message_system jval_api 0 0 0 ''hi''" 2]
    by (simp add: connection_new_def conn_send_queue)
qed

end
