(* ===== verification/Rate_Limiter.thy ===== *)
theory Rate_Limiter
  imports Chat_Prelude
begin

text \<open>
  \<^verbatim>\<open>server/session/rate_limiter.hpp\<close>: the token bucket and its per-IP / per-user pair.
  Time points are \<^verbatim>\<open>steady_clock\<close> nanoseconds (\<open>int\<close>), with \<^verbatim>\<open>time_point{}\<close> as 0, and each
  operation takes the current time. A \<^verbatim>\<open>double\<close> is a real number and every floating
  point operation is the exact one followed by the rounding function \<open>fl\<close>, an
  argument of the model; \<open>ieee_rounding\<close> states what IEEE 754 guarantees of it.
\<close>

type_synonym rounding = "real \<Rightarrow> real"

definition ieee_rounding :: "rounding \<Rightarrow> bool" where
  "ieee_rounding fl \<longleftrightarrow>
     mono fl \<and> (\<forall>x. fl (fl x) = fl x) \<and>
     (\<forall>n::int. \<bar>n\<bar> \<le> 2 ^ 53 \<longrightarrow> fl (of_int n) = of_int n)"

text \<open>\<^verbatim>\<open>std::chrono::duration_cast\<close> truncates towards zero.\<close>

definition duration_cast :: "int \<Rightarrow> int \<Rightarrow> int" where
  "duration_cast unit_ns d = sgn d * (\<bar>d\<bar> div unit_ns)"

definition ns_per_ms :: int where "ns_per_ms = 1000000"
definition ns_per_s :: int where "ns_per_s = 1000000000"

record rl_config =
  tokens_per_second :: nat
  max_burst :: nat

record bucket =
  tokens :: real
  last_update :: int

record rate_limiter =
  rl_conf :: rl_config
  rl_buckets :: "string \<rightharpoonup> bucket"

definition new_bucket :: bucket where
  "new_bucket = \<lparr>tokens = 0, last_update = 0\<rparr>"

definition rate_limiter_new :: "rl_config \<Rightarrow> rate_limiter" where
  "rate_limiter_new c = \<lparr>rl_conf = c, rl_buckets = Map.empty\<rparr>"

definition bucket_init :: "rounding \<Rightarrow> rl_config \<Rightarrow> int \<Rightarrow> bucket \<Rightarrow> bucket" where
  "bucket_init fl c now b =
     (if tokens b = 0 \<and> last_update b = 0
      then \<lparr>tokens = fl (real (max_burst c)), last_update = now\<rparr> else b)"

definition bucket_refill :: "rounding \<Rightarrow> rl_config \<Rightarrow> int \<Rightarrow> bucket \<Rightarrow> bucket" where
  "bucket_refill fl c now b =
     (let elapsed = duration_cast ns_per_ms (now - last_update b) in
      if elapsed > 0 then
        let refill = fl (fl (fl (real_of_int elapsed) / 1000) * fl (real (tokens_per_second c))) in
        \<lparr>tokens = min (fl (real (max_burst c))) (fl (tokens b + refill)), last_update = now\<rparr>
      else b)"

definition bucket_take :: "rounding \<Rightarrow> bucket \<Rightarrow> bool \<times> bucket" where
  "bucket_take fl b =
     (if tokens b \<ge> 1 then (True, b\<lparr>tokens := fl (tokens b - 1)\<rparr>) else (False, b))"

definition rl_check :: "rounding \<Rightarrow> int \<Rightarrow> string \<Rightarrow> rate_limiter \<Rightarrow> bool \<times> rate_limiter" where
  "rl_check fl now key rl =
     (let b0 = (case rl_buckets rl key of Some b \<Rightarrow> b | None \<Rightarrow> new_bucket);
          b1 = bucket_init fl (rl_conf rl) now b0;
          b2 = bucket_refill fl (rl_conf rl) now b1;
          (ok, b3) = bucket_take fl b2
      in (ok, rl\<lparr>rl_buckets := (rl_buckets rl)(key \<mapsto> b3)\<rparr>))"

definition rl_remaining :: "rounding \<Rightarrow> string \<Rightarrow> rate_limiter \<Rightarrow> real" where
  "rl_remaining fl key rl =
     (case rl_buckets rl key of Some b \<Rightarrow> tokens b | None \<Rightarrow> fl (real (max_burst (rl_conf rl))))"

definition rl_remove :: "string \<Rightarrow> rate_limiter \<Rightarrow> rate_limiter" where
  "rl_remove key rl = rl\<lparr>rl_buckets := (rl_buckets rl)(key := None)\<rparr>"

definition rl_clear :: "rate_limiter \<Rightarrow> rate_limiter" where
  "rl_clear rl = rl\<lparr>rl_buckets := Map.empty\<rparr>"

text \<open>\<^verbatim>\<open>cleanup\<close> compares whole seconds, and drops the buckets older than \<open>max_age\<close>.\<close>

definition rl_cleanup :: "int \<Rightarrow> int \<Rightarrow> rate_limiter \<Rightarrow> rate_limiter" where
  "rl_cleanup now max_age rl =
     rl\<lparr>rl_buckets := (\<lambda>k. case rl_buckets rl k of
          None \<Rightarrow> None
        | Some b \<Rightarrow> if duration_cast ns_per_s (now - last_update b) > max_age then None else Some b)\<rparr>"

record dual_limiter =
  ip_limiter :: rate_limiter
  user_limiter :: rate_limiter

definition dual_limiter_new :: "rl_config \<Rightarrow> rl_config \<Rightarrow> dual_limiter" where
  "dual_limiter_new ipc uc = \<lparr>ip_limiter = rate_limiter_new ipc, user_limiter = rate_limiter_new uc\<rparr>"

definition dual_limiter_default :: dual_limiter where
  "dual_limiter_default =
     dual_limiter_new \<lparr>tokens_per_second = 5, max_burst = 10\<rparr> \<lparr>tokens_per_second = 10, max_burst = 20\<rparr>"

definition dual_check_ip :: "rounding \<Rightarrow> int \<Rightarrow> string \<Rightarrow> dual_limiter \<Rightarrow> bool \<times> dual_limiter" where
  "dual_check_ip fl now ip d =
     (let (ok, rl) = rl_check fl now ip (ip_limiter d) in (ok, d\<lparr>ip_limiter := rl\<rparr>))"

definition dual_check_user :: "rounding \<Rightarrow> int \<Rightarrow> string \<Rightarrow> dual_limiter \<Rightarrow> bool \<times> dual_limiter" where
  "dual_check_user fl now u d =
     (let (ok, rl) = rl_check fl now u (user_limiter d) in (ok, d\<lparr>user_limiter := rl\<rparr>))"

definition dual_check :: "rounding \<Rightarrow> int \<Rightarrow> string \<Rightarrow> string \<Rightarrow> dual_limiter \<Rightarrow> bool \<times> dual_limiter" where
  "dual_check fl now ip username d =
     (if username \<noteq> [] then dual_check_user fl now username d else dual_check_ip fl now ip d)"

definition dual_remove_ip :: "string \<Rightarrow> dual_limiter \<Rightarrow> dual_limiter" where
  "dual_remove_ip ip d = d\<lparr>ip_limiter := rl_remove ip (ip_limiter d)\<rparr>"

definition dual_remove_user :: "string \<Rightarrow> dual_limiter \<Rightarrow> dual_limiter" where
  "dual_remove_user u d = d\<lparr>user_limiter := rl_remove u (user_limiter d)\<rparr>"

definition dual_cleanup :: "int \<Rightarrow> dual_limiter \<Rightarrow> dual_limiter" where
  "dual_cleanup now d =
     d\<lparr>ip_limiter := rl_cleanup now 300 (ip_limiter d), user_limiter := rl_cleanup now 300 (user_limiter d)\<rparr>"

text \<open>A sequence of requests with the same key.\<close>

fun run_checks :: "rounding \<Rightarrow> string \<Rightarrow> int list \<Rightarrow> rate_limiter \<Rightarrow> bool list \<times> rate_limiter" where
  "run_checks fl key [] rl = ([], rl)"
| "run_checks fl key (t # ts) rl =
     (let (ok, rl') = rl_check fl t key rl; (oks, rl'') = run_checks fl key ts rl' in (ok # oks, rl''))"

section \<open>The bucket invariant\<close>

definition bucket_ok :: "rounding \<Rightarrow> rl_config \<Rightarrow> bucket \<Rightarrow> bool" where
  "bucket_ok fl c b \<longleftrightarrow> 0 \<le> tokens b \<and> tokens b \<le> fl (real (max_burst c))"

definition limiter_ok :: "rounding \<Rightarrow> rate_limiter \<Rightarrow> bool" where
  "limiter_ok fl rl \<longleftrightarrow> (\<forall>k b. rl_buckets rl k = Some b \<longrightarrow> bucket_ok fl (rl_conf rl) b)"

lemma ieee_0: "ieee_rounding fl \<Longrightarrow> fl 0 = 0"
  unfolding ieee_rounding_def by (metis abs_zero of_int_0 zero_le_numeral zero_le_power)

lemma ieee_nonneg: "ieee_rounding fl \<Longrightarrow> 0 \<le> x \<Longrightarrow> 0 \<le> fl x"
  using ieee_0 [of fl] by (metis ieee_rounding_def monoD)

lemma ieee_le_fl: "ieee_rounding fl \<Longrightarrow> x \<le> fl y \<Longrightarrow> fl x \<le> fl y"
  by (metis ieee_rounding_def monoD)

lemma ieee_nat: "ieee_rounding fl \<Longrightarrow> n \<le> 2 ^ 53 \<Longrightarrow> fl (real n) = real n"
proof -
  assume "ieee_rounding fl" "n \<le> 2 ^ 53"
  moreover from this have "\<bar>int n\<bar> \<le> 2 ^ 53"
    by (metis abs_of_nat of_nat_le_iff of_nat_numeral of_nat_power)
  ultimately show ?thesis unfolding ieee_rounding_def by (metis of_int_of_nat_eq)
qed

lemma bucket_ok_init: "ieee_rounding fl \<Longrightarrow> bucket_ok fl c b \<Longrightarrow> bucket_ok fl c (bucket_init fl c now b)"
  by (simp add: bucket_ok_def bucket_init_def ieee_nonneg)

lemma bucket_ok_refill:
  assumes fl: "ieee_rounding fl" and b: "bucket_ok fl c b"
  shows "bucket_ok fl c (bucket_refill fl c now b)"
proof (cases "duration_cast ns_per_ms (now - last_update b) > 0")
  case True
  let ?e = "duration_cast ns_per_ms (now - last_update b)"
  have "0 \<le> fl (fl (fl (real_of_int ?e) / 1000) * fl (real (tokens_per_second c)))"
    using True by (intro ieee_nonneg [OF fl] mult_nonneg_nonneg divide_nonneg_pos) auto
  then have "0 \<le> fl (tokens b + fl (fl (fl (real_of_int ?e) / 1000) * fl (real (tokens_per_second c))))"
    using b by (intro ieee_nonneg [OF fl]) (auto simp: bucket_ok_def)
  with True fl show ?thesis
    by (simp add: bucket_refill_def bucket_ok_def Let_def ieee_nonneg)
qed (use b in \<open>simp add: bucket_refill_def Let_def\<close>)

lemma bucket_ok_take: "ieee_rounding fl \<Longrightarrow> bucket_ok fl c b \<Longrightarrow> bucket_ok fl c (snd (bucket_take fl b))"
  by (auto simp: bucket_take_def bucket_ok_def ieee_nonneg intro: ieee_le_fl)

lemma bucket_ok_new: "ieee_rounding fl \<Longrightarrow> bucket_ok fl c new_bucket"
  by (simp add: bucket_ok_def new_bucket_def ieee_nonneg)

lemmas bucket_ok_steps = bucket_ok_init bucket_ok_refill bucket_ok_take bucket_ok_new

lemma limiter_ok_check:
  assumes "ieee_rounding fl" and "limiter_ok fl rl"
  shows "limiter_ok fl (snd (rl_check fl now key rl))"
proof -
  have "bucket_ok fl (rl_conf rl) (case rl_buckets rl key of Some b \<Rightarrow> b | None \<Rightarrow> new_bucket)"
    using assms by (auto simp: limiter_ok_def bucket_ok_new split: option.split)
  with assms show ?thesis
    by (auto simp: limiter_ok_def rl_check_def Let_def split: prod.splits if_splits
        dest: bucket_ok_take [OF assms(1) bucket_ok_refill [OF assms(1) bucket_ok_init [OF assms(1)]]])
       (metis assms(1) bucket_ok_init bucket_ok_refill bucket_ok_take snd_conv)
qed

lemma limiter_ok_remove: "limiter_ok fl rl \<Longrightarrow> limiter_ok fl (rl_remove k rl)"
  by (simp add: limiter_ok_def rl_remove_def)

lemma limiter_ok_cleanup: "limiter_ok fl rl \<Longrightarrow> limiter_ok fl (rl_cleanup now a rl)"
  by (auto simp: limiter_ok_def rl_cleanup_def split: option.splits if_splits)

section \<open>Bursts\<close>

lemma rl_check_same_time:
  assumes fl: "ieee_rounding fl" and m: "m \<le> 2 ^ 53" and now: "0 < now"
    and b: "rl_buckets rl key = Some \<lparr>tokens = real m, last_update = now\<rparr>"
  shows "rl_check fl now key rl =
    (0 < m, rl\<lparr>rl_buckets := (rl_buckets rl)(key \<mapsto> \<lparr>tokens = real (m - 1), last_update = now\<rparr>)\<rparr>)"
proof -
  have "fl (real m - 1) = real (m - 1)" if "0 < m"
    using ieee_nat [OF fl, of "m - 1"] m that by (simp add: of_nat_diff)
  with now b show ?thesis
    by (cases m) (auto simp: rl_check_def bucket_init_def bucket_refill_def bucket_take_def
        duration_cast_def Let_def)
qed

lemma run_checks_same_time:
  assumes "ieee_rounding fl" and "m \<le> 2 ^ 53" and "0 < now"
    and "rl_buckets rl key = Some \<lparr>tokens = real m, last_update = now\<rparr>"
  shows "fst (run_checks fl key (replicate n now) rl) = map (\<lambda>i. i < m) [0..<n]"
  using assms
proof (induction n arbitrary: m rl)
  case (Suc n)
  let ?rl = "rl\<lparr>rl_buckets := (rl_buckets rl)(key \<mapsto> \<lparr>tokens = real (m - 1), last_update = now\<rparr>)\<rparr>"
  have "fst (run_checks fl key (replicate n now) ?rl) = map (\<lambda>i. i < m - 1) [0..<n]"
    using Suc.prems by (intro Suc.IH) auto
  moreover have "map (\<lambda>i. i < m) [0..<Suc n] = (0 < m) # map (\<lambda>i. i < m - 1) [0..<n]"
    by (simp add: upt_conv_Cons map_Suc_upt [symmetric] comp_def less_diff_conv del: upt_Suc)
  ultimately show ?case
    by (simp add: rl_check_same_time [OF Suc.prems] split_beta)
qed simp

lemma rl_check_fresh:
  assumes fl: "ieee_rounding fl" and c: "max_burst (rl_conf rl) \<le> 2 ^ 53" and now: "0 < now"
    and b: "rl_buckets rl key = None"
  shows "rl_check fl now key rl =
    rl_check fl now key (rl\<lparr>rl_buckets := (rl_buckets rl)(key \<mapsto>
      \<lparr>tokens = real (max_burst (rl_conf rl)), last_update = now\<rparr>)\<rparr>)"
  using assms
  by (simp add: rl_check_def bucket_init_def new_bucket_def ieee_nat)

lemma run_checks_fresh:
  assumes "ieee_rounding fl" and "max_burst (rl_conf rl) \<le> 2 ^ 53" and "0 < now"
    and "rl_buckets rl key = None"
  shows "fst (run_checks fl key (replicate n now) rl) = map (\<lambda>i. i < max_burst (rl_conf rl)) [0..<n]"
proof (cases n)
  case (Suc k)
  let ?rl = "rl\<lparr>rl_buckets := (rl_buckets rl)(key \<mapsto>
      \<lparr>tokens = real (max_burst (rl_conf rl)), last_update = now\<rparr>)\<rparr>"
  have "run_checks fl key (replicate n now) rl = run_checks fl key (replicate n now) ?rl"
    by (simp add: Suc rl_check_fresh [OF assms])
  with run_checks_same_time [OF assms(1,2,3), of ?rl] show ?thesis by simp
qed simp

section \<open>Long-run rate (exact arithmetic)\<close>

definition exact :: rounding where "exact x = x"

definition budget :: "rl_config \<Rightarrow> int \<Rightarrow> real" where
  "budget c d = real (tokens_per_second c) * real_of_int d / 10 ^ 9"

lemma budget_add: "budget c (a + b) = budget c a + budget c b"
  by (simp add: budget_def distrib_left add_divide_distrib)

lemma budget_0 [simp]: "budget c 0 = 0"
  by (simp add: budget_def)

lemma budget_mono: "a \<le> b \<Longrightarrow> budget c a \<le> budget c b"
  by (simp add: budget_def divide_right_mono mult_left_mono)

lemma bucket_refill_budget:
  assumes "last_update b \<le> now"
  shows "tokens (bucket_refill exact c now b)
      \<le> tokens b + budget c (last_update (bucket_refill exact c now b) - last_update b)"
    and "last_update b \<le> last_update (bucket_refill exact c now b)"
    and "last_update (bucket_refill exact c now b) \<le> now"
proof -
  let ?d = "now - last_update b"
  have "real_of_int (?d div ns_per_ms) * 10 ^ 6 \<le> real_of_int ?d"
    using real_of_int_div4 [of ?d ns_per_ms] by (simp add: ns_per_ms_def field_simps)
  then have "real_of_int (?d div ns_per_ms) / 1000 \<le> real_of_int ?d / 10 ^ 9"
    by (simp add: field_simps)
  then have "real_of_int (?d div ns_per_ms) / 1000 * real (tokens_per_second c) \<le> budget c ?d"
    using mult_left_mono [of "real_of_int (?d div ns_per_ms) / 1000" "real_of_int ?d / 10 ^ 9"
        "real (tokens_per_second c)"] by (simp add: budget_def mult.commute)
  moreover have "duration_cast ns_per_ms ?d = ?d div ns_per_ms"
    using assms by (auto simp: duration_cast_def sgn_if)
  ultimately show "tokens (bucket_refill exact c now b)
      \<le> tokens b + budget c (last_update (bucket_refill exact c now b) - last_update b)"
    by (simp add: bucket_refill_def Let_def min.coboundedI2 exact_def)
qed (use assms in \<open>simp_all add: bucket_refill_def Let_def\<close>)

lemma limiter_tokens_nonneg:
  assumes "0 \<le> tokens b"
  shows "0 \<le> tokens (snd (bucket_take exact (bucket_refill exact c now b)))"
proof -
  have "0 \<le> tokens (bucket_refill exact c now b)"
    using assms by (simp add: bucket_refill_def Let_def exact_def)
  then show ?thesis by (simp add: bucket_take_def exact_def)
qed

lemma rl_check_budget:
  assumes b: "rl_buckets rl key = Some b" and t: "0 < last_update b" "last_update b \<le> now"
  obtains b' ok where "rl_check exact now key rl = (ok, rl\<lparr>rl_buckets := (rl_buckets rl)(key \<mapsto> b')\<rparr>)"
    and "of_bool ok + tokens b' \<le> tokens b + budget (rl_conf rl) (last_update b' - last_update b)"
    and "last_update b \<le> last_update b'" and "last_update b' \<le> now"
    and "0 \<le> tokens b \<Longrightarrow> 0 \<le> tokens b'"
proof -
  let ?r = "bucket_refill exact (rl_conf rl) now b"
  let ?ok = "tokens ?r \<ge> 1"
  let ?b' = "if ?ok then ?r\<lparr>tokens := tokens ?r - 1\<rparr> else ?r"
  have "rl_check exact now key rl = (?ok, rl\<lparr>rl_buckets := (rl_buckets rl)(key \<mapsto> ?b')\<rparr>)"
    using b t by (simp add: rl_check_def bucket_init_def bucket_take_def Let_def exact_def)
  moreover have "of_bool ?ok + tokens ?b' = tokens ?r" by simp
  moreover have "last_update ?b' = last_update ?r" by simp
  moreover have "0 \<le> tokens ?b'" if "0 \<le> tokens b"
    using limiter_tokens_nonneg [OF that, of "rl_conf rl" now]
    by (auto simp: bucket_take_def split: if_splits)
  ultimately show thesis
    using that bucket_refill_budget [OF t(2), of "rl_conf rl"] by metis
qed

lemma tokens_after_run:
  assumes "rl_buckets rl key = Some b" and "0 < last_update b" and "sorted (last_update b # ts)"
    and "0 \<le> tokens b"
  shows "real (length (filter (\<lambda>ok. ok) (fst (run_checks exact key ts rl))))
    \<le> tokens b + budget (rl_conf rl) (last (last_update b # ts) - last_update b)"
  using assms
proof (induction ts arbitrary: rl b)
  case Nil
  then show ?case by (simp add: budget_def)
next
  case (Cons t ts)
  have le: "last_update b \<le> t" using Cons.prems(3) by simp
  obtain b' ok where chk: "rl_check exact t key rl = (ok, rl\<lparr>rl_buckets := (rl_buckets rl)(key \<mapsto> b')\<rparr>)"
    and tok: "of_bool ok + tokens b' \<le> tokens b + budget (rl_conf rl) (last_update b' - last_update b)"
    and lu: "last_update b \<le> last_update b'" "last_update b' \<le> t" and nonneg: "0 \<le> tokens b'"
    using rl_check_budget [OF Cons.prems(1,2) le] Cons.prems(4) by metis
  let ?rl = "rl\<lparr>rl_buckets := (rl_buckets rl)(key \<mapsto> b')\<rparr>"
  have "sorted (last_update b' # ts)" using Cons.prems(3) lu(2) by auto
  then have "real (length (filter (\<lambda>ok. ok) (fst (run_checks exact key ts ?rl))))
      \<le> tokens b' + budget (rl_conf rl) (last (last_update b' # ts) - last_update b')"
    using Cons.IH [of ?rl b'] Cons.prems(2) lu(1) nonneg by simp
  moreover have "last (last_update b' # ts) \<le> last (t # ts)" using lu(2) by simp
  then have "budget (rl_conf rl) (last (last_update b' # ts) - last_update b')
      \<le> budget (rl_conf rl) (last (t # ts) - last_update b')"
    by (intro budget_mono) simp
  moreover have "budget (rl_conf rl) (last (t # ts) - last_update b)
      = budget (rl_conf rl) (last_update b' - last_update b)
        + budget (rl_conf rl) (last (t # ts) - last_update b')"
    by (simp flip: budget_add)
  moreover have "real (length (filter (\<lambda>ok. ok) (fst (run_checks exact key (t # ts) rl))))
      = of_bool ok + real (length (filter (\<lambda>ok. ok) (fst (run_checks exact key ts ?rl))))"
    by (simp add: chk split_beta)
  ultimately have "real (length (filter (\<lambda>ok. ok) (fst (run_checks exact key (t # ts) rl))))
      \<le> tokens b + budget (rl_conf rl) (last (t # ts) - last_update b)"
    using tok by linarith
  then show ?case by (simp only: last_ConsR list.distinct not_False_eq_True)
qed

section \<open>Properties\<close>

text \<open>whatever the rounding, a check keeps every bucket's token count between zero and
  the configured burst, for every key.\<close>

theorem rl_check_tokens_bounded:
  assumes "ieee_rounding fl" and "limiter_ok fl rl"
  shows "limiter_ok fl (snd (rl_check fl now key rl))"
  using assms by (rule limiter_ok_check)

lemma ieee_exact: "ieee_rounding exact"
  by (simp add: ieee_rounding_def mono_def exact_def)

theorem rl_check_tokens_bounded_witness:
  "limiter_ok exact (snd (rl_check exact 5 ''k'' (rate_limiter_new \<lparr>tokens_per_second = 5, max_burst = 10\<rparr>)))"
proof -
  have "limiter_ok exact (rate_limiter_new \<lparr>tokens_per_second = 5, max_burst = 10\<rparr>)"
    by (simp add: limiter_ok_def rate_limiter_new_def)
  from rl_check_tokens_bounded [OF ieee_exact this] show ?thesis .
qed

text \<open>of any number of requests at one instant from a key not seen before, exactly the
  first \<open>max_burst\<close> are allowed.\<close>

theorem rl_burst:
  assumes "ieee_rounding fl" and "max_burst (rl_conf rl) \<le> 2 ^ 53" and "0 < now"
    and "rl_buckets rl key = None"
  shows "fst (run_checks fl key (replicate n now) rl) = map (\<lambda>i. i < max_burst (rl_conf rl)) [0..<n]"
  using assms by (rule run_checks_fresh)

theorem rl_burst_witness:
  "fst (run_checks exact ''k'' (replicate 3 7)
     (rate_limiter_new \<lparr>tokens_per_second = 1, max_burst = 2\<rparr>)) = [True, True, False]"
  using rl_burst [OF ieee_exact, of "rate_limiter_new \<lparr>tokens_per_second = 1, max_burst = 2\<rparr>" 7 "''k''" 3]
  by (simp add: rate_limiter_new_def upt_rec)


definition sample_limiter :: rate_limiter where
  "sample_limiter = (rate_limiter_new \<lparr>tokens_per_second = 2, max_burst = 4\<rparr>)
     \<lparr>rl_buckets := [''k'' \<mapsto> \<lparr>tokens = 1, last_update = 1000000000\<rparr>]\<rparr>"


end
