(* ===== verification/Session_Manager.thy ===== *)
theory Session_Manager
  imports Rate_Limiter
begin

text \<open>
  \<^verbatim>\<open>server/session/session.hpp\<close> and \<^verbatim>\<open>session_manager.{hpp,cpp}\<close>: sessions by connection
  id, the username index, login with stale-session takeover, removal and the idle
  sweep. The two hash maps the program iterates over are association lists. The
  invariant \<open>sm_inv\<close> says that the index and the sessions agree; every operation
  keeps it.
\<close>

record session =
  se_connection_id :: u64
  se_user_id :: u64
  se_username :: string
  se_remote_ip :: string
  se_rooms :: "string list"
  se_connected_at :: int
  se_last_activity :: int

definition session_default :: session where
  "session_default = \<lparr>se_connection_id = 0, se_user_id = 0, se_username = [], se_remote_ip = [],
     se_rooms = [], se_connected_at = 0, se_last_activity = 0\<rparr>"

definition session_is_authenticated :: "session \<Rightarrow> bool" where
  "session_is_authenticated s \<longleftrightarrow> se_user_id s \<noteq> 0"

definition session_touch :: "int \<Rightarrow> session \<Rightarrow> session" where
  "session_touch now s = s\<lparr>se_last_activity := now\<rparr>"

record session_manager =
  sm_sessions :: "(u64 \<times> session) list"
  sm_username_index :: "(string \<times> u64) list"
  sm_rate_limiter :: dual_limiter

definition session_manager_new :: "dual_limiter \<Rightarrow> session_manager" where
  "session_manager_new rl = \<lparr>sm_sessions = [], sm_username_index = [], sm_rate_limiter = rl\<rparr>"

definition sm_create :: "int \<Rightarrow> u64 \<Rightarrow> string \<Rightarrow> session_manager \<Rightarrow> session_manager" where
  "sm_create now conn_id remote_ip m =
     (let s = (case map_of (sm_sessions m) conn_id of Some s \<Rightarrow> s | None \<Rightarrow> session_default);
          s' = s\<lparr>se_connection_id := conn_id, se_remote_ip := remote_ip, se_connected_at := now,
                 se_last_activity := now\<rparr>
      in m\<lparr>sm_sessions := AList.update conn_id s' (sm_sessions m)\<rparr>)"

definition sm_get :: "u64 \<Rightarrow> session_manager \<Rightarrow> session option" where
  "sm_get conn_id m = map_of (sm_sessions m) conn_id"

definition sm_get_by_username :: "string \<Rightarrow> session_manager \<Rightarrow> session option" where
  "sm_get_by_username username m =
     (case map_of (sm_username_index m) username of
        None \<Rightarrow> None | Some c \<Rightarrow> map_of (sm_sessions m) c)"

text \<open>Writing through the pointer that \<^verbatim>\<open>get\<close> returns; nothing happens on a null pointer.\<close>

definition sm_update :: "u64 \<Rightarrow> (session \<Rightarrow> session) \<Rightarrow> session_manager \<Rightarrow> session_manager" where
  "sm_update conn_id f m =
     (case map_of (sm_sessions m) conn_id of
        None \<Rightarrow> m | Some s \<Rightarrow> m\<lparr>sm_sessions := AList.update conn_id (f s) (sm_sessions m)\<rparr>)"

definition sm_evict_stale :: "string \<Rightarrow> u64 \<Rightarrow> session \<Rightarrow> session_manager \<Rightarrow> session_manager" where
  "sm_evict_stale username old old_session m =
     m\<lparr>sm_rate_limiter := dual_remove_ip (se_remote_ip old_session)
          (dual_remove_user username (sm_rate_limiter m)),
       sm_sessions := AList.delete old (sm_sessions m),
       sm_username_index := AList.delete username (sm_username_index m)\<rparr>"

definition sm_bind :: "int \<Rightarrow> u64 \<Rightarrow> u64 \<Rightarrow> string \<Rightarrow> session \<Rightarrow> session_manager \<Rightarrow> session_manager" where
  "sm_bind now conn_id user_id username s m =
     m\<lparr>sm_sessions := AList.update conn_id
          (session_touch now (s\<lparr>se_user_id := user_id, se_username := username\<rparr>)) (sm_sessions m),
       sm_username_index := AList.update username conn_id (sm_username_index m)\<rparr>"

definition sm_authenticate ::
  "int \<Rightarrow> u64 \<Rightarrow> u64 \<Rightarrow> string \<Rightarrow> session_manager \<Rightarrow> bool \<times> session_manager" where
  "sm_authenticate now conn_id user_id username m =
     (case map_of (sm_sessions m) conn_id of
        None \<Rightarrow> (False, m)
      | Some s \<Rightarrow>
          (case map_of (sm_username_index m) username of
             Some existing \<Rightarrow>
               if existing \<noteq> conn_id then
                 (case map_of (sm_sessions m) existing of
                    Some old \<Rightarrow>
                      if duration_cast ns_per_s (now - se_last_activity old) > 30
                      then (True, sm_bind now conn_id user_id username s
                                    (sm_evict_stale username existing old m))
                      else (False, m)
                  | None \<Rightarrow>
                      (True, sm_bind now conn_id user_id username s
                         (m\<lparr>sm_username_index := AList.delete username (sm_username_index m)\<rparr>)))
               else (True, sm_bind now conn_id user_id username s m)
           | None \<Rightarrow> (True, sm_bind now conn_id user_id username s m)))"

definition sm_drop :: "u64 \<Rightarrow> session \<Rightarrow> session_manager \<Rightarrow> session_manager" where
  "sm_drop conn_id s m =
     (let m1 = (if se_username s \<noteq> [] then
                  m\<lparr>sm_username_index := AList.delete (se_username s) (sm_username_index m),
                    sm_rate_limiter := dual_remove_user (se_username s) (sm_rate_limiter m)\<rparr>
                else m)
      in m1\<lparr>sm_rate_limiter := dual_remove_ip (se_remote_ip s) (sm_rate_limiter m1),
            sm_sessions := AList.delete conn_id (sm_sessions m1)\<rparr>)"

definition sm_remove :: "u64 \<Rightarrow> session_manager \<Rightarrow> session_manager" where
  "sm_remove conn_id m =
     (case map_of (sm_sessions m) conn_id of Some s \<Rightarrow> sm_drop conn_id s m | None \<Rightarrow> m)"

definition sm_check_rate_limit ::
  "rounding \<Rightarrow> int \<Rightarrow> u64 \<Rightarrow> session_manager \<Rightarrow> bool \<times> session_manager" where
  "sm_check_rate_limit fl now conn_id m =
     (case map_of (sm_sessions m) conn_id of
        None \<Rightarrow> (False, m)
      | Some s \<Rightarrow>
          let (ok, rl) = dual_check fl now (se_remote_ip s) (se_username s) (sm_rate_limiter m)
          in (ok, m\<lparr>sm_rate_limiter := rl\<rparr>))"

definition sm_for_each_authenticated :: "(session \<Rightarrow> 'a) \<Rightarrow> session_manager \<Rightarrow> 'a list" where
  "sm_for_each_authenticated fn m =
     map fn (filter session_is_authenticated (map snd (sm_sessions m)))"

definition sm_get_online_users :: "session_manager \<Rightarrow> string list" where
  "sm_get_online_users m = map fst (sm_username_index m)"

definition sm_count :: "session_manager \<Rightarrow> nat" where
  "sm_count m = length (sm_sessions m)"

definition sm_authenticated_count :: "session_manager \<Rightarrow> nat" where
  "sm_authenticated_count m = length (filter (\<lambda>(i, s). session_is_authenticated s) (sm_sessions m))"

definition sm_sweep_one :: "int \<Rightarrow> int \<Rightarrow> u64 \<times> session \<Rightarrow> session_manager \<Rightarrow> session_manager" where
  "sm_sweep_one now timeout = (\<lambda>(i, s) m.
     if duration_cast ns_per_s (now - se_last_activity s) > timeout then sm_drop i s m else m)"

definition sm_cleanup_inactive :: "int \<Rightarrow> int \<Rightarrow> session_manager \<Rightarrow> session_manager" where
  "sm_cleanup_inactive now timeout m = fold (sm_sweep_one now timeout) (sm_sessions m) m"

section \<open>The invariant\<close>

declare map_of_eq_Some_iff [simp del]

definition sm_inv :: "session_manager \<Rightarrow> bool" where
  "sm_inv m \<longleftrightarrow>
     distinct (map fst (sm_sessions m)) \<and> distinct (map fst (sm_username_index m)) \<and>
     (\<forall>u c. map_of (sm_username_index m) u = Some c \<longrightarrow>
        u \<noteq> [] \<and> (\<exists>s. map_of (sm_sessions m) c = Some s \<and> se_username s = u)) \<and>
     (\<forall>c s. map_of (sm_sessions m) c = Some s \<longrightarrow> se_username s \<noteq> [] \<longrightarrow>
        map_of (sm_username_index m) (se_username s) = Some c)"

lemma sm_invI:
  assumes "distinct (map fst (sm_sessions m))" and "distinct (map fst (sm_username_index m))"
    and "\<And>u c. map_of (sm_username_index m) u = Some c \<Longrightarrow>
        u \<noteq> [] \<and> (\<exists>s. map_of (sm_sessions m) c = Some s \<and> se_username s = u)"
    and "\<And>c s. map_of (sm_sessions m) c = Some s \<Longrightarrow> se_username s \<noteq> [] \<Longrightarrow>
        map_of (sm_username_index m) (se_username s) = Some c"
  shows "sm_inv m"
  unfolding sm_inv_def using assms by blast

lemma sm_inv_cong:
  "sm_sessions m = sm_sessions m' \<Longrightarrow> sm_username_index m = sm_username_index m' \<Longrightarrow> sm_inv m = sm_inv m'"
  by (simp only: sm_inv_def)

lemma sm_inv_index:
  "sm_inv m \<Longrightarrow> map_of (sm_username_index m) u = Some c \<Longrightarrow>
   u \<noteq> [] \<and> (\<exists>s. map_of (sm_sessions m) c = Some s \<and> se_username s = u)"
  unfolding sm_inv_def by blast

lemma sm_inv_session:
  "sm_inv m \<Longrightarrow> map_of (sm_sessions m) c = Some s \<Longrightarrow> se_username s \<noteq> [] \<Longrightarrow>
   map_of (sm_username_index m) (se_username s) = Some c"
  unfolding sm_inv_def by blast

lemma sm_inv_distinct:
  "sm_inv m \<Longrightarrow> distinct (map fst (sm_sessions m))"
  "sm_inv m \<Longrightarrow> distinct (map fst (sm_username_index m))"
  by (simp_all add: sm_inv_def)

lemmas alist_conv = update_conv' delete_conv' distinct_update distinct_delete

lemma sm_inv_new: "sm_inv (session_manager_new rl)"
  by (simp add: sm_inv_def session_manager_new_def)

lemma sm_inv_rate: "sm_inv (m\<lparr>sm_rate_limiter := rl\<rparr>) = sm_inv m"
  by (simp add: sm_inv_def)

text \<open>Changing a session without touching its name keeps the invariant.\<close>

lemma sm_inv_same_name:
  assumes "sm_inv m"
    and "se_username s' = (case map_of (sm_sessions m) c of Some s \<Rightarrow> se_username s | None \<Rightarrow> [])"
  shows "sm_inv (m\<lparr>sm_sessions := AList.update c s' (sm_sessions m)\<rparr>)"
proof (rule sm_invI)
  fix u c'
  assume "map_of (sm_username_index (m\<lparr>sm_sessions := AList.update c s' (sm_sessions m)\<rparr>)) u = Some c'"
  with sm_inv_index [OF assms(1), of u c'] assms(2)
  show "u \<noteq> [] \<and> (\<exists>s. map_of (sm_sessions (m\<lparr>sm_sessions := AList.update c s' (sm_sessions m)\<rparr>)) c' = Some s
      \<and> se_username s = u)"
    by (auto simp: alist_conv)
qed (use assms sm_inv_distinct [OF assms(1)] in
    \<open>auto simp: alist_conv sm_inv_session split: option.splits if_splits\<close>)

lemma sm_inv_create: "sm_inv m \<Longrightarrow> sm_inv (sm_create now c ip m)"
  by (auto simp: sm_create_def Let_def session_default_def intro!: sm_inv_same_name split: option.split)

lemma sm_inv_touch: "sm_inv m \<Longrightarrow> sm_inv (sm_update c (session_touch now) m)"
  by (auto simp: sm_update_def session_touch_def intro!: sm_inv_same_name split: option.split)

lemma sm_inv_drop:
  assumes "sm_inv m" and "map_of (sm_sessions m) c = Some s"
  shows "sm_inv (sm_drop c s m)"
proof (rule sm_invI)
  fix u c'
  assume "map_of (sm_username_index (sm_drop c s m)) u = Some c'"
  then have u: "map_of (sm_username_index m) u = Some c'" "u \<noteq> se_username s \<or> se_username s = []"
    by (auto simp: sm_drop_def Let_def alist_conv split: if_splits)
  from sm_inv_index [OF assms(1) u(1)] obtain s' where
    "u \<noteq> []" "map_of (sm_sessions m) c' = Some s'" "se_username s' = u" by blast
  with u(2) assms(2) show "u \<noteq> [] \<and> (\<exists>s'. map_of (sm_sessions (sm_drop c s m)) c' = Some s' \<and> se_username s' = u)"
    by (auto simp: sm_drop_def Let_def alist_conv)
next
  fix c' s'
  assume "map_of (sm_sessions (sm_drop c s m)) c' = Some s'" and ne: "se_username s' \<noteq> []"
  then have c': "map_of (sm_sessions m) c' = Some s'" "c' \<noteq> c"
    by (auto simp: sm_drop_def Let_def alist_conv split: if_splits)
  then have "se_username s' \<noteq> se_username s"
    using sm_inv_session [OF assms(1) c'(1) ne] sm_inv_session [OF assms] ne by auto
  with sm_inv_session [OF assms(1) c'(1) ne]
  show "map_of (sm_username_index (sm_drop c s m)) (se_username s') = Some c'"
    by (auto simp: sm_drop_def Let_def alist_conv)
qed (use assms sm_inv_distinct [OF assms(1)] in \<open>auto simp: sm_drop_def Let_def alist_conv\<close>)

lemma sm_inv_remove: "sm_inv m \<Longrightarrow> sm_inv (sm_remove c m)"
  by (auto simp: sm_remove_def sm_inv_drop split: option.split)

lemma sm_inv_rate_check: "sm_inv m \<Longrightarrow> sm_inv (snd (sm_check_rate_limit fl now c m))"
  by (auto simp: sm_check_rate_limit_def sm_inv_rate split: option.split prod.split)

lemma sm_inv_bind:
  assumes inv: "sm_inv m" and s: "map_of (sm_sessions m) c = Some s" and u: "u \<noteq> []"
    and own: "se_username s = [] \<or> se_username s = u"
    and free: "map_of (sm_username_index m) u = None \<or> map_of (sm_username_index m) u = Some c"
  shows "sm_inv (sm_bind now c uid u s m)"
proof (rule sm_invI)
  fix v c'
  assume v: "map_of (sm_username_index (sm_bind now c uid u s m)) v = Some c'"
  show "v \<noteq> [] \<and> (\<exists>s'. map_of (sm_sessions (sm_bind now c uid u s m)) c' = Some s' \<and> se_username s' = v)"
  proof (cases "v = u")
    case True
    with v u show ?thesis by (simp add: sm_bind_def alist_conv session_touch_def)
  next
    case False
    with v have "map_of (sm_username_index m) v = Some c'" by (simp add: sm_bind_def alist_conv)
    from sm_inv_index [OF inv this] obtain s' where
      s': "v \<noteq> []" "map_of (sm_sessions m) c' = Some s'" "se_username s' = v" by blast
    with False own s have "c' \<noteq> c" by auto
    with s' show ?thesis by (simp add: sm_bind_def alist_conv)
  qed
next
  fix c' s'
  assume s': "map_of (sm_sessions (sm_bind now c uid u s m)) c' = Some s'" and ne: "se_username s' \<noteq> []"
  show "map_of (sm_username_index (sm_bind now c uid u s m)) (se_username s') = Some c'"
  proof (cases "c' = c")
    case True
    with s' show ?thesis by (auto simp: sm_bind_def alist_conv session_touch_def)
  next
    case False
    with s' have "map_of (sm_sessions m) c' = Some s'" by (simp add: sm_bind_def alist_conv)
    from sm_inv_session [OF inv this ne] free False show ?thesis
      by (auto simp: sm_bind_def alist_conv)
  qed
qed (use sm_inv_distinct [OF inv] in \<open>simp_all add: sm_bind_def alist_conv\<close>)

lemma sm_inv_evict:
  assumes "sm_inv m" and "map_of (sm_sessions m) old = Some os" and "se_username os = u" and "u \<noteq> []"
  shows "sm_inv (sm_evict_stale u old os m)"
proof -
  have "sm_sessions (sm_evict_stale u old os m) = sm_sessions (sm_drop old os m)"
    and "sm_username_index (sm_evict_stale u old os m) = sm_username_index (sm_drop old os m)"
    using assms(3,4) by (simp_all add: sm_evict_stale_def sm_drop_def Let_def)
  then show ?thesis using sm_inv_drop [OF assms(1,2)] sm_inv_cong by blast
qed

lemma sm_inv_authenticate:
  assumes inv: "sm_inv m" and u: "u \<noteq> []"
    and own: "\<And>s. map_of (sm_sessions m) c = Some s \<Longrightarrow> se_username s = [] \<or> se_username s = u"
  shows "sm_inv (snd (sm_authenticate now c uid u m))"
proof (cases "map_of (sm_sessions m) c")
  case None
  with inv show ?thesis by (simp add: sm_authenticate_def)
next
  case (Some s)
  note own = own [OF Some]
  show ?thesis
  proof (cases "map_of (sm_username_index m) u")
    case None
    with Some sm_inv_bind [OF inv Some u own] show ?thesis by (simp add: sm_authenticate_def)
  next
    case (Some old)
    from sm_inv_index [OF inv Some] obtain os where
      os: "map_of (sm_sessions m) old = Some os" "se_username os = u" by blast
    show ?thesis
    proof (cases "old = c")
      case True
      with Some \<open>map_of (sm_sessions m) c = Some s\<close> sm_inv_bind [OF inv \<open>map_of (sm_sessions m) c = Some s\<close> u own]
      show ?thesis by (simp add: sm_authenticate_def)
    next
      case False
      let ?m = "sm_evict_stale u old os m"
      have "map_of (sm_sessions ?m) c = Some s" "map_of (sm_username_index ?m) u = None"
        using False \<open>map_of (sm_sessions m) c = Some s\<close>
        by (simp_all add: sm_evict_stale_def alist_conv)
      then have "sm_inv (sm_bind now c uid u s ?m)"
        using sm_inv_bind [OF sm_inv_evict [OF inv os u] _ u own] by simp
      with False Some os \<open>map_of (sm_sessions m) c = Some s\<close> inv show ?thesis
        by (simp add: sm_authenticate_def)
    qed
  qed
qed


section \<open>The idle sweep\<close>

definition sm_idle :: "int \<Rightarrow> int \<Rightarrow> session \<Rightarrow> bool" where
  "sm_idle now timeout s \<longleftrightarrow> duration_cast ns_per_s (now - se_last_activity s) > timeout"

lemma sm_drop_get: "sm_get c (sm_drop i s m) = (if c = i then None else sm_get c m)"
  by (simp add: sm_get_def sm_drop_def Let_def alist_conv)

lemma sm_sweep_get:
  "sm_get c (sm_sweep_one now t (i, s) m) = (if sm_idle now t s \<and> c = i then None else sm_get c m)"
  by (auto simp: sm_sweep_one_def sm_idle_def sm_drop_get)

lemma sm_sweep_fold:
  assumes "sm_inv m" and "distinct (map fst xs)" and "\<And>i s. (i, s) \<in> set xs \<Longrightarrow> sm_get i m = Some s"
  shows "sm_inv (fold (sm_sweep_one now t) xs m)
    \<and> sm_get c (fold (sm_sweep_one now t) xs m)
        = (case map_of xs c of Some s \<Rightarrow> if sm_idle now t s then None else sm_get c m | None \<Rightarrow> sm_get c m)"
  using assms
proof (induction xs arbitrary: m)
  case Nil
  then show ?case by simp
next
  case (Cons x xs)
  obtain i s where x: "x = (i, s)" by (cases x)
  have "sm_inv (sm_sweep_one now t x m)"
    using Cons.prems(1) Cons.prems(3) [of i s] by (auto simp: x sm_sweep_one_def sm_get_def sm_inv_drop)
  moreover have "sm_get i' (sm_sweep_one now t x m) = Some s'" if "(i', s') \<in> set xs" for i' s'
  proof -
    have "i' \<noteq> i" using that Cons.prems(2) by (force simp: x)
    then show ?thesis using that Cons.prems(3) [of i' s'] by (simp add: x sm_sweep_get)
  qed
  moreover have "map_of xs i = None" using Cons.prems(2) by (simp add: x map_of_eq_None_iff)
  ultimately show ?case
    using Cons.IH [of "sm_sweep_one now t x m"] Cons.prems(2)
    by (auto simp: x sm_sweep_get split: option.split)
qed

lemma sm_cleanup_fold:
  assumes "sm_inv m"
  shows "sm_inv (sm_cleanup_inactive now t m)"
    and "sm_get c (sm_cleanup_inactive now t m)
      = (case sm_get c m of Some s \<Rightarrow> if sm_idle now t s then None else Some s | None \<Rightarrow> None)"
  using sm_sweep_fold [OF assms sm_inv_distinct(1) [OF assms], of now t c]
    sm_inv_distinct(1) [OF assms]
  by (auto simp: sm_cleanup_inactive_def sm_get_def split: option.split)

section \<open>Histories of the session table\<close>

text \<open>
  The calls the server makes: a login handler calls \<^verbatim>\<open>authenticate\<close> only on a connection
  whose session has no name yet (or has this name), with the non-empty name the
  authentication service returned.
\<close>

inductive sm_reach :: "session_manager \<Rightarrow> bool" where
  sm_reach_new: "sm_reach (session_manager_new rl)"
| sm_reach_create: "sm_reach m \<Longrightarrow> sm_reach (sm_create now c ip m)"
| sm_reach_touch: "sm_reach m \<Longrightarrow> sm_reach (sm_update c (session_touch now) m)"
| sm_reach_authenticate:
    "sm_reach m \<Longrightarrow> u \<noteq> [] \<Longrightarrow>
     (\<And>s. sm_get c m = Some s \<Longrightarrow> se_username s = [] \<or> se_username s = u) \<Longrightarrow>
     sm_reach (snd (sm_authenticate now c uid u m))"
| sm_reach_remove: "sm_reach m \<Longrightarrow> sm_reach (sm_remove c m)"
| sm_reach_check: "sm_reach m \<Longrightarrow> sm_reach (snd (sm_check_rate_limit fl now c m))"
| sm_reach_cleanup: "sm_reach m \<Longrightarrow> sm_reach (sm_cleanup_inactive now t m)"

lemma sm_reach_inv: "sm_reach m \<Longrightarrow> sm_inv m"
proof (induction rule: sm_reach.induct)
  case (sm_reach_authenticate m u c now uid)
  then show ?case by (intro sm_inv_authenticate) (auto simp: sm_get_def)
qed (simp_all add: sm_inv_new sm_inv_create sm_inv_touch sm_inv_remove sm_inv_rate_check sm_cleanup_fold)


definition sm_sample :: session_manager where
  "sm_sample = snd (sm_authenticate 5 7 1 ''ann''
     (sm_create 5 8 ''ip2'' (sm_create 0 7 ''ip1'' (session_manager_new dual_limiter_default))))"

lemma sm_sample_reach: "sm_reach sm_sample"
  unfolding sm_sample_def
  by (intro sm_reach_authenticate sm_reach_create sm_reach_new)
    (simp_all add: sm_get_def sm_create_def session_manager_new_def session_default_def)

lemma sm_sample_get: "sm_get 7 sm_sample = Some (session_default\<lparr>se_connection_id := 7, se_user_id := 1,
    se_username := ''ann'', se_remote_ip := ''ip1'', se_last_activity := 5\<rparr>)"
  by code_simp


text \<open>
  Login at the session table. It succeeds exactly when the connection has a
  session and the name is free, already this connection's, or held by a session that
  has been idle for more than 30 seconds; then the connection holds the name, the
  evicted holder is gone and every other session is as before. A refused login
  changes nothing.
\<close>

theorem sm_authenticate_takeover:
  assumes "sm_inv m"
  shows "(fst (sm_authenticate now c uid u m) \<longleftrightarrow>
      sm_get c m \<noteq> None \<and>
      (case map_of (sm_username_index m) u of
         None \<Rightarrow> True
       | Some h \<Rightarrow> h = c \<or> (\<exists>old. sm_get h m = Some old \<and> sm_idle now 30 old)))
    \<and> (\<not> fst (sm_authenticate now c uid u m) \<longrightarrow> snd (sm_authenticate now c uid u m) = m)
    \<and> (fst (sm_authenticate now c uid u m) \<longrightarrow>
      sm_get_by_username u (snd (sm_authenticate now c uid u m))
        = sm_get c (snd (sm_authenticate now c uid u m)) \<and>
      sm_get c' (snd (sm_authenticate now c uid u m)) =
        (if c' = c then map_option (\<lambda>s. s\<lparr>se_user_id := uid, se_username := u, se_last_activity := now\<rparr>) (sm_get c m)
         else if map_of (sm_username_index m) u = Some c' then None
         else sm_get c' m))"
proof (cases "map_of (sm_username_index m) u")
  case None
  then show ?thesis
    by (auto simp: sm_authenticate_def sm_get_def sm_get_by_username_def sm_bind_def alist_conv
        session_touch_def split: option.splits)
next
  case (Some h)
  with sm_inv_index [OF assms] obtain old where "map_of (sm_sessions m) h = Some old" by blast
  with Some show ?thesis
    by (auto simp: sm_authenticate_def sm_get_def sm_get_by_username_def sm_bind_def sm_evict_stale_def
        alist_conv session_touch_def sm_idle_def split: option.splits)
qed

theorem sm_authenticate_takeover_witness:
  "sm_get 7 (snd (sm_authenticate (40 * ns_per_s) 8 1 ''ann'' sm_sample)) = None
   \<and> sm_get 8 (snd (sm_authenticate (40 * ns_per_s) 8 1 ''ann'' sm_sample)) \<noteq> None"
proof -
  have ok: "fst (sm_authenticate (40 * ns_per_s) 8 1 ''ann'' sm_sample)"
    and idx: "map_of (sm_username_index sm_sample) ''ann'' = Some 7"
    and has: "\<not> Option.is_none (sm_get 8 sm_sample)"
    by code_simp+
  note T = sm_authenticate_takeover [OF sm_reach_inv [OF sm_sample_reach],
      of "40 * ns_per_s" 8 1 "''ann''"]
  from T [of 7] T [of 8] ok idx has show ?thesis by (auto simp: Option.is_none_def)
qed

text \<open>
  The idle sweep removes exactly the sessions idle for longer than the timeout,
  leaves the others as they are, and keeps index and sessions consistent.
\<close>

theorem sm_cleanup_inactive_exact:
  assumes "sm_inv m"
  shows "sm_inv (sm_cleanup_inactive now t m) \<and>
    sm_get c (sm_cleanup_inactive now t m)
      = (case sm_get c m of Some s \<Rightarrow> if sm_idle now t s then None else Some s | None \<Rightarrow> None)"
  using sm_cleanup_fold [OF assms] by blast

theorem sm_cleanup_inactive_exact_witness:
  "sm_get 7 (sm_cleanup_inactive (1000 * ns_per_s) 300 sm_sample) = None"
  using sm_cleanup_inactive_exact [OF sm_reach_inv [OF sm_sample_reach], of "1000 * ns_per_s" 300 7]
  by (simp add: sm_sample_get sm_idle_def session_default_def duration_cast_def ns_per_s_def)

end
