(* ===== verification/Storage.thy ===== *)
theory Storage
  imports Chat_Prelude
begin

text \<open>
  \<^verbatim>\<open>server/storage/storage_interface.hpp\<close>: the stored structures and \<^verbatim>\<open>IStorage\<close>. The
  interface is a record of its virtual methods over an abstract backend state;
  a method that reads the system clock takes the time (seconds) as its first
  argument, and \<^verbatim>\<open>init_schema\<close>, the only method that throws when the backend can be
  reached, is an \<open>act\<close>. The locale \<open>storage_contract\<close> is what the rest of the server relies on,
  stated over a view of the backend as finite maps: a method either reports failure
  and changes nothing, or performs its update. It is interpreted on the SQLite
  backend in \<open>Sqlite_Storage\<close> and on PostgreSQL in \<open>Postgres_Storage\<close>.
\<close>

record user =
  u_id :: u64
  u_username :: string
  u_password_hash :: string
  u_created_at :: i64
  u_last_login :: i64
  u_active :: bool

record stored_message =
  smsg_id :: u64
  smsg_message_id :: string
  smsg_sender_id :: u64
  smsg_room :: string
  smsg_content :: string
  smsg_created_at :: i64

record room =
  r_id :: u64
  r_name :: string
  r_description :: string
  r_created_at :: i64
  r_is_private :: bool

record room_key_envelope =
  e_id :: u64
  e_sender :: string
  e_room :: string
  e_epoch :: u64
  e_payload :: string

record 'st istorage =
  st_create_user :: "i64 \<Rightarrow> string \<Rightarrow> string \<Rightarrow> 'st \<Rightarrow> bool \<times> 'st"
  st_get_user :: "u64 \<Rightarrow> 'st \<Rightarrow> user option \<times> 'st"
  st_get_user_by_username :: "string \<Rightarrow> 'st \<Rightarrow> user option \<times> 'st"
  st_update_last_login :: "i64 \<Rightarrow> u64 \<Rightarrow> 'st \<Rightarrow> bool \<times> 'st"
  st_update_password :: "u64 \<Rightarrow> string \<Rightarrow> 'st \<Rightarrow> bool \<times> 'st"
  st_rename_user :: "u64 \<Rightarrow> string \<Rightarrow> 'st \<Rightarrow> bool \<times> 'st"
  st_create_room :: "i64 \<Rightarrow> string \<Rightarrow> string \<Rightarrow> 'st \<Rightarrow> bool \<times> 'st"
  st_get_room :: "string \<Rightarrow> 'st \<Rightarrow> room option \<times> 'st"
  st_list_rooms :: "'st \<Rightarrow> room list \<times> 'st"
  st_room_epoch :: "string \<Rightarrow> 'st \<Rightarrow> u64 \<times> 'st"
  st_bump_room_epoch :: "string \<Rightarrow> 'st \<Rightarrow> u64 \<times> 'st"
  st_store_message :: "stored_message \<Rightarrow> 'st \<Rightarrow> bool \<times> 'st"
  st_get_room_messages :: "string \<Rightarrow> u64 \<Rightarrow> u64 \<Rightarrow> 'st \<Rightarrow> stored_message list \<times> 'st"
  st_store_public_key :: "i64 \<Rightarrow> u64 \<Rightarrow> string \<Rightarrow> 'st \<Rightarrow> bool \<times> 'st"
  st_get_public_key :: "u64 \<Rightarrow> 'st \<Rightarrow> string option \<times> 'st"
  st_get_public_key_by_username :: "string \<Rightarrow> 'st \<Rightarrow> string option \<times> 'st"
  st_store_room_key_envelope :: "i64 \<Rightarrow> u64 \<Rightarrow> string \<Rightarrow> string \<Rightarrow> u64 \<Rightarrow> string \<Rightarrow> 'st \<Rightarrow> bool \<times> 'st"
  st_take_room_key_envelopes :: "u64 \<Rightarrow> 'st \<Rightarrow> room_key_envelope list \<times> 'st"
  st_is_healthy :: "'st \<Rightarrow> bool \<times> 'st"
  st_init_schema :: "i64 \<Rightarrow> ('st, unit) act"

text \<open>
  Both backends bind text parameters as C strings, which end at the first NUL byte.
\<close>

definition c_str :: "string \<Rightarrow> string" where
  "c_str s = takeWhile (\<lambda>c. c \<noteq> CHR 0x00) s"

lemma c_str_id: "CHR 0x00 \<notin> set s \<Longrightarrow> c_str s = s"
  unfolding c_str_def takeWhile_eq_all_conv by blast

lemma c_str_idem [simp]: "c_str (c_str s) = c_str s"
  unfolding c_str_def by (rule takeWhile_idem)

section \<open>What clients rely on\<close>

record storage_view =
  v_user :: "u64 \<Rightarrow> user option"
  v_epoch :: "string \<Rightarrow> u64 option"
  v_key :: "u64 \<Rightarrow> string option"
  v_queue :: "u64 \<Rightarrow> room_key_envelope list"

definition name_free :: "storage_view \<Rightarrow> string \<Rightarrow> bool" where
  "name_free v n \<longleftrightarrow> (\<forall>i x. v_user v i = Some x \<longrightarrow> u_username x \<noteq> n)"

locale storage_contract =
  fixes S :: "'st istorage" and view :: "'st \<Rightarrow> storage_view" and wf :: "'st \<Rightarrow> bool"
  assumes view_ids: "wf st \<Longrightarrow> v_user (view st) i = Some x \<Longrightarrow> u_id x = i \<and> i \<noteq> 0"
    and view_names: "wf st \<Longrightarrow> v_user (view st) i = Some x \<Longrightarrow> v_user (view st) k = Some y \<Longrightarrow>
      u_username x = u_username y \<Longrightarrow> i = k"
    and create_user: "wf st \<Longrightarrow> st_create_user S now u h st = (ok, st') \<Longrightarrow> wf st' \<and>
      (if ok then name_free (view st) (c_str u) \<and>
         (\<exists>i. v_user (view st) i = None \<and>
           view st' = (view st)\<lparr>v_user := (v_user (view st))(i \<mapsto>
             \<lparr>u_id = i, u_username = c_str u, u_password_hash = c_str h, u_created_at = now,
              u_last_login = 0, u_active = True\<rparr>)\<rparr>)
       else view st' = view st)"
    and get_user: "wf st \<Longrightarrow> st_get_user S i st = (r, st') \<Longrightarrow>
      wf st' \<and> view st' = view st \<and> (\<forall>x. r = Some x \<longrightarrow> v_user (view st) i = Some x)"
    and get_user_by_username: "wf st \<Longrightarrow> st_get_user_by_username S u st = (r, st') \<Longrightarrow>
      wf st' \<and> view st' = view st \<and>
      (\<forall>x. r = Some x \<longrightarrow> v_user (view st) (u_id x) = Some x \<and> u_username x = c_str u)"
    and update_last_login: "wf st \<Longrightarrow> st_update_last_login S now i st = (ok, st') \<Longrightarrow> wf st' \<and>
      (if ok then view st' = (view st)\<lparr>v_user := (v_user (view st))
           (i := map_option (\<lambda>x. x\<lparr>u_last_login := now\<rparr>) (v_user (view st) i))\<rparr>
       else view st' = view st)"
    and update_password: "wf st \<Longrightarrow> st_update_password S i h st = (ok, st') \<Longrightarrow> wf st' \<and>
      (if ok then view st' = (view st)\<lparr>v_user := (v_user (view st))
           (i := map_option (\<lambda>x. x\<lparr>u_password_hash := c_str h\<rparr>) (v_user (view st) i))\<rparr>
       else view st' = view st)"
    and rename_user: "wf st \<Longrightarrow> st_rename_user S i n st = (ok, st') \<Longrightarrow> wf st' \<and>
      (if ok then view st' = (view st)\<lparr>v_user := (v_user (view st))
           (i := map_option (\<lambda>x. x\<lparr>u_username := c_str n\<rparr>) (v_user (view st) i))\<rparr>
       else view st' = view st)"
    and room_epoch: "wf st \<Longrightarrow> st_room_epoch S rm st = (e, st') \<Longrightarrow>
      wf st' \<and> view st' = view st \<and> (e \<noteq> 0 \<longrightarrow> v_epoch (view st) (c_str rm) = Some e)"
    and bump_room_epoch: "wf st \<Longrightarrow> st_bump_room_epoch S rm st = (e, st') \<Longrightarrow> wf st' \<and>
      (e \<noteq> 0 \<longrightarrow> v_epoch (view st') (c_str rm) = Some e) \<and>
      (view st' = view st \<or>
       (\<exists>e0. v_epoch (view st) (c_str rm) = Some e0 \<and>
         view st' = (view st)\<lparr>v_epoch := (v_epoch (view st))(c_str rm \<mapsto> e0 + 1)\<rparr>))"
    and get_public_key: "wf st \<Longrightarrow> st_get_public_key S i st = (pk, st') \<Longrightarrow>
      wf st' \<and> view st' = view st \<and> (\<forall>z. pk = Some z \<longrightarrow> v_key (view st) i = Some z)"
    and store_public_key: "wf st \<Longrightarrow> st_store_public_key S now i key st = (ok, st') \<Longrightarrow> wf st' \<and>
      (if ok then v_user (view st) i \<noteq> None \<and>
          view st' = (view st)\<lparr>v_key := (v_key (view st))(i \<mapsto> c_str key)\<rparr>
       else view st' = view st)"
    and create_room_wf: "wf st \<Longrightarrow> wf (snd (st_create_room S now rm d st))"
    and get_room_wf: "wf st \<Longrightarrow> wf (snd (st_get_room S rm st)) \<and> view (snd (st_get_room S rm st)) = view st"
    and list_rooms_wf: "wf st \<Longrightarrow> wf (snd (st_list_rooms S st)) \<and> view (snd (st_list_rooms S st)) = view st"
    and store_message_wf: "wf st \<Longrightarrow>
      wf (snd (st_store_message S msg st)) \<and> view (snd (st_store_message S msg st)) = view st"
    and key_by_username_wf: "wf st \<Longrightarrow> wf (snd (st_get_public_key_by_username S u st)) \<and>
      view (snd (st_get_public_key_by_username S u st)) = view st"
    and store_envelope_wf: "wf st \<Longrightarrow> wf (snd (st_store_room_key_envelope S now i snd_name rm ep pl st))"
    and take_envelopes_wf: "wf st \<Longrightarrow> wf (snd (st_take_room_key_envelopes S i st))"
begin

text \<open>A user record found by name is unique, and it is what a lookup by id returns.\<close>

lemma found_by_name_unique:
  assumes "wf st" and "st_get_user_by_username S u st = (Some x, st')"
    and "v_user (view st) i = Some y" and "u_username y = c_str u"
  shows "y = x"
proof -
  from get_user_by_username [OF assms(1,2)] have x: "v_user (view st) (u_id x) = Some x" "u_username x = c_str u"
    by auto
  with view_names [OF assms(1) assms(3) x(1)] assms(4) have "i = u_id x" by simp
  with assms(3) x(1) show ?thesis by simp
qed

lemma created_user_found:
  assumes "wf st" and "st_create_user S now u h st = (True, st1)"
    and "st_get_user_by_username S u st1 = (Some x, st2)"
  shows "u_username x = c_str u \<and> u_password_hash x = c_str h \<and> u_active x \<and> u_id x \<noteq> 0"
proof -
  from create_user [OF assms(1,2)] obtain i where wf1: "wf st1"
    and v: "view st1 = (view st)\<lparr>v_user := (v_user (view st))(i \<mapsto>
             \<lparr>u_id = i, u_username = c_str u, u_password_hash = c_str h, u_created_at = now,
              u_last_login = 0, u_active = True\<rparr>)\<rparr>"
    by auto
  have i: "v_user (view st1) i = Some \<lparr>u_id = i, u_username = c_str u, u_password_hash = c_str h,
      u_created_at = now, u_last_login = 0, u_active = True\<rparr>"
    by (simp add: v)
  from found_by_name_unique [OF wf1 assms(3) i] view_ids [OF wf1 i] show ?thesis by auto
qed

lemma name_taken:
  assumes "wf st" and "v_user (view st) i = Some x" and "u_username x = c_str u"
    and "st_create_user S now u h st = (ok, st')"
  shows "\<not> ok \<and> view st' = view st"
  using create_user [OF assms(1,4)] assms(2,3) by (auto simp: name_free_def split: if_splits)

end

end
