(* ===== verification/Sqlite_Storage.thy ===== *)
theory Sqlite_Storage
  imports Storage
begin

text \<open>
  \<^verbatim>\<open>server/storage/sqlite_storage.{hpp,cpp}\<close>. A database is the list of its schema
  objects and, per table, the rows in insertion order with the AUTOINCREMENT
  sequence; the SQL text of each method is a function on those rows. The engine
  itself is a parameter that decides, for the n-th statement, whether preparing it
  succeeds and after how many rows stepping it fails (\<open>None\<close>: never). Constraint
  violations (UNIQUE, FOREIGN KEY) make a step fail as they do in SQLite.
\<close>

record room_row = room +
  rr_epoch :: i64

record envelope_row = room_key_envelope +
  er_recipient_id :: u64
  er_created_at :: i64

record key_row =
  k_user_id :: u64
  k_public_key :: string
  k_created_at :: i64
  k_updated_at :: i64

record sqlite_db =
  db_objects :: "string list"
  db_ticks :: nat
  db_users :: "user list"
  db_users_seq :: i64
  db_rooms :: "room_row list"
  db_rooms_seq :: i64
  db_messages :: "stored_message list"
  db_messages_seq :: i64
  db_keys :: "key_row list"
  db_envelopes :: "envelope_row list"
  db_envelopes_seq :: i64

record sql_engine =
  sql_prepare_ok :: "nat \<Rightarrow> bool"
  sql_step_error :: "nat \<Rightarrow> nat option"

section \<open>Statements\<close>

text \<open>Preparing fails on a missing table or column as well as on an engine error.\<close>

definition sq_prepare :: "sql_engine \<Rightarrow> string list \<Rightarrow> sqlite_db \<Rightarrow> nat option \<times> sqlite_db" where
  "sq_prepare E objs db =
     (if sql_prepare_ok E (db_ticks db) \<and> list_all (\<lambda>x. x \<in> set (db_objects db)) objs
      then Some (db_ticks db) else None,
      db\<lparr>db_ticks := Suc (db_ticks db)\<rparr>)"

definition sq_done :: "sql_engine \<Rightarrow> nat \<Rightarrow> bool" where
  "sq_done E t \<longleftrightarrow> sql_step_error E t = None"

definition sq_rows :: "sql_engine \<Rightarrow> nat \<Rightarrow> 'r list \<Rightarrow> 'r list" where
  "sq_rows E t rows = (case sql_step_error E t of None \<Rightarrow> rows | Some k \<Rightarrow> take k rows)"

definition sq_first :: "sql_engine \<Rightarrow> nat \<Rightarrow> 'r list \<Rightarrow> 'r option" where
  "sq_first E t rows = (case sq_rows E t rows of [] \<Rightarrow> None | r # _ \<Rightarrow> Some r)"

definition sql_max_int :: i64 where
  "sql_max_int = 0x7FFFFFFFFFFFFFFF"

text \<open>AUTOINCREMENT takes the successor of the largest id ever used, or fails when there is none.\<close>

definition sql_next_id :: "i64 \<Rightarrow> i64 option" where
  "sql_next_id seq = (if seq = sql_max_int then None else Some (seq + 1))"

text \<open>
  \<open>epoch + 1\<close> on the largest integer becomes a REAL, which
  \<^verbatim>\<open>sqlite3_column_int64\<close> reads back as the largest integer.
\<close>

definition sql_incr :: "i64 \<Rightarrow> i64" where
  "sql_incr e = (if e = sql_max_int then e else e + 1)"

definition sql_limit :: "int \<Rightarrow> 'r list \<Rightarrow> 'r list" where
  "sql_limit n xs = (if n < 0 then xs else take (nat n) xs)"

definition sql_order_by_id :: "('r \<Rightarrow> i64) \<Rightarrow> 'r list \<Rightarrow> 'r list" where
  "sql_order_by_id f = sort_key (\<lambda>r. sint (f r))"

definition sql_update_where :: "('r \<Rightarrow> bool) \<Rightarrow> ('r \<Rightarrow> 'r) \<Rightarrow> 'r list \<Rightarrow> 'r list" where
  "sql_update_where P f = map (\<lambda>r. if P r then f r else r)"

definition has_user_id :: "u64 \<Rightarrow> sqlite_db \<Rightarrow> bool" where
  "has_user_id i db \<longleftrightarrow> i \<in> u_id ` set (db_users db)"

section \<open>Schema\<close>

definition sqlite_exec :: "sql_engine \<Rightarrow> (sqlite_db \<Rightarrow> sqlite_db option) \<Rightarrow> (sqlite_db, unit) act" where
  "sqlite_exec E f = (\<lambda>db.
     case sq_prepare E [] db of
       (None, db) \<Rightarrow> (None, db)
     | (Some t, db) \<Rightarrow>
         if sq_done E t
         then (case f db of None \<Rightarrow> (None, db) | Some db' \<Rightarrow> (Some (), db'))
         else (None, db))"

definition sql_create_object :: "string \<Rightarrow> sqlite_db \<Rightarrow> sqlite_db option" where
  "sql_create_object n db = Some (db\<lparr>db_objects := uset_insert n (db_objects db)\<rparr>)"

definition sql_add_column :: "string \<Rightarrow> sqlite_db \<Rightarrow> sqlite_db option" where
  "sql_add_column n db =
     (if n \<in> set (db_objects db) then None else Some (db\<lparr>db_objects := db_objects db @ [n]\<rparr>))"

definition sql_insert_or_ignore_room ::
  "string \<Rightarrow> string \<Rightarrow> i64 \<Rightarrow> sqlite_db \<Rightarrow> sqlite_db option" where
  "sql_insert_or_ignore_room name description now db =
     (if name \<in> r_name ` set (db_rooms db) then Some db
      else case sql_next_id (db_rooms_seq db) of
        None \<Rightarrow> None
      | Some i \<Rightarrow> Some (db\<lparr>db_rooms := db_rooms db @
            [\<lparr>r_id = i, r_name = name, r_description = description, r_created_at = now,
              r_is_private = False, rr_epoch = 1\<rparr>], db_rooms_seq := i\<rparr>))"

definition sqlite_init_schema :: "sql_engine \<Rightarrow> i64 \<Rightarrow> (sqlite_db, unit) act" where
  "sqlite_init_schema E now =
     eseq (eeach (\<lambda>n. sqlite_exec E (sql_create_object n))
       [''users'', ''rooms'', ''messages'', ''idx_messages_room'', ''idx_users_username'', ''user_keys''])
     (eseq (ecatch (sqlite_exec E (sql_add_column ''rooms.epoch'')) (eret ()))
     (eseq (eeach (\<lambda>n. sqlite_exec E (sql_create_object n)) [''room_key_envelopes'', ''idx_rke_recipient''])
       (sqlite_exec E (sql_insert_or_ignore_room ''general'' ''General discussion'' now))))"

text \<open>The constructor's three PRAGMA statements; the file starts empty or holds an earlier database.\<close>

definition sqlite_open :: "sql_engine \<Rightarrow> (sqlite_db, unit) act" where
  "sqlite_open E = eeach (\<lambda>_. sqlite_exec E Some) [(), (), ()]"

definition sqlite_empty :: sqlite_db where
  "sqlite_empty = \<lparr>db_objects = [], db_ticks = 0, db_users = [], db_users_seq = 0, db_rooms = [],
     db_rooms_seq = 0, db_messages = [], db_messages_seq = 0, db_keys = [], db_envelopes = [],
     db_envelopes_seq = 0\<rparr>"

section \<open>Users\<close>

text \<open>\<^verbatim>\<open>last_login\<close> is NULL until the first login and read as 0.\<close>

definition sql_insert_user :: "string \<Rightarrow> string \<Rightarrow> i64 \<Rightarrow> sqlite_db \<Rightarrow> sqlite_db option" where
  "sql_insert_user name hash now db =
     (if name \<in> u_username ` set (db_users db) then None
      else case sql_next_id (db_users_seq db) of
        None \<Rightarrow> None
      | Some i \<Rightarrow> Some (db\<lparr>db_users := db_users db @
            [\<lparr>u_id = i, u_username = name, u_password_hash = hash, u_created_at = now,
              u_last_login = 0, u_active = True\<rparr>], db_users_seq := i\<rparr>))"

text \<open>One prepared writing statement: the row change is kept only if preparing and stepping succeed.\<close>

definition sq_write ::
  "sql_engine \<Rightarrow> string list \<Rightarrow> (sqlite_db \<Rightarrow> sqlite_db option) \<Rightarrow> sqlite_db \<Rightarrow> bool \<times> sqlite_db" where
  "sq_write E objs f db =
     (case sq_prepare E objs db of
        (None, db) \<Rightarrow> (False, db)
      | (Some t, db) \<Rightarrow>
          if sq_done E t then (case f db of None \<Rightarrow> (False, db) | Some db' \<Rightarrow> (True, db'))
          else (False, db))"

definition sqlite_create_user ::
  "sql_engine \<Rightarrow> i64 \<Rightarrow> string \<Rightarrow> string \<Rightarrow> sqlite_db \<Rightarrow> bool \<times> sqlite_db" where
  "sqlite_create_user E now username password_hash =
     sq_write E [''users''] (sql_insert_user (c_str username) (c_str password_hash) now)"

definition sqlite_get_user :: "sql_engine \<Rightarrow> u64 \<Rightarrow> sqlite_db \<Rightarrow> user option \<times> sqlite_db" where
  "sqlite_get_user E i db =
     (case sq_prepare E [''users''] db of
        (None, db) \<Rightarrow> (None, db)
      | (Some t, db) \<Rightarrow> (sq_first E t (filter (\<lambda>x. u_id x = i) (db_users db)), db))"

definition sqlite_get_user_by_username ::
  "sql_engine \<Rightarrow> string \<Rightarrow> sqlite_db \<Rightarrow> user option \<times> sqlite_db" where
  "sqlite_get_user_by_username E username db =
     (case sq_prepare E [''users''] db of
        (None, db) \<Rightarrow> (None, db)
      | (Some t, db) \<Rightarrow> (sq_first E t (filter (\<lambda>x. u_username x = c_str username) (db_users db)), db))"

definition sqlite_update_last_login ::
  "sql_engine \<Rightarrow> i64 \<Rightarrow> u64 \<Rightarrow> sqlite_db \<Rightarrow> bool \<times> sqlite_db" where
  "sqlite_update_last_login E now user_id =
     sq_write E [''users''] (\<lambda>db. Some (db\<lparr>db_users :=
       sql_update_where (\<lambda>x. u_id x = user_id) (\<lambda>x. x\<lparr>u_last_login := now\<rparr>) (db_users db)\<rparr>))"

definition sqlite_update_password ::
  "sql_engine \<Rightarrow> u64 \<Rightarrow> string \<Rightarrow> sqlite_db \<Rightarrow> bool \<times> sqlite_db" where
  "sqlite_update_password E user_id new_hash =
     sq_write E [''users''] (\<lambda>db. Some (db\<lparr>db_users :=
       sql_update_where (\<lambda>x. u_id x = user_id) (\<lambda>x. x\<lparr>u_password_hash := c_str new_hash\<rparr>) (db_users db)\<rparr>))"

definition sql_rename_user :: "u64 \<Rightarrow> string \<Rightarrow> sqlite_db \<Rightarrow> sqlite_db option" where
  "sql_rename_user user_id name db =
     (if has_user_id user_id db \<and>
         list_ex (\<lambda>x. u_username x = name \<and> u_id x \<noteq> user_id) (db_users db) then None
      else Some (db\<lparr>db_users :=
        sql_update_where (\<lambda>x. u_id x = user_id) (\<lambda>x. x\<lparr>u_username := name\<rparr>) (db_users db)\<rparr>))"

definition sqlite_rename_user ::
  "sql_engine \<Rightarrow> u64 \<Rightarrow> string \<Rightarrow> sqlite_db \<Rightarrow> bool \<times> sqlite_db" where
  "sqlite_rename_user E user_id new_username =
     sq_write E [''users''] (sql_rename_user user_id (c_str new_username))"

section \<open>Rooms\<close>

definition sqlite_create_room ::
  "sql_engine \<Rightarrow> i64 \<Rightarrow> string \<Rightarrow> string \<Rightarrow> sqlite_db \<Rightarrow> bool \<times> sqlite_db" where
  "sqlite_create_room E now name description =
     sq_write E [''rooms''] (sql_insert_or_ignore_room (c_str name) (c_str description) now)"

definition sqlite_get_room :: "sql_engine \<Rightarrow> string \<Rightarrow> sqlite_db \<Rightarrow> room option \<times> sqlite_db" where
  "sqlite_get_room E name db =
     (case sq_prepare E [''rooms''] db of
        (None, db) \<Rightarrow> (None, db)
      | (Some t, db) \<Rightarrow>
          (map_option room.truncate (sq_first E t (filter (\<lambda>r. r_name r = c_str name) (db_rooms db))), db))"

definition sqlite_list_rooms :: "sql_engine \<Rightarrow> sqlite_db \<Rightarrow> room list \<times> sqlite_db" where
  "sqlite_list_rooms E db =
     (case sq_prepare E [''rooms''] db of
        (None, db) \<Rightarrow> ([], db)
      | (Some t, db) \<Rightarrow>
          (map room.truncate (sq_rows E t (filter (\<lambda>r. \<not> r_is_private r) (db_rooms db))), db))"

definition sqlite_room_epoch :: "sql_engine \<Rightarrow> string \<Rightarrow> sqlite_db \<Rightarrow> u64 \<times> sqlite_db" where
  "sqlite_room_epoch E name db =
     (case sq_prepare E [''rooms'', ''rooms.epoch''] db of
        (None, db) \<Rightarrow> (0, db)
      | (Some t, db) \<Rightarrow>
          (case sq_first E t (filter (\<lambda>r. r_name r = c_str name) (db_rooms db)) of
             None \<Rightarrow> 0 | Some r \<Rightarrow> rr_epoch r, db))"

definition sqlite_bump_room_epoch :: "sql_engine \<Rightarrow> string \<Rightarrow> sqlite_db \<Rightarrow> u64 \<times> sqlite_db" where
  "sqlite_bump_room_epoch E name db =
     (let (ok, db) = sq_write E [''rooms'', ''rooms.epoch''] (\<lambda>db. Some (db\<lparr>db_rooms :=
            sql_update_where (\<lambda>r. r_name r = c_str name) (\<lambda>r. r\<lparr>rr_epoch := sql_incr (rr_epoch r)\<rparr>)
              (db_rooms db)\<rparr>)) db
      in if ok then sqlite_room_epoch E name db else (0, db))"

section \<open>Messages\<close>

definition sql_insert_message :: "stored_message \<Rightarrow> sqlite_db \<Rightarrow> sqlite_db option" where
  "sql_insert_message m db =
     (if \<not> has_user_id (smsg_sender_id m) db then None
      else case sql_next_id (db_messages_seq db) of
        None \<Rightarrow> None
      | Some i \<Rightarrow> Some (db\<lparr>db_messages := db_messages db @ [m\<lparr>smsg_id := i\<rparr>], db_messages_seq := i\<rparr>))"

definition sqlite_store_message :: "sql_engine \<Rightarrow> stored_message \<Rightarrow> sqlite_db \<Rightarrow> bool \<times> sqlite_db" where
  "sqlite_store_message E m =
     sq_write E [''messages''] (sql_insert_message
       (m\<lparr>smsg_message_id := c_str (smsg_message_id m), smsg_room := c_str (smsg_room m),
          smsg_content := c_str (smsg_content m)\<rparr>))"

definition sqlite_get_room_messages ::
  "sql_engine \<Rightarrow> string \<Rightarrow> u64 \<Rightarrow> u64 \<Rightarrow> sqlite_db \<Rightarrow> stored_message list \<times> sqlite_db" where
  "sqlite_get_room_messages E room limit before_id db =
     (case sq_prepare E [''messages''] db of
        (None, db) \<Rightarrow> ([], db)
      | (Some t, db) \<Rightarrow>
          (let sel = filter (\<lambda>m. smsg_room m = c_str room \<and>
                       (before_id > 0 \<longrightarrow> sint (smsg_id m) < sint before_id)) (db_messages db);
               rows = sql_limit (sint (ucast limit :: 32 word)) (rev (sql_order_by_id smsg_id sel))
           in (rev (sq_rows E t rows), db)))"

section \<open>Public keys\<close>

definition sql_replace_key :: "u64 \<Rightarrow> string \<Rightarrow> i64 \<Rightarrow> sqlite_db \<Rightarrow> sqlite_db option" where
  "sql_replace_key user_id key now db =
     (if \<not> has_user_id user_id db then None
      else Some (db\<lparr>db_keys := filter (\<lambda>k. k_user_id k \<noteq> user_id) (db_keys db) @
        [\<lparr>k_user_id = user_id, k_public_key = key, k_created_at = now, k_updated_at = now\<rparr>]\<rparr>))"

definition sqlite_store_public_key ::
  "sql_engine \<Rightarrow> i64 \<Rightarrow> u64 \<Rightarrow> string \<Rightarrow> sqlite_db \<Rightarrow> bool \<times> sqlite_db" where
  "sqlite_store_public_key E now user_id public_key =
     sq_write E [''user_keys''] (sql_replace_key user_id (c_str public_key) now)"

definition sqlite_get_public_key :: "sql_engine \<Rightarrow> u64 \<Rightarrow> sqlite_db \<Rightarrow> string option \<times> sqlite_db" where
  "sqlite_get_public_key E user_id db =
     (case sq_prepare E [''user_keys''] db of
        (None, db) \<Rightarrow> (None, db)
      | (Some t, db) \<Rightarrow>
          (map_option k_public_key (sq_first E t (filter (\<lambda>k. k_user_id k = user_id) (db_keys db))), db))"

definition sqlite_get_public_key_by_username ::
  "sql_engine \<Rightarrow> string \<Rightarrow> sqlite_db \<Rightarrow> string option \<times> sqlite_db" where
  "sqlite_get_public_key_by_username E username db =
     (case sq_prepare E [''user_keys'', ''users''] db of
        (None, db) \<Rightarrow> (None, db)
      | (Some t, db) \<Rightarrow>
          (map_option k_public_key (sq_first E t
             (filter (\<lambda>k. list_ex (\<lambda>x. u_id x = k_user_id k \<and> u_username x = c_str username) (db_users db))
               (db_keys db))), db))"

section \<open>Queued room key envelopes\<close>

definition MAX_QUEUED_ENVELOPES :: nat where
  "MAX_QUEUED_ENVELOPES = 1000"

definition sql_insert_envelope ::
  "u64 \<Rightarrow> string \<Rightarrow> string \<Rightarrow> u64 \<Rightarrow> string \<Rightarrow> i64 \<Rightarrow> sqlite_db \<Rightarrow> sqlite_db option" where
  "sql_insert_envelope recipient sender room epoch payload now db =
     (if \<not> has_user_id recipient db then None
      else case sql_next_id (db_envelopes_seq db) of
        None \<Rightarrow> None
      | Some i \<Rightarrow> Some (db\<lparr>db_envelopes := db_envelopes db @
            [\<lparr>e_id = i, e_sender = sender, e_room = room, e_epoch = epoch, e_payload = payload,
              er_recipient_id = recipient, er_created_at = now\<rparr>], db_envelopes_seq := i\<rparr>))"

definition sql_trim_envelopes :: "u64 \<Rightarrow> sqlite_db \<Rightarrow> sqlite_db option" where
  "sql_trim_envelopes recipient db =
     (let newest = map e_id (take MAX_QUEUED_ENVELOPES
            (rev (sql_order_by_id e_id (filter (\<lambda>r. er_recipient_id r = recipient) (db_envelopes db)))))
      in Some (db\<lparr>db_envelopes := filter (\<lambda>r. \<not> (er_recipient_id r = recipient \<and> e_id r \<notin> set newest))
            (db_envelopes db)\<rparr>))"

definition sqlite_store_room_key_envelope ::
  "sql_engine \<Rightarrow> i64 \<Rightarrow> u64 \<Rightarrow> string \<Rightarrow> string \<Rightarrow> u64 \<Rightarrow> string \<Rightarrow> sqlite_db \<Rightarrow> bool \<times> sqlite_db" where
  "sqlite_store_room_key_envelope E now recipient sender room epoch payload db =
     (let (ok, db) = sq_write E [''room_key_envelopes'']
            (sql_insert_envelope recipient (c_str sender) (c_str room) epoch (c_str payload) now) db
      in if \<not> ok then (False, db)
         else (True, snd (sq_write E [''room_key_envelopes''] (sql_trim_envelopes recipient) db)))"

definition sqlite_take_room_key_envelopes ::
  "sql_engine \<Rightarrow> u64 \<Rightarrow> sqlite_db \<Rightarrow> room_key_envelope list \<times> sqlite_db" where
  "sqlite_take_room_key_envelopes E recipient db =
     (case sq_prepare E [''room_key_envelopes''] db of
        (None, db) \<Rightarrow> ([], db)
      | (Some t, db) \<Rightarrow>
          let envelopes = map room_key_envelope.truncate (sq_rows E t (sql_order_by_id e_id
                (filter (\<lambda>r. er_recipient_id r = recipient) (db_envelopes db))))
          in if envelopes \<noteq> []
             then (envelopes, snd (sq_write E [''room_key_envelopes''] (\<lambda>db. Some (db\<lparr>db_envelopes :=
                     filter (\<lambda>r. er_recipient_id r \<noteq> recipient) (db_envelopes db)\<rparr>)) db))
             else ([], db))"

definition sqlite_is_healthy :: "sql_engine \<Rightarrow> sqlite_db \<Rightarrow> bool \<times> sqlite_db" where
  "sqlite_is_healthy E db =
     (case sq_prepare E [] db of
        (None, db) \<Rightarrow> (False, db)
      | (Some t, db) \<Rightarrow> (sq_first E t [()] \<noteq> None, db))"

definition sqlite_storage :: "sql_engine \<Rightarrow> sqlite_db istorage" where
  "sqlite_storage E = \<lparr>
     st_create_user = sqlite_create_user E,
     st_get_user = sqlite_get_user E,
     st_get_user_by_username = sqlite_get_user_by_username E,
     st_update_last_login = sqlite_update_last_login E,
     st_update_password = sqlite_update_password E,
     st_rename_user = sqlite_rename_user E,
     st_create_room = sqlite_create_room E,
     st_get_room = sqlite_get_room E,
     st_list_rooms = sqlite_list_rooms E,
     st_room_epoch = sqlite_room_epoch E,
     st_bump_room_epoch = sqlite_bump_room_epoch E,
     st_store_message = sqlite_store_message E,
     st_get_room_messages = sqlite_get_room_messages E,
     st_store_public_key = sqlite_store_public_key E,
     st_get_public_key = sqlite_get_public_key E,
     st_get_public_key_by_username = sqlite_get_public_key_by_username E,
     st_store_room_key_envelope = sqlite_store_room_key_envelope E,
     st_take_room_key_envelopes = sqlite_take_room_key_envelopes E,
     st_is_healthy = sqlite_is_healthy E,
     st_init_schema = sqlite_init_schema E\<rparr>"


section \<open>Well-formed databases\<close>

definition table_ids :: "i64 list \<Rightarrow> i64 \<Rightarrow> bool" where
  "table_ids ids seq \<longleftrightarrow> sorted_wrt (\<lambda>a b. sint a < sint b) ids \<and> 0 \<le> sint seq \<and>
     (\<forall>i \<in> set ids. 0 < sint i \<and> sint i \<le> sint seq)"

definition db_ok :: "sqlite_db \<Rightarrow> bool" where
  "db_ok db \<longleftrightarrow>
     table_ids (map u_id (db_users db)) (db_users_seq db) \<and> distinct (map u_username (db_users db)) \<and>
     table_ids (map r_id (db_rooms db)) (db_rooms_seq db) \<and> distinct (map r_name (db_rooms db)) \<and>
     (\<forall>r \<in> set (db_rooms db). 0 < sint (rr_epoch r)) \<and>
     table_ids (map smsg_id (db_messages db)) (db_messages_seq db) \<and>
     (\<forall>m \<in> set (db_messages db). has_user_id (smsg_sender_id m) db) \<and>
     distinct (map k_user_id (db_keys db)) \<and>
     (\<forall>k \<in> set (db_keys db). has_user_id (k_user_id k) db) \<and>
     table_ids (map e_id (db_envelopes db)) (db_envelopes_seq db) \<and>
     (\<forall>r \<in> set (db_envelopes db). has_user_id (er_recipient_id r) db)"

definition sqlite_view :: "sqlite_db \<Rightarrow> storage_view" where
  "sqlite_view db = \<lparr>
     v_user = (\<lambda>i. find (\<lambda>x. u_id x = i) (db_users db)),
     v_epoch = (\<lambda>n. map_option rr_epoch (find (\<lambda>r. r_name r = n) (db_rooms db))),
     v_key = (\<lambda>i. map_option k_public_key (find (\<lambda>k. k_user_id k = i) (db_keys db))),
     v_queue = (\<lambda>i. map room_key_envelope.truncate
       (filter (\<lambda>r. er_recipient_id r = i) (db_envelopes db)))\<rparr>"

lemma sint_incr:
  assumes "(w :: i64) \<noteq> sql_max_int"
  shows "sint (w + 1) = sint w + 1"
proof -
  have "sint w \<noteq> 2 ^ 63 - 1"
  proof
    assume "sint w = 2 ^ 63 - 1"
    then have "word_of_int (sint w) = (word_of_int (2 ^ 63 - 1) :: i64)" by simp
    then have "w = word_of_int (2 ^ 63 - 1)" by simp
    with assms show False by (simp add: sql_max_int_def)
  qed
  moreover have "sint w < 2 ^ 63" "- (2 ^ 63) \<le> sint w"
    using sint_lt [of w] sint_ge [of w] by simp_all
  ultimately show ?thesis
    by (simp add: sint_word_ariths signed_take_bit_int_eq_self)
qed

lemma table_ids_append:
  assumes "table_ids ids seq" and "sql_next_id seq = Some i"
  shows "table_ids (ids @ [i]) i" and "i \<notin> set ids" and "0 < sint i"
  using assms sint_incr [of seq]
  by (auto simp: table_ids_def sql_next_id_def sorted_wrt_append split: if_splits)

lemma table_ids_filter: "table_ids (map f xs) seq \<Longrightarrow> table_ids (map f (filter P xs)) seq"
  by (auto simp: table_ids_def sorted_wrt_map sorted_wrt_filter)

lemma table_ids_distinct: "table_ids ids seq \<Longrightarrow> distinct ids"
  unfolding table_ids_def by (metis (mono_tags, lifting) less_irrefl distinct_conv_nth linorder_neqE_nat
      sorted_wrt_nth_less)

lemma table_ids_order: "table_ids (map f xs) seq \<Longrightarrow> sql_order_by_id f xs = xs"
  unfolding table_ids_def sql_order_by_id_def
  by (intro sort_key_id_if_sorted)
    (auto simp: sorted_wrt_map intro: sorted_wrt_mono_rel [where P = "\<lambda>a b. sint (f a) < sint (f b)"])

lemma sql_update_where_map:
  "(\<And>x. g (f x) = g x) \<Longrightarrow> map g (sql_update_where P f xs) = map g xs"
  by (simp add: sql_update_where_def)

lemma find_update_where:
  assumes "\<And>x. key (f x) = key x"
  shows "find (\<lambda>x. key x = k) (sql_update_where (\<lambda>x. key x = i) f xs)
    = (if k = i then map_option f (find (\<lambda>x. key x = k) xs) else find (\<lambda>x. key x = k) xs)"
  by (induction xs) (auto simp: sql_update_where_def assms)

lemma find_snoc:
  "find P (xs @ [x]) = (case find P xs of None \<Rightarrow> if P x then Some x else None | Some y \<Rightarrow> Some y)"
  by (induction xs) auto

lemma sq_first_Some: "sq_first E t rows = Some x \<Longrightarrow> \<exists>xs. rows = x # xs"
proof (cases rows)
  case (Cons r rs)
  assume "sq_first E t rows = Some x"
  moreover have "sq_rows E t rows = [] \<or> (\<exists>ys. sq_rows E t rows = r # ys)"
    by (cases "sql_step_error E t"; cases "the (sql_step_error E t)") (auto simp: sq_rows_def Cons)
  ultimately show ?thesis by (auto simp: sq_first_def Cons)
qed (simp add: sq_first_def sq_rows_def split: option.splits)

lemma find_filter_first:
  assumes "sq_first E t (filter P xs) = Some x"
  shows "find P xs = Some x"
proof -
  from sq_first_Some [OF assms] obtain ys where "filter P xs = x # ys" by blast
  then show ?thesis by (induction xs) (auto split: if_splits)
qed

lemma sq_first_ok: "sq_done E t \<Longrightarrow> sq_first E t (filter P xs) = find P xs"
  by (induction xs) (auto simp: sq_done_def sq_first_def sq_rows_def)

subsection \<open>Statements and well-formedness\<close>

lemma sqlite_ticks [simp]:
  "db_ok (db\<lparr>db_ticks := n\<rparr>) = db_ok db"
  "sqlite_view (db\<lparr>db_ticks := n\<rparr>) = sqlite_view db"
  by (simp_all add: db_ok_def sqlite_view_def has_user_id_def)

lemma sq_prepareE:
  assumes "sq_prepare E objs db = (r, db')"
  obtains n where "db' = db\<lparr>db_ticks := n\<rparr>"
  using assms by (auto simp: sq_prepare_def)

lemma sq_writeE:
  assumes "sq_write E objs f db = (ok, db')"
  obtains (failed) n where "\<not> ok" "db' = db\<lparr>db_ticks := n\<rparr>"
    | (completed) n where "ok" "f (db\<lparr>db_ticks := n\<rparr>) = Some db'"
proof -
  obtain r db1 where p: "sq_prepare E objs db = (r, db1)" by (cases "sq_prepare E objs db")
  then obtain n where n: "db1 = db\<lparr>db_ticks := n\<rparr>" by (rule sq_prepareE)
  show thesis
  proof (cases "ok")
    case True
    with assms p n have "f (db\<lparr>db_ticks := n\<rparr>) = Some db'"
      by (auto simp: sq_write_def split: option.splits if_splits)
    with True show thesis by (rule completed)
  next
    case False
    with assms p n have "db' = db\<lparr>db_ticks := n\<rparr>"
      by (auto simp: sq_write_def split: option.splits if_splits)
    with False show thesis by (rule failed)
  qed
qed

lemma db_okD:
  assumes "db_ok db"
  shows "table_ids (map u_id (db_users db)) (db_users_seq db)"
    and "distinct (map u_username (db_users db))"
    and "table_ids (map r_id (db_rooms db)) (db_rooms_seq db)"
    and "distinct (map r_name (db_rooms db))"
    and "table_ids (map smsg_id (db_messages db)) (db_messages_seq db)"
    and "distinct (map k_user_id (db_keys db))"
    and "table_ids (map e_id (db_envelopes db)) (db_envelopes_seq db)"
    and "r \<in> set (db_rooms db) \<Longrightarrow> 0 < sint (rr_epoch r)"
  using assms by (simp_all add: db_ok_def)

lemma find_by_id:
  assumes "table_ids (map f xs) seq"
  shows "find (\<lambda>x. f x = i) xs = Some x \<longleftrightarrow> x \<in> set xs \<and> f x = i"
  using table_ids_distinct [OF assms] by (induction xs) auto

lemma insert_user_ok:
  assumes "db_ok db" and "sql_insert_user n h now db = Some db'"
  shows "db_ok db'" and "name_free (sqlite_view db) n"
    and "\<exists>i. v_user (sqlite_view db) i = None \<and>
      sqlite_view db' = (sqlite_view db)\<lparr>v_user := (v_user (sqlite_view db))(i \<mapsto>
        \<lparr>u_id = i, u_username = n, u_password_hash = h, u_created_at = now,
         u_last_login = 0, u_active = True\<rparr>)\<rparr>"
proof -
  from assms(2) obtain i where i: "sql_next_id (db_users_seq db) = Some i"
    and n: "n \<notin> u_username ` set (db_users db)"
    and db': "db' = db\<lparr>db_users := db_users db @ [\<lparr>u_id = i, u_username = n, u_password_hash = h,
        u_created_at = now, u_last_login = 0, u_active = True\<rparr>], db_users_seq := i\<rparr>"
    by (auto simp: sql_insert_user_def split: if_splits option.splits)
  note ids = table_ids_append [OF db_okD(1) [OF assms(1)] i]
  show "db_ok db'"
    using assms(1) ids(1) n by (auto simp: db' db_ok_def has_user_id_def)
  show "name_free (sqlite_view db) n"
    using n by (auto simp: name_free_def sqlite_view_def find_Some_iff)
  have fresh: "find (\<lambda>x. u_id x = i) (db_users db) = None"
    using ids(2) by (auto simp: find_None_iff)
  have "sqlite_view db' = (sqlite_view db)\<lparr>v_user := (v_user (sqlite_view db))(i \<mapsto>
        \<lparr>u_id = i, u_username = n, u_password_hash = h, u_created_at = now,
         u_last_login = 0, u_active = True\<rparr>)\<rparr>"
    using fresh by (auto simp: sqlite_view_def db' find_snoc fun_eq_iff split: option.split)
  with fresh show "\<exists>i. v_user (sqlite_view db) i = None \<and>
      sqlite_view db' = (sqlite_view db)\<lparr>v_user := (v_user (sqlite_view db))(i \<mapsto>
        \<lparr>u_id = i, u_username = n, u_password_hash = h, u_created_at = now,
         u_last_login = 0, u_active = True\<rparr>)\<rparr>"
    by (intro exI [of _ i]) (simp add: sqlite_view_def)
qed

lemma update_users_ok:
  assumes "db_ok db" and "\<And>x. u_id (f x) = u_id x"
    and "distinct (map u_username (sql_update_where (\<lambda>x. u_id x = i) f (db_users db)))"
    and "db' = db\<lparr>db_users := sql_update_where (\<lambda>x. u_id x = i) f (db_users db)\<rparr>"
  shows "db_ok db'"
    and "sqlite_view db' = (sqlite_view db)\<lparr>v_user := (v_user (sqlite_view db))
       (i := map_option f (v_user (sqlite_view db) i))\<rparr>"
proof -
  have ids: "map u_id (db_users db') = map u_id (db_users db)"
    using assms(2) by (simp add: assms(4) sql_update_where_map)
  then have "u_id ` set (db_users db') = u_id ` set (db_users db)"
    by (metis list.set_map)
  then have "has_user_id k db' = has_user_id k db" for k by (simp add: has_user_id_def)
  with ids assms(1,3) show "db_ok db'" by (simp add: db_ok_def assms(4))
  show "sqlite_view db' = (sqlite_view db)\<lparr>v_user := (v_user (sqlite_view db))
       (i := map_option f (v_user (sqlite_view db) i))\<rparr>"
    using find_update_where [of u_id f] assms(2) by (auto simp: sqlite_view_def assms(4) fun_eq_iff)
qed


lemma sql_update_where_Cons:
  "sql_update_where P f (x # xs) = (if P x then f x else x) # sql_update_where P f xs"
  by (simp add: sql_update_where_def)

lemma rename_distinct:
  assumes "distinct (map u_id xs)" and "distinct (map u_username xs)"
    and "i \<in> u_id ` set xs \<Longrightarrow> \<forall>x \<in> set xs. u_username x = n \<longrightarrow> u_id x = i"
  shows "distinct (map u_username (sql_update_where (\<lambda>x. u_id x = i) (\<lambda>x. x\<lparr>u_username := n\<rparr>) xs))"
  using assms
proof (induction xs)
  case (Cons x xs)
  have "sql_update_where (\<lambda>x. u_id x = i) (\<lambda>x. x\<lparr>u_username := n\<rparr>) xs = xs" if "u_id x = i"
    unfolding sql_update_where_def using Cons.prems(1) that by (intro map_idI) (auto simp: image_iff)
  moreover have "n \<notin> u_username ` set xs" if x: "u_id x = i"
  proof
    have H: "\<forall>y \<in> set (x # xs). u_username y = n \<longrightarrow> u_id y = i"
      by (rule Cons.prems(3)) (simp add: x)
    assume "n \<in> u_username ` set xs"
    then obtain y where "y \<in> set xs" "u_username y = n" by blast
    moreover from this H have "u_id y = i" by auto
    ultimately show False using Cons.prems(1) x by (metis distinct.simps(2) image_eqI list.set_map list.simps(9))
  qed
  moreover have "u_username x \<notin> u_username ` set
      (sql_update_where (\<lambda>x. u_id x = i) (\<lambda>x. x\<lparr>u_username := n\<rparr>) xs)" if x: "u_id x \<noteq> i"
  proof
    assume "u_username x \<in> u_username ` set
      (sql_update_where (\<lambda>x. u_id x = i) (\<lambda>x. x\<lparr>u_username := n\<rparr>) xs)"
    then obtain y where y: "y \<in> set xs" "u_username x = (if u_id y = i then n else u_username y)"
      by (auto simp: sql_update_where_def split: if_splits)
    have "u_username x \<noteq> u_username y" using y(1) Cons.prems(2) by (auto simp: image_iff)
    with y(2) have "u_id y = i" "u_username x = n" by (auto split: if_splits)
    moreover have "\<forall>z \<in> set (x # xs). u_username z = n \<longrightarrow> u_id z = i"
      by (rule Cons.prems(3)) (use y(1) \<open>u_id y = i\<close> in auto)
    ultimately show False using x by simp
  qed
  moreover have "distinct (map u_username (sql_update_where (\<lambda>x. u_id x = i) (\<lambda>x. x\<lparr>u_username := n\<rparr>) xs))"
  proof (rule Cons.IH)
    assume "i \<in> u_id ` set xs"
    then have "i \<in> u_id ` set (x # xs)" by simp
    from Cons.prems(3) [OF this] show "\<forall>x \<in> set xs. u_username x = n \<longrightarrow> u_id x = i" by simp
  qed (use Cons.prems(1,2) in simp_all)
  ultimately show ?case using Cons.prems(2) by (auto simp: sql_update_where_Cons)
qed (simp add: sql_update_where_def)

lemma rename_user_ok:
  assumes "db_ok db" and "sql_rename_user i n db = Some db'"
  shows "db_ok db'"
    and "sqlite_view db' = (sqlite_view db)\<lparr>v_user := (v_user (sqlite_view db))
       (i := map_option (\<lambda>x. x\<lparr>u_username := n\<rparr>) (v_user (sqlite_view db) i))\<rparr>"
proof -
  let ?us = "sql_update_where (\<lambda>x. u_id x = i) (\<lambda>x. x\<lparr>u_username := n\<rparr>) (db_users db)"
  from assms(2) have db': "db' = db\<lparr>db_users := ?us\<rparr>"
    and free: "has_user_id i db \<Longrightarrow> \<forall>x \<in> set (db_users db). u_username x = n \<longrightarrow> u_id x = i"
    by (auto simp: sql_rename_user_def list_ex_iff split: if_splits)
  have "distinct (map u_username ?us)"
    by (rule rename_distinct [OF table_ids_distinct [OF db_okD(1) [OF assms(1)]] db_okD(2) [OF assms(1)]])
      (rule free, unfold has_user_id_def)
  from update_users_ok [OF assms(1) _ this db']
  show "db_ok db'" and "sqlite_view db' = (sqlite_view db)\<lparr>v_user := (v_user (sqlite_view db))
       (i := map_option (\<lambda>x. x\<lparr>u_username := n\<rparr>) (v_user (sqlite_view db) i))\<rparr>" by simp_all
qed

lemma sint_sql_incr: "0 < sint e \<Longrightarrow> 0 < sint (sql_incr e)"
  using sint_incr [of e] by (cases "e = sql_max_int") (simp_all add: sql_incr_def)

lemma bump_rooms_ok:
  assumes "db_ok db" and db': "db' = db\<lparr>db_rooms := sql_update_where (\<lambda>r. r_name r = n)
      (\<lambda>r. r\<lparr>rr_epoch := sql_incr (rr_epoch r)\<rparr>) (db_rooms db)\<rparr>"
  shows "db_ok db'"
    and "sqlite_view db' = (sqlite_view db)\<lparr>v_epoch := (v_epoch (sqlite_view db))
       (n := map_option sql_incr (v_epoch (sqlite_view db) n))\<rparr>"
proof -
  have "map r_id (db_rooms db') = map r_id (db_rooms db)" "map r_name (db_rooms db') = map r_name (db_rooms db)"
    by (simp_all add: db' sql_update_where_map)
  moreover have "\<forall>r \<in> set (db_rooms db'). 0 < sint (rr_epoch r)"
    using db_okD(8) [OF assms(1)] by (auto simp: db' sql_update_where_def sint_sql_incr)
  ultimately show "db_ok db'" using assms(1) by (simp add: db_ok_def db' has_user_id_def)
  show "sqlite_view db' = (sqlite_view db)\<lparr>v_epoch := (v_epoch (sqlite_view db))
       (n := map_option sql_incr (v_epoch (sqlite_view db) n))\<rparr>"
    by (auto simp: sqlite_view_def db' fun_eq_iff find_update_where option.map_comp comp_def)
qed

lemma insert_room_ok:
  assumes "db_ok db" and "sql_insert_or_ignore_room n d now db = Some db'"
  shows "db_ok db'"
proof (cases "n \<in> r_name ` set (db_rooms db)")
  case True
  with assms show ?thesis by (simp add: sql_insert_or_ignore_room_def)
next
  case False
  with assms(2) obtain i where i: "sql_next_id (db_rooms_seq db) = Some i"
    and "db' = db\<lparr>db_rooms := db_rooms db @ [\<lparr>r_id = i, r_name = n, r_description = d,
      r_created_at = now, r_is_private = False, rr_epoch = 1\<rparr>], db_rooms_seq := i\<rparr>"
    by (auto simp: sql_insert_or_ignore_room_def split: option.splits)
  with assms(1) False table_ids_append(1) [OF db_okD(3) [OF assms(1)] i] show ?thesis
    by (auto simp: db_ok_def has_user_id_def)
qed

lemma insert_message_ok:
  assumes "db_ok db" and "sql_insert_message m db = Some db'"
  shows "db_ok db'"
proof -
  from assms(2) obtain i where i: "sql_next_id (db_messages_seq db) = Some i"
    and db': "db' = db\<lparr>db_messages := db_messages db @ [m\<lparr>smsg_id := i\<rparr>], db_messages_seq := i\<rparr>"
    and "has_user_id (smsg_sender_id m) db"
    by (auto simp: sql_insert_message_def split: if_splits option.splits)
  with assms(1) table_ids_append(1) [OF db_okD(5) [OF assms(1)] i] show ?thesis
    by (auto simp: db_ok_def has_user_id_def)
qed

lemma replace_key_ok:
  assumes "db_ok db" and "sql_replace_key i k now db = Some db'"
  shows "db_ok db'" and "has_user_id i db"
    and "sqlite_view db' = (sqlite_view db)\<lparr>v_key := (v_key (sqlite_view db))(i \<mapsto> k)\<rparr>"
proof -
  from assms(2) have db': "db' = db\<lparr>db_keys := filter (\<lambda>k. k_user_id k \<noteq> i) (db_keys db) @
        [\<lparr>k_user_id = i, k_public_key = k, k_created_at = now, k_updated_at = now\<rparr>]\<rparr>"
    and has: "has_user_id i db"
    by (auto simp: sql_replace_key_def split: if_splits)
  show "has_user_id i db" by (fact has)
  show "db_ok db'"
    using assms(1) has by (auto simp: db' db_ok_def has_user_id_def distinct_map_filter)
  have "find (\<lambda>k. k_user_id k = j) (filter (\<lambda>k. k_user_id k \<noteq> i) xs)
      = (if j = i then None else find (\<lambda>k. k_user_id k = j) xs)" for j and xs :: "key_row list"
    by (induction xs) auto
  then show "sqlite_view db' = (sqlite_view db)\<lparr>v_key := (v_key (sqlite_view db))(i \<mapsto> k)\<rparr>"
    by (auto simp: db' sqlite_view_def find_snoc fun_eq_iff split: option.split)
qed

lemma insert_envelope_ok:
  assumes "db_ok db" and "sql_insert_envelope r s n e p now db = Some db'"
  shows "db_ok db'"
    and "\<exists>i. sqlite_view db' = (sqlite_view db)\<lparr>v_queue := (v_queue (sqlite_view db))
       (r := v_queue (sqlite_view db) r @ [\<lparr>e_id = i, e_sender = s, e_room = n, e_epoch = e, e_payload = p\<rparr>])\<rparr>"
proof -
  from assms(2) obtain i where i: "sql_next_id (db_envelopes_seq db) = Some i"
    and has: "has_user_id r db"
    and db': "db' = db\<lparr>db_envelopes := db_envelopes db @ [\<lparr>e_id = i, e_sender = s, e_room = n,
      e_epoch = e, e_payload = p, er_recipient_id = r, er_created_at = now\<rparr>], db_envelopes_seq := i\<rparr>"
    by (auto simp: sql_insert_envelope_def split: if_splits option.splits)
  with assms(1) table_ids_append(1) [OF db_okD(7) [OF assms(1)] i] show "db_ok db'"
    by (auto simp: db_ok_def has_user_id_def)
  show "\<exists>i. sqlite_view db' = (sqlite_view db)\<lparr>v_queue := (v_queue (sqlite_view db))
       (r := v_queue (sqlite_view db) r @ [\<lparr>e_id = i, e_sender = s, e_room = n, e_epoch = e, e_payload = p\<rparr>])\<rparr>"
    by (rule exI [of _ i]) (auto simp: sqlite_view_def db' fun_eq_iff room_key_envelope.truncate_def)
qed

lemma filter_envelopes_ok:
  "db_ok db \<Longrightarrow> db_ok (db\<lparr>db_envelopes := filter P (db_envelopes db)\<rparr>)"
  by (auto simp: db_ok_def has_user_id_def table_ids_filter)

text \<open>The trim statement keeps the newest rows of one recipient.\<close>

lemma filter_in_last:
  assumes "distinct (map f xs)"
  shows "filter (\<lambda>r. f r \<in> set (map f (take n (rev xs)))) xs = drop (length xs - n) xs"
proof -
  let ?k = "length xs - n"
  have tk: "take n (rev xs) = rev (drop ?k xs)" by (simp add: take_rev)
  have sp: "xs = take ?k xs @ drop ?k xs" by simp
  have "f ` set (take ?k xs) \<inter> f ` set (drop ?k xs) = {}"
    using assms by (metis append_take_drop_id distinct_append list.set_map map_append)
  then have "filter (\<lambda>r. f r \<in> f ` set (drop ?k xs)) (take ?k xs) = []"
    by (auto simp: filter_empty_conv)
  moreover have "filter (\<lambda>r. f r \<in> f ` set (drop ?k xs)) (drop ?k xs) = drop ?k xs"
    by (auto simp: filter_id_conv)
  ultimately have "filter (\<lambda>r. f r \<in> f ` set (drop ?k xs)) (take ?k xs @ drop ?k xs) = drop ?k xs"
    by (simp only: filter_append append_Nil)
  then show ?thesis by (simp add: tk)
qed

lemma trim_envelopes_ok:
  assumes "db_ok db" and "sql_trim_envelopes r db = Some db'"
  shows "db_ok db'"
    and "sqlite_view db' = (sqlite_view db)\<lparr>v_queue := (v_queue (sqlite_view db))
       (r := drop (length (v_queue (sqlite_view db) r) - MAX_QUEUED_ENVELOPES) (v_queue (sqlite_view db) r))\<rparr>"
proof -
  let ?mine = "filter (\<lambda>x. er_recipient_id x = r) (db_envelopes db)"
  let ?new = "map e_id (take MAX_QUEUED_ENVELOPES (rev ?mine))"
  have ids: "table_ids (map e_id ?mine) (db_envelopes_seq db)"
    by (rule table_ids_filter [OF db_okD(7) [OF assms(1)]])
  have db': "db' = db\<lparr>db_envelopes := filter (\<lambda>x. \<not> (er_recipient_id x = r \<and> e_id x \<notin> set ?new))
      (db_envelopes db)\<rparr>"
    using assms(2) table_ids_order [OF ids] by (simp add: sql_trim_envelopes_def Let_def)
  then show "db_ok db'" using assms(1) by (simp only: filter_envelopes_ok)
  have "filter (\<lambda>x. er_recipient_id x = r) (db_envelopes db') = filter (\<lambda>x. e_id x \<in> set ?new) ?mine"
    by (auto simp: db' intro: filter_cong)
  then have "filter (\<lambda>x. er_recipient_id x = r) (db_envelopes db')
      = drop (length ?mine - MAX_QUEUED_ENVELOPES) ?mine"
    using filter_in_last [OF table_ids_distinct [OF ids]] by simp
  moreover have "filter (\<lambda>x. er_recipient_id x = j) (db_envelopes db')
      = filter (\<lambda>x. er_recipient_id x = j) (db_envelopes db)" if "j \<noteq> r" for j
    using that by (auto simp: db' intro: filter_cong)
  ultimately show "sqlite_view db' = (sqlite_view db)\<lparr>v_queue := (v_queue (sqlite_view db))
       (r := drop (length (v_queue (sqlite_view db) r) - MAX_QUEUED_ENVELOPES) (v_queue (sqlite_view db) r))\<rparr>"
    by (auto simp: sqlite_view_def db' fun_eq_iff drop_map)
qed


section \<open>The interface contract\<close>

lemma sqlite_select_pure:
  "sqlite_get_user E i db = (a1, db1) \<Longrightarrow> \<exists>n. db1 = db\<lparr>db_ticks := n\<rparr>"
  "sqlite_get_user_by_username E u db = (a2, db1) \<Longrightarrow> \<exists>n. db1 = db\<lparr>db_ticks := n\<rparr>"
  "sqlite_room_epoch E r db = (a3, db1) \<Longrightarrow> \<exists>n. db1 = db\<lparr>db_ticks := n\<rparr>"
  "sqlite_get_public_key E i db = (a4, db1) \<Longrightarrow> \<exists>n. db1 = db\<lparr>db_ticks := n\<rparr>"
  "sqlite_get_public_key_by_username E u db = (a4, db1) \<Longrightarrow> \<exists>n. db1 = db\<lparr>db_ticks := n\<rparr>"
  "sqlite_get_room E r db = (a5, db1) \<Longrightarrow> \<exists>n. db1 = db\<lparr>db_ticks := n\<rparr>"
  "sqlite_list_rooms E db = (a6, db1) \<Longrightarrow> \<exists>n. db1 = db\<lparr>db_ticks := n\<rparr>"
  "sqlite_get_room_messages E r l b db = (a7, db1) \<Longrightarrow> \<exists>n. db1 = db\<lparr>db_ticks := n\<rparr>"
  by (auto simp: sqlite_get_user_def sqlite_get_user_by_username_def sqlite_room_epoch_def
      sqlite_get_public_key_def sqlite_get_public_key_by_username_def sqlite_get_room_def
      sqlite_list_rooms_def sqlite_get_room_messages_def Let_def split: prod.splits option.splits
      elim!: sq_prepareE)

lemma sqlite_room_epoch_val:
  assumes "sqlite_room_epoch E r db = (e, db')" and "e \<noteq> 0"
  shows "v_epoch (sqlite_view db) (c_str r) = Some e"
proof -
  obtain p db1 where p: "sq_prepare E [''rooms'', ''rooms.epoch''] db = (p, db1)" by force
  then obtain n where "db1 = db\<lparr>db_ticks := n\<rparr>" by (rule sq_prepareE)
  with assms p show ?thesis
    by (auto simp: sqlite_room_epoch_def sqlite_view_def split: option.splits dest!: find_filter_first)
qed

lemma bump_epoch_view:
  assumes "db_ok db" and b: "sqlite_bump_room_epoch E r db = (e, db')"
  shows "db_ok db'"
    and "e \<noteq> 0 \<longrightarrow> v_epoch (sqlite_view db') (c_str r) = Some e"
    and "sqlite_view db' = sqlite_view db \<or>
       (\<exists>e0. v_epoch (sqlite_view db) (c_str r) = Some e0 \<and>
         sqlite_view db' = (sqlite_view db)\<lparr>v_epoch := (v_epoch (sqlite_view db))(c_str r \<mapsto> e0 + 1)\<rparr>)"
proof -
  let ?f = "\<lambda>db. Some (db\<lparr>db_rooms := sql_update_where (\<lambda>x. r_name x = c_str r)
      (\<lambda>x. x\<lparr>rr_epoch := sql_incr (rr_epoch x)\<rparr>) (db_rooms db)\<rparr>)"
  obtain ok db1 where w: "sq_write E [''rooms'', ''rooms.epoch''] ?f db = (ok, db1)" by force
  have "db_ok db' \<and> (e \<noteq> 0 \<longrightarrow> v_epoch (sqlite_view db') (c_str r) = Some e) \<and>
    (sqlite_view db' = sqlite_view db \<or>
       (\<exists>e0. v_epoch (sqlite_view db) (c_str r) = Some e0 \<and>
         sqlite_view db' = (sqlite_view db)\<lparr>v_epoch := (v_epoch (sqlite_view db))(c_str r \<mapsto> e0 + 1)\<rparr>))"
    using w
  proof (cases rule: sq_writeE)
    case (failed n)
    with b w have "e = 0" "db' = db\<lparr>db_ticks := n\<rparr>" by (auto simp: sqlite_bump_room_epoch_def)
    with assms(1) show ?thesis by simp
  next
    case (completed n)
    from b w completed(1) have g: "sqlite_room_epoch E r db1 = (e, db')"
      by (simp add: sqlite_bump_room_epoch_def)
    then obtain k where k: "db' = db1\<lparr>db_ticks := k\<rparr>" using sqlite_select_pure(3) by blast
    note up = bump_rooms_ok [of "db\<lparr>db_ticks := n\<rparr>" db1 "c_str r"]
    have v: "sqlite_view db1 = (sqlite_view db)\<lparr>v_epoch := (v_epoch (sqlite_view db))
       (c_str r := map_option sql_incr (v_epoch (sqlite_view db) (c_str r)))\<rparr>" and "db_ok db1"
      using up completed(2) assms(1) by simp_all
    moreover have "sqlite_view db1 = sqlite_view db \<or>
       (\<exists>e0. v_epoch (sqlite_view db) (c_str r) = Some e0 \<and>
         sqlite_view db1 = (sqlite_view db)\<lparr>v_epoch := (v_epoch (sqlite_view db))(c_str r \<mapsto> e0 + 1)\<rparr>)"
      by (cases "v_epoch (sqlite_view db) (c_str r)") (auto simp: v sql_incr_def fun_upd_idem)
    ultimately show ?thesis using k sqlite_room_epoch_val [OF g] by simp
  qed
  then show "db_ok db'" and "e \<noteq> 0 \<longrightarrow> v_epoch (sqlite_view db') (c_str r) = Some e"
    and "sqlite_view db' = sqlite_view db \<or>
       (\<exists>e0. v_epoch (sqlite_view db) (c_str r) = Some e0 \<and>
         sqlite_view db' = (sqlite_view db)\<lparr>v_epoch := (v_epoch (sqlite_view db))(c_str r \<mapsto> e0 + 1)\<rparr>)"
    by blast+
qed

section \<open>Histories of a database\<close>

inductive sqlite_step :: "sql_engine \<Rightarrow> sqlite_db \<Rightarrow> sqlite_db \<Rightarrow> bool" for E where
  "sqlite_step E db (snd (sqlite_open E db))"
| "sqlite_step E db (snd (sqlite_init_schema E now db))"
| "sqlite_step E db (snd (sqlite_create_user E now u h db))"
| "sqlite_step E db (snd (sqlite_get_user E i db))"
| "sqlite_step E db (snd (sqlite_get_user_by_username E u db))"
| "sqlite_step E db (snd (sqlite_update_last_login E now i db))"
| "sqlite_step E db (snd (sqlite_update_password E i h db))"
| "sqlite_step E db (snd (sqlite_rename_user E i n db))"
| "sqlite_step E db (snd (sqlite_create_room E now n d db))"
| "sqlite_step E db (snd (sqlite_get_room E n db))"
| "sqlite_step E db (snd (sqlite_list_rooms E db))"
| "sqlite_step E db (snd (sqlite_room_epoch E n db))"
| "sqlite_step E db (snd (sqlite_bump_room_epoch E n db))"
| "sqlite_step E db (snd (sqlite_store_message E m db))"
| "sqlite_step E db (snd (sqlite_get_room_messages E n l b db))"
| "sqlite_step E db (snd (sqlite_store_public_key E now i k db))"
| "sqlite_step E db (snd (sqlite_get_public_key E i db))"
| "sqlite_step E db (snd (sqlite_get_public_key_by_username E u db))"
| "sqlite_step E db (snd (sqlite_store_room_key_envelope E now i s n e pl db))"
| "sqlite_step E db (snd (sqlite_take_room_key_envelopes E i db))"
| "sqlite_step E db (snd (sqlite_is_healthy E db))"

lemma sq_write_keeps:
  assumes "db_ok db" and "\<And>db1 db2. db_ok db1 \<Longrightarrow> f db1 = Some db2 \<Longrightarrow> db_ok db2"
  shows "db_ok (snd (sq_write E objs f db))"
proof -
  obtain ok db' where w: "sq_write E objs f db = (ok, db')" by force
  then show ?thesis
  proof (cases rule: sq_writeE)
    case (failed n)
    with w assms(1) show ?thesis by simp
  next
    case (completed n)
    with assms(2) [OF _ completed(2)] w assms(1) show ?thesis by simp
  qed
qed

lemma sqlite_exec_keeps:
  assumes "\<And>db1 db2. db_ok db1 \<Longrightarrow> f db1 = Some db2 \<Longrightarrow> db_ok db2"
  shows "keeps db_ok (sqlite_exec E f)"
proof (rule keepsI)
  fix db assume "db_ok db"
  with assms [of "db\<lparr>db_ticks := Suc (db_ticks db)\<rparr>"] show "db_ok (snd (sqlite_exec E f db))"
    by (auto simp: sqlite_exec_def sq_prepare_def split: option.split)
qed

lemma sqlite_select_keeps:
  "db_ok (snd (sqlite_get_user E i db)) = db_ok db"
  "db_ok (snd (sqlite_get_user_by_username E u db)) = db_ok db"
  "db_ok (snd (sqlite_room_epoch E r db)) = db_ok db"
  "db_ok (snd (sqlite_get_public_key E i db)) = db_ok db"
  "db_ok (snd (sqlite_get_public_key_by_username E u db)) = db_ok db"
  "db_ok (snd (sqlite_get_room E r db)) = db_ok db"
  "db_ok (snd (sqlite_list_rooms E db)) = db_ok db"
  "db_ok (snd (sqlite_get_room_messages E r l b db)) = db_ok db"
  "db_ok (snd (sqlite_is_healthy E db)) = db_ok db"
  by (simp_all add: sqlite_get_user_def sqlite_get_user_by_username_def sqlite_room_epoch_def
      sqlite_get_public_key_def sqlite_get_public_key_by_username_def sqlite_get_room_def
      sqlite_list_rooms_def sqlite_get_room_messages_def sqlite_is_healthy_def sq_prepare_def Let_def)

lemma update_users_keeps:
  assumes "db_ok db" and "\<And>x. u_id (f x) = u_id x" and "\<And>x. u_username (f x) = u_username x"
  shows "db_ok (db\<lparr>db_users := sql_update_where (\<lambda>x. u_id x = i) f (db_users db)\<rparr>)"
  using update_users_ok(1) [OF assms(1,2) _ refl] assms(3) db_okD(2) [OF assms(1)]
  by (simp add: sql_update_where_map)

lemma schema_keeps:
  "db_ok db \<Longrightarrow> sql_create_object n db = Some db' \<Longrightarrow> db_ok db'"
  "db_ok db \<Longrightarrow> sql_add_column n db = Some db' \<Longrightarrow> db_ok db'"
  by (auto simp: sql_create_object_def sql_add_column_def db_ok_def has_user_id_def split: if_splits)

lemma sqlite_init_keeps: "keeps db_ok (sqlite_init_schema E now)"
  unfolding sqlite_init_schema_def
  by (intro keeps_intros sqlite_exec_keeps) (auto intro: schema_keeps insert_room_ok)

lemma sqlite_open_keeps: "keeps db_ok (sqlite_open E)"
  unfolding sqlite_open_def by (intro keeps_intros sqlite_exec_keeps) simp

lemma store_envelope_keeps:
  assumes "db_ok db"
  shows "db_ok (snd (sqlite_store_room_key_envelope E now i s n e pl db))"
proof -
  obtain ok db1 where w: "sq_write E [''room_key_envelopes'']
      (sql_insert_envelope i (c_str s) (c_str n) e (c_str pl) now) db = (ok, db1)" by force
  have "db_ok db1"
    using w by (metis assms insert_envelope_ok(1) snd_conv sq_write_keeps)
  then show ?thesis
    by (simp add: sqlite_store_room_key_envelope_def w sq_write_keeps trim_envelopes_ok(1))
qed

lemma take_envelopes_keeps:
  assumes "db_ok db"
  shows "db_ok (snd (sqlite_take_room_key_envelopes E i db))"
  using assms
  by (auto simp: sqlite_take_room_key_envelopes_def sq_prepare_def Let_def
      intro!: sq_write_keeps filter_envelopes_ok split: option.splits)

lemma sqlite_step_keeps: "sqlite_step E db db' \<Longrightarrow> db_ok db \<Longrightarrow> db_ok db'"
proof (induction rule: sqlite_step.induct)
  case (13 db n)
  then show ?case using bump_epoch_view(1) by (metis prod.collapse)
qed (auto simp: sqlite_create_user_def sqlite_update_last_login_def sqlite_update_password_def
      sqlite_rename_user_def sqlite_create_room_def sqlite_store_message_def sqlite_store_public_key_def
      sqlite_select_keeps update_users_keeps store_envelope_keeps take_envelopes_keeps
      dest: keepsD [OF sqlite_open_keeps] keepsD [OF sqlite_init_keeps]
      intro!: sq_write_keeps intro: insert_user_ok rename_user_ok insert_room_ok insert_message_ok
        replace_key_ok)


lemma sqlite_select_view:
  "sqlite_view (snd (sqlite_get_public_key_by_username E u db)) = sqlite_view db"
  "sqlite_view (snd (sqlite_get_room E r db)) = sqlite_view db"
  "sqlite_view (snd (sqlite_list_rooms E db)) = sqlite_view db"
  by (simp_all add: sqlite_get_public_key_by_username_def sqlite_get_room_def
      sqlite_list_rooms_def sq_prepare_def Let_def)

lemma store_message_view: "sqlite_view (snd (sqlite_store_message E m db)) = sqlite_view db"
  by (auto simp: sqlite_store_message_def sq_write_def sq_prepare_def sql_insert_message_def sqlite_view_def
      split: option.split)

interpretation sq: storage_contract "sqlite_storage E" sqlite_view db_ok for E
proof (unfold_locales, goal_cases)
  case (1 st i x)
  then have "x \<in> set (db_users st)" "u_id x = i"
    by (auto simp: sqlite_view_def find_Some_iff)
  with db_okD(1) [OF 1(1)] show ?case by (auto simp: table_ids_def)
next
  case (2 st i x k y)
  then have "x \<in> set (db_users st)" "u_id x = i" "y \<in> set (db_users st)" "u_id y = k"
    by (auto simp: sqlite_view_def find_Some_iff)
  with db_okD(2) [OF 2(1)] 2(4) show ?case by (metis distinct_map inj_onD)
next
  case (3 st now u h ok st')
  then have "sq_write E [''users''] (sql_insert_user (c_str u) (c_str h) now) st = (ok, st')"
    by (simp add: sqlite_storage_def sqlite_create_user_def)
  then show ?case
  proof (cases rule: sq_writeE)
    case (completed n)
    with insert_user_ok [OF _ completed(2)] 3(1) show ?thesis by simp
  qed (use 3(1) in simp)
next
  case (4 st i r st')
  then have g: "sqlite_get_user E i st = (r, st')" by (simp add: sqlite_storage_def)
  then have "r = Some x \<Longrightarrow> v_user (sqlite_view st) i = Some x" for x
    by (auto simp: sqlite_get_user_def sqlite_view_def dest!: find_filter_first
        split: prod.splits option.splits elim!: sq_prepareE)
  with sqlite_select_pure(1) [OF g] 4(1) show ?case by auto
next
  case (5 st u r st')
  then have g: "sqlite_get_user_by_username E u st = (r, st')" by (simp add: sqlite_storage_def)
  then have "r = Some x \<Longrightarrow> x \<in> set (db_users st) \<and> u_username x = c_str u" for x
    by (auto simp: sqlite_get_user_by_username_def find_Some_iff dest!: find_filter_first
        split: prod.splits option.splits elim!: sq_prepareE)
  with sqlite_select_pure(2) [OF g] 5(1) find_by_id [OF db_okD(1) [OF 5(1)]] show ?case
    by (auto simp: sqlite_view_def)
next
  case (6 st now i ok st')
  then have "sqlite_update_last_login E now i st = (ok, st')" by (simp add: sqlite_storage_def)
  then show ?case unfolding sqlite_update_last_login_def
  proof (cases rule: sq_writeE)
    case (completed n)
    with update_users_ok [of "st\<lparr>db_ticks := n\<rparr>" "\<lambda>x. x\<lparr>u_last_login := now\<rparr>" i st'] 6(1) db_okD(2) [OF 6(1)]
    show ?thesis by (simp add: sql_update_where_map)
  qed (use 6(1) in simp)
next
  case (7 st i h ok st')
  then have "sqlite_update_password E i h st = (ok, st')" by (simp add: sqlite_storage_def)
  then show ?case unfolding sqlite_update_password_def
  proof (cases rule: sq_writeE)
    case (completed n)
    with update_users_ok [of "st\<lparr>db_ticks := n\<rparr>" "\<lambda>x. x\<lparr>u_password_hash := c_str h\<rparr>" i st'] 7(1) db_okD(2) [OF 7(1)]
    show ?thesis by (simp add: sql_update_where_map)
  qed (use 7(1) in simp)
next
  case (8 st i n ok st')
  then have "sqlite_rename_user E i n st = (ok, st')" by (simp add: sqlite_storage_def)
  then show ?case unfolding sqlite_rename_user_def
  proof (cases rule: sq_writeE)
    case (completed t)
    with rename_user_ok [OF _ completed(2)] 8(1) show ?thesis by simp
  qed (use 8(1) in simp)
next
  case (9 st rm e st')
  then have g: "sqlite_room_epoch E rm st = (e, st')" by (simp add: sqlite_storage_def)
  with sqlite_select_pure(3) [OF g] sqlite_room_epoch_val [OF g] 9(1) show ?case by auto
next
  case (10 st rm e st')
  then have "sqlite_bump_room_epoch E rm st = (e, st')" by (simp add: sqlite_storage_def)
  from bump_epoch_view [OF 10(1) this] show ?case by blast
next
  case (11 st i pk st')
  then have g: "sqlite_get_public_key E i st = (pk, st')" by (simp add: sqlite_storage_def)
  then have "pk = Some z \<Longrightarrow> v_key (sqlite_view st) i = Some z" for z
    by (auto simp: sqlite_get_public_key_def sqlite_view_def dest!: find_filter_first
        split: prod.splits option.splits elim!: sq_prepareE)
  with sqlite_select_pure(4) [OF g] 11(1) show ?case by auto
next
  case (12 st now i key ok st')
  then have "sqlite_store_public_key E now i key st = (ok, st')" by (simp add: sqlite_storage_def)
  then show ?case unfolding sqlite_store_public_key_def
  proof (cases rule: sq_writeE)
    case (completed t)
    with replace_key_ok [OF _ completed(2)] 12(1) show ?thesis
      by (auto simp: has_user_id_def sqlite_view_def find_None_iff)
  qed (use 12(1) in simp)
next
  case (13 st now rm d)
  then show ?case using sqlite_step_keeps [OF sqlite_step.intros(9)] by (simp add: sqlite_storage_def)
next
  case (14 st rm)
  then show ?case by (simp add: sqlite_storage_def sqlite_select_keeps sqlite_select_view)
next
  case (15 st)
  then show ?case by (simp add: sqlite_storage_def sqlite_select_keeps sqlite_select_view)
next
  case (16 st msg)
  then show ?case using sqlite_step_keeps [OF sqlite_step.intros(14)]
    by (simp add: sqlite_storage_def store_message_view)
next
  case (17 st u)
  then show ?case by (simp add: sqlite_storage_def sqlite_select_keeps sqlite_select_view)
next
  case (18 st now i s rm ep pl)
  then show ?case by (simp add: sqlite_storage_def store_envelope_keeps)
next
  case (19 st i)
  then show ?case by (simp add: sqlite_storage_def take_envelopes_keeps)
qed

text \<open>
  C18: Whatever methods run on a database that started empty, in whatever order and
  with whatever engine failures, the tables stay consistent: user names and ids are
  unique, ids stay within the sequence, every stored message, public key and queued
  envelope refers to an existing user, and every room epoch is at least one.
\<close>

theorem sqlite_reachable_ok:
  assumes "(sqlite_step E)\<^sup>*\<^sup>* sqlite_empty db"
  shows "db_ok db"
  using assms
proof (induction rule: rtranclp_induct)
  case base
  show ?case by (simp add: db_ok_def sqlite_empty_def table_ids_def)
next
  case (step db1 db2)
  then show ?case by (blast intro: sqlite_step_keeps)
qed

definition sql_reliable :: sql_engine where
  "sql_reliable = \<lparr>sql_prepare_ok = (\<lambda>_. True), sql_step_error = (\<lambda>_. None)\<rparr>"

lemmas sqlite_eval = effect_simps sqlite_init_schema_def sql_insert_or_ignore_room_def sqlite_exec_def
  sq_prepare_def sql_reliable_def sq_done_def sql_create_object_def sqlite_empty_def uset_insert_def
  sql_add_column_def sql_next_id_def sql_max_int_def sq_write_def sql_insert_user_def c_str_def
  sqlite_create_user_def sqlite_view_def

definition sqlite_sample :: sqlite_db where
  "sqlite_sample = snd (sqlite_create_user sql_reliable 10 ''ann'' ''h1''
     (snd (sqlite_init_schema sql_reliable 9 sqlite_empty)))"

lemma sqlite_sample_eq: "sqlite_sample = \<lparr>db_objects = [''users'', ''rooms'', ''messages'', ''idx_messages_room'',
    ''idx_users_username'', ''user_keys'', ''rooms.epoch'', ''room_key_envelopes'', ''idx_rke_recipient''],
    db_ticks = 11,
    db_users = [\<lparr>u_id = 1, u_username = ''ann'', u_password_hash = ''h1'', u_created_at = 10,
      u_last_login = 0, u_active = True\<rparr>], db_users_seq = 1,
    db_rooms = [\<lparr>r_id = 1, r_name = ''general'', r_description = ''General discussion'',
      r_created_at = 9, r_is_private = False, rr_epoch = 1\<rparr>], db_rooms_seq = 1,
    db_messages = [], db_messages_seq = 0, db_keys = [], db_envelopes = [], db_envelopes_seq = 0\<rparr>"
  by (simp add: sqlite_sample_def sqlite_eval)

lemma sqlite_sample_reach: "(sqlite_step sql_reliable)\<^sup>*\<^sup>* sqlite_empty sqlite_sample"
proof -
  have "sqlite_step sql_reliable sqlite_empty (snd (sqlite_init_schema sql_reliable 9 sqlite_empty))"
    by (rule sqlite_step.intros(2))
  moreover have "sqlite_step sql_reliable (snd (sqlite_init_schema sql_reliable 9 sqlite_empty)) sqlite_sample"
    unfolding sqlite_sample_def by (rule sqlite_step.intros(3))
  ultimately show ?thesis by (meson converse_rtranclp_into_rtranclp rtranclp.rtrancl_refl)
qed

lemma sqlite_sample_ok: "db_ok sqlite_sample"
proof -
  have "db_ok sqlite_empty" by (simp add: db_ok_def sqlite_empty_def table_ids_def)
  then show ?thesis unfolding sqlite_sample_def
    by (intro sqlite_step_keeps [OF sqlite_step.intros(3)] sqlite_step_keeps [OF sqlite_step.intros(2)])
qed

theorem sqlite_reachable_ok_witness: "db_ok sqlite_sample"
  by (rule sqlite_reachable_ok [OF sqlite_sample_reach])

text \<open>
  An account that was created can only be found with the name and hash it was
  created with, active and with a non-zero id; creating the same name again is
  refused and leaves users, keys, epochs and queues as they were.
\<close>

theorem sqlite_account_unique:
  assumes "db_ok db" and "sqlite_create_user E now u h db = (True, db1)"
  shows "(\<forall>x db2. sqlite_get_user_by_username E u db1 = (Some x, db2) \<longrightarrow>
            u_username x = c_str u \<and> u_password_hash x = c_str h \<and> u_active x \<and> u_id x \<noteq> 0)
    \<and> (\<forall>now' h' ok db2. sqlite_create_user E now' u h' db1 = (ok, db2) \<longrightarrow>
            \<not> ok \<and> sqlite_view db2 = sqlite_view db1)"
proof -
  have c: "st_create_user (sqlite_storage E) now u h db = (True, db1)"
    using assms(2) by (simp add: sqlite_storage_def)
  from sq.create_user [OF assms(1) c] obtain i where ok1: "db_ok db1"
    and "sqlite_view db1 = (sqlite_view db)\<lparr>v_user := (v_user (sqlite_view db))(i \<mapsto>
      \<lparr>u_id = i, u_username = c_str u, u_password_hash = c_str h, u_created_at = now,
       u_last_login = 0, u_active = True\<rparr>)\<rparr>"
    by auto
  then have "v_user (sqlite_view db1) i = Some \<lparr>u_id = i, u_username = c_str u,
      u_password_hash = c_str h, u_created_at = now, u_last_login = 0, u_active = True\<rparr>"
    by simp
  from sq.name_taken [OF ok1 this, of u E] sq.created_user_found [OF assms(1) c]
  show ?thesis by (simp add: sqlite_storage_def) blast
qed

theorem sqlite_account_unique_witness:
  "\<not> fst (sqlite_create_user sql_reliable 11 ''ann'' ''h2'' sqlite_sample)"
proof -
  let ?db = "snd (sqlite_init_schema sql_reliable 9 sqlite_empty)"
  have "fst (sqlite_create_user sql_reliable 10 ''ann'' ''h1'' ?db)" by (simp add: sqlite_eval)
  then have c: "sqlite_create_user sql_reliable 10 ''ann'' ''h1'' ?db = (True, sqlite_sample)"
    by (simp add: sqlite_sample_def prod_eq_iff)
  have "db_ok sqlite_empty" by (simp add: db_ok_def sqlite_empty_def table_ids_def)
  then have "db_ok ?db" by (rule sqlite_step_keeps [OF sqlite_step.intros(2)])
  from sqlite_account_unique [OF this c] show ?thesis by (metis prod.collapse)
qed

definition sqlite_ready :: "sqlite_db \<Rightarrow> bool" where
  "sqlite_ready db \<longleftrightarrow> {''users'', ''rooms'', ''messages'', ''user_keys'', ''rooms.epoch'',
     ''room_key_envelopes''} \<subseteq> set (db_objects db)"

lemma reliable_simps:
  "sq_done sql_reliable t"
  "sq_rows sql_reliable t xs = xs"
  "sq_prepare sql_reliable objs db = (if list_all (\<lambda>x. x \<in> set (db_objects db)) objs
     then Some (db_ticks db) else None, db\<lparr>db_ticks := Suc (db_ticks db)\<rparr>)"
  by (simp_all add: sq_done_def sq_rows_def sq_prepare_def sql_reliable_def)

lemma reliable_write:
  "list_all (\<lambda>x. x \<in> set (db_objects db)) objs \<Longrightarrow>
   sq_write sql_reliable objs f db = (case f (db\<lparr>db_ticks := Suc (db_ticks db)\<rparr>) of
      None \<Rightarrow> (False, db\<lparr>db_ticks := Suc (db_ticks db)\<rparr>) | Some db' \<Rightarrow> (True, db'))"
  by (simp add: sq_write_def reliable_simps)

text \<open>
  With a working engine, bumping an existing room's epoch (below the largest
  integer) returns the successor of the old epoch, the room then reports that
  epoch, and no other room, user, key or queue changes.
\<close>

theorem sqlite_bump_exact:
  assumes "db_ok db" and "sqlite_ready db" and "v_epoch (sqlite_view db) (c_str r) = Some e"
    and "e \<noteq> sql_max_int"
  shows "fst (sqlite_bump_room_epoch sql_reliable r db) = e + 1
    \<and> fst (sqlite_room_epoch sql_reliable r (snd (sqlite_bump_room_epoch sql_reliable r db))) = e + 1
    \<and> sqlite_view (snd (sqlite_bump_room_epoch sql_reliable r db))
        = (sqlite_view db)\<lparr>v_epoch := (v_epoch (sqlite_view db))(c_str r \<mapsto> e + 1)\<rparr>"
proof -
  let ?db = "db\<lparr>db_ticks := Suc (db_ticks db)\<rparr>"
  define db1 where "db1 = ?db\<lparr>db_rooms := sql_update_where (\<lambda>x. r_name x = c_str r)
      (\<lambda>x. x\<lparr>rr_epoch := sql_incr (rr_epoch x)\<rparr>) (db_rooms ?db)\<rparr>"
  have v: "sqlite_view db1 = (sqlite_view db)\<lparr>v_epoch := (v_epoch (sqlite_view db))(c_str r \<mapsto> e + 1)\<rparr>"
    using bump_rooms_ok(2) [OF _ db1_def] assms(1,3,4) by (simp add: sql_incr_def)
  have rd: "sqlite_room_epoch sql_reliable r d = (e + 1, d\<lparr>db_ticks := Suc (db_ticks d)\<rparr>)"
    if "sqlite_view d = sqlite_view db1" "sqlite_ready d" for d
  proof -
    have "v_epoch (sqlite_view d) (c_str r) = Some (e + 1)" by (simp add: that(1) v)
    then obtain x where "find (\<lambda>x. r_name x = c_str r) (db_rooms d) = Some x" "rr_epoch x = e + 1"
      by (auto simp: sqlite_view_def)
    with that(2) show ?thesis
      by (simp add: sqlite_room_epoch_def reliable_simps sqlite_ready_def sq_first_ok)
  qed
  have "sqlite_ready db1" using assms(2) by (simp add: sqlite_ready_def db1_def)
  moreover have "sqlite_bump_room_epoch sql_reliable r db = sqlite_room_epoch sql_reliable r db1"
    using assms(2) by (simp add: sqlite_bump_room_epoch_def reliable_write sqlite_ready_def db1_def)
  ultimately show ?thesis using rd [of db1] rd [of "db1\<lparr>db_ticks := Suc (db_ticks db1)\<rparr>"] v
    by (simp add: sqlite_ready_def)
qed

theorem sqlite_bump_exact_witness:
  "fst (sqlite_bump_room_epoch sql_reliable ''general'' sqlite_sample) = 2"
proof -
  have r: "sqlite_ready sqlite_sample" by (simp add: sqlite_ready_def sqlite_sample_eq)
  have e: "v_epoch (sqlite_view sqlite_sample) (c_str ''general'') = Some 1"
    by (simp add: sqlite_sample_eq sqlite_eval)
  show ?thesis using sqlite_bump_exact [OF sqlite_sample_ok r e] by (simp add: sql_max_int_def)
qed


lemma sqlite_take_reliable:
  assumes "db_ok db" and "sqlite_ready db"
  shows "fst (sqlite_take_room_key_envelopes sql_reliable r db) = v_queue (sqlite_view db) r"
    and "sqlite_view (snd (sqlite_take_room_key_envelopes sql_reliable r db))
      = (sqlite_view db)\<lparr>v_queue := (v_queue (sqlite_view db))(r := [])\<rparr>"
    and "db_ok (snd (sqlite_take_room_key_envelopes sql_reliable r db))"
    and "sqlite_ready (snd (sqlite_take_room_key_envelopes sql_reliable r db))"
proof -
  let ?mine = "filter (\<lambda>x. er_recipient_id x = r) (db_envelopes db)"
  have o: "sql_order_by_id e_id ?mine = ?mine"
    by (rule table_ids_order [OF table_ids_filter [OF db_okD(7) [OF assms(1)]]])
  have f: "filter (\<lambda>x. er_recipient_id x \<noteq> r \<and> er_recipient_id x = j) xs
      = (if j = r then [] else filter (\<lambda>x. er_recipient_id x = j) xs)" for j and xs :: "envelope_row list"
    by (auto simp: filter_empty_conv intro: filter_cong)
  have "''room_key_envelopes'' \<in> set (db_objects db)" using assms(2) by (simp add: sqlite_ready_def)
  then have t: "sqlite_take_room_key_envelopes sql_reliable r db =
      (if ?mine \<noteq> [] then (map room_key_envelope.truncate ?mine,
         db\<lparr>db_ticks := Suc (Suc (db_ticks db)),
            db_envelopes := filter (\<lambda>x. er_recipient_id x \<noteq> r) (db_envelopes db)\<rparr>)
       else ([], db\<lparr>db_ticks := Suc (db_ticks db)\<rparr>))"
    by (simp add: sqlite_take_room_key_envelopes_def reliable_simps reliable_write o Let_def)
  show "fst (sqlite_take_room_key_envelopes sql_reliable r db) = v_queue (sqlite_view db) r"
    by (simp add: t sqlite_view_def)
  have e: "fun_upd (\<lambda>i. map room_key_envelope.truncate (filter (\<lambda>x. er_recipient_id x = i) (db_envelopes db))) r []
      = (\<lambda>i. map room_key_envelope.truncate (filter (\<lambda>x. er_recipient_id x = i) (db_envelopes db)))"
    if "?mine = []"
    using that by (simp add: fun_eq_iff)
  show "sqlite_view (snd (sqlite_take_room_key_envelopes sql_reliable r db))
      = (sqlite_view db)\<lparr>v_queue := (v_queue (sqlite_view db))(r := [])\<rparr>"
    unfolding t using e by (auto simp: sqlite_view_def f fun_eq_iff)
  show "db_ok (snd (sqlite_take_room_key_envelopes sql_reliable r db))"
    by (rule take_envelopes_keeps [OF assms(1)])
  show "sqlite_ready (snd (sqlite_take_room_key_envelopes sql_reliable r db))"
    using assms(2) by (simp add: t sqlite_ready_def)
qed

lemma sqlite_store_envelope_reliable:
  assumes "db_ok db" and "sqlite_ready db" and "has_user_id r db" and "db_envelopes_seq db \<noteq> sql_max_int"
  shows "\<exists>i db'. sqlite_store_room_key_envelope sql_reliable now r s n e p db = (True, db') \<and>
     db_ok db' \<and> sqlite_ready db' \<and>
     sqlite_view db' = (sqlite_view db)\<lparr>v_queue := (v_queue (sqlite_view db))(r :=
        (let q = v_queue (sqlite_view db) r @
            [\<lparr>e_id = i, e_sender = c_str s, e_room = c_str n, e_epoch = e, e_payload = c_str p\<rparr>]
         in drop (length q - MAX_QUEUED_ENVELOPES) q))\<rparr>"
proof -
  let ?db = "db\<lparr>db_ticks := Suc (db_ticks db)\<rparr>"
  obtain db1 where ins: "sql_insert_envelope r (c_str s) (c_str n) e (c_str p) now ?db = Some db1"
    and sch: "db_objects db1 = db_objects db"
    using assms(3,4) by (auto simp: sql_insert_envelope_def sql_next_id_def has_user_id_def)
  have ok: "db_ok ?db" using assms(1) by simp
  obtain db2 where tr: "sql_trim_envelopes r (db1\<lparr>db_ticks := Suc (db_ticks db1)\<rparr>) = Some db2"
    and sch2: "db_objects db2 = db_objects db1"
    by (simp add: sql_trim_envelopes_def Let_def)
  have ok1: "db_ok (db1\<lparr>db_ticks := Suc (db_ticks db1)\<rparr>)" using insert_envelope_ok(1) [OF ok ins] by simp
  have obj: "''room_key_envelopes'' \<in> set (db_objects db)" using assms(2) by (simp add: sqlite_ready_def)
  then have st: "sqlite_store_room_key_envelope sql_reliable now r s n e p db = (True, db2)"
    by (simp add: sqlite_store_room_key_envelope_def reliable_write ins sch tr)
  obtain i where v1: "sqlite_view db1 = (sqlite_view db)\<lparr>v_queue := (v_queue (sqlite_view db))(r :=
      v_queue (sqlite_view db) r @
        [\<lparr>e_id = i, e_sender = c_str s, e_room = c_str n, e_epoch = e, e_payload = c_str p\<rparr>])\<rparr>"
    using insert_envelope_ok(2) [OF ok ins] by auto
  have "sqlite_view db2 = (sqlite_view db)\<lparr>v_queue := (v_queue (sqlite_view db))(r :=
        (let q = v_queue (sqlite_view db) r @
            [\<lparr>e_id = i, e_sender = c_str s, e_room = c_str n, e_epoch = e, e_payload = c_str p\<rparr>]
         in drop (length q - MAX_QUEUED_ENVELOPES) q))\<rparr>"
    using trim_envelopes_ok(2) [OF ok1 tr] by (simp add: v1 Let_def)
  with st trim_envelopes_ok(1) [OF ok1 tr] sch sch2 assms(2) show ?thesis
    by (metis sqlite_ready_def)
qed

text \<open>
  C19: With a working engine, queueing a room key envelope for an existing user
  appends it to that user's queue and keeps only the newest 1000, in order; a
  following take returns the whole queue oldest first, and the next take returns
  nothing. Other users' queues, and all users, keys and epochs, do not change.
\<close>

theorem sqlite_envelope_queue:
  assumes "db_ok db" and "sqlite_ready db" and "has_user_id r db" and "db_envelopes_seq db \<noteq> sql_max_int"
  shows "\<exists>i db'. sqlite_store_room_key_envelope sql_reliable now r s n e p db = (True, db') \<and>
     v_queue (sqlite_view db') r =
       (let q = v_queue (sqlite_view db) r @
            [\<lparr>e_id = i, e_sender = c_str s, e_room = c_str n, e_epoch = e, e_payload = c_str p\<rparr>]
        in drop (length q - 1000) q) \<and>
     length (v_queue (sqlite_view db') r) \<le> 1000 \<and>
     fst (sqlite_take_room_key_envelopes sql_reliable r db') = v_queue (sqlite_view db') r \<and>
     (let db'' = snd (sqlite_take_room_key_envelopes sql_reliable r db') in
       fst (sqlite_take_room_key_envelopes sql_reliable r db'') = [] \<and>
       sqlite_view db'' = (sqlite_view db)\<lparr>v_queue := (v_queue (sqlite_view db))(r := [])\<rparr>)"
proof -
  from sqlite_store_envelope_reliable [OF assms] obtain i db' where
    st: "sqlite_store_room_key_envelope sql_reliable now r s n e p db = (True, db')"
    and ok: "db_ok db'" and rdy: "sqlite_ready db'"
    and v: "sqlite_view db' = (sqlite_view db)\<lparr>v_queue := (v_queue (sqlite_view db))(r :=
        (let q = v_queue (sqlite_view db) r @
            [\<lparr>e_id = i, e_sender = c_str s, e_room = c_str n, e_epoch = e, e_payload = c_str p\<rparr>]
         in drop (length q - MAX_QUEUED_ENVELOPES) q))\<rparr>"
    by blast
  note t = sqlite_take_reliable [OF ok rdy, of r]
  note t2 = sqlite_take_reliable [OF t(3,4), of r]
  show ?thesis
    by (rule exI [of _ i], rule exI [of _ db'])
      (simp add: st t t2(1) v Let_def MAX_QUEUED_ENVELOPES_def)
qed

theorem sqlite_envelope_queue_witness:
  "\<exists>i db'. sqlite_store_room_key_envelope sql_reliable 20 1 ''bob'' ''general'' 3 ''k'' sqlite_sample = (True, db') \<and>
     fst (sqlite_take_room_key_envelopes sql_reliable 1 db') =
       [\<lparr>e_id = i, e_sender = ''bob'', e_room = ''general'', e_epoch = 3, e_payload = ''k''\<rparr>]"
proof -
  have "sqlite_ready sqlite_sample" "has_user_id 1 sqlite_sample" "db_envelopes_seq sqlite_sample \<noteq> sql_max_int"
    "v_queue (sqlite_view sqlite_sample) 1 = []"
    by (simp_all add: sqlite_ready_def sqlite_sample_eq has_user_id_def sql_max_int_def sqlite_view_def)
  with sqlite_envelope_queue [OF sqlite_sample_ok this(1-3), of 20 "''bob''" "''general''" 3 "''k''"]
  show ?thesis by (auto simp: c_str_def Let_def)
qed

text \<open>
  With a working engine, the history of a room is the last \<open>limit\<close> of its stored
  messages in chronological order; with a page bound, of those with a smaller id.
\<close>

theorem sqlite_history:
  assumes "db_ok db" and "''messages'' \<in> set (db_objects db)" and "unat limit < 2 ^ 31"
  shows "fst (sqlite_get_room_messages sql_reliable room limit before_id db) =
    (let sel = filter (\<lambda>m. smsg_room m = c_str room \<and>
           (before_id > 0 \<longrightarrow> sint (smsg_id m) < sint before_id)) (db_messages db)
     in drop (length sel - unat limit) sel)"
proof -
  have "int (unat limit) < int (2 ^ 31)" using assms(3) by (simp only: of_nat_less_iff)
  then have u: "uint limit < 2 ^ 31" unfolding uint_nat by (simp only: of_nat_power of_nat_numeral)
  moreover have "- (2 ^ 31) \<le> uint limit" by (rule order.trans [OF _ uint_ge_0]) simp
  ultimately have "sint (ucast limit :: 32 word) = uint limit"
    by (simp add: sint_uint unsigned_ucast_eq take_bit_int_eq_self signed_take_bit_int_eq_self)
  then have "sint (ucast limit :: 32 word) = int (unat limit)" unfolding uint_nat .
  then have l: "sql_limit (sint (ucast limit :: 32 word)) xs = take (unat limit) xs" for xs :: "stored_message list"
    by (simp add: sql_limit_def)
  have o: "sql_order_by_id smsg_id (filter P (db_messages db)) = filter P (db_messages db)" for P
    by (rule table_ids_order [OF table_ids_filter [OF db_okD(5) [OF assms(1)]]])
  show ?thesis
    using assms(2) by (simp add: sqlite_get_room_messages_def reliable_simps Let_def o l rev_take take_rev)
qed


definition sqlite_sample_history :: sqlite_db where
  "sqlite_sample_history = sqlite_sample\<lparr>db_messages :=
      [\<lparr>smsg_id = 1, smsg_message_id = ''a'', smsg_sender_id = 1, smsg_room = ''r'', smsg_content = ''x'', smsg_created_at = 5\<rparr>,
       \<lparr>smsg_id = 2, smsg_message_id = ''b'', smsg_sender_id = 1, smsg_room = ''r'', smsg_content = ''y'', smsg_created_at = 6\<rparr>],
      db_messages_seq := 2\<rparr>"

theorem sqlite_history_witness:
  "map smsg_content (fst (sqlite_get_room_messages sql_reliable ''r'' 1 0 sqlite_sample_history)) = [''y'']"
proof -
  have "db_ok sqlite_sample_history"
    using sqlite_sample_ok
    by (simp add: db_ok_def table_ids_def has_user_id_def sqlite_sample_eq sqlite_sample_history_def)
  moreover have "''messages'' \<in> set (db_objects sqlite_sample_history)"
    by (simp add: sqlite_sample_eq sqlite_sample_history_def)
  ultimately show ?thesis
    using sqlite_history [of sqlite_sample_history 1 "''r''" 0]
    by (simp add: c_str_def sqlite_sample_history_def)
qed

text \<open>
  C21: When reading the queue fails after some but not all rows, the envelopes read so
  far are returned and the following DELETE still removes the whole queue: the
  rest is lost.
\<close>

theorem sqlite_take_partial_read_loses:
  assumes "db_ok db" and "sqlite_ready db" and "sql_prepare_ok E = (\<lambda>_. True)"
    and "sql_step_error E (db_ticks db) = Some k" and "sql_step_error E (Suc (db_ticks db)) = None"
    and "0 < k" and "k < length (v_queue (sqlite_view db) r)"
  shows "fst (sqlite_take_room_key_envelopes E r db) = take k (v_queue (sqlite_view db) r) \<and>
    v_queue (sqlite_view (snd (sqlite_take_room_key_envelopes E r db))) r = []"
proof -
  have o: "sql_order_by_id e_id (filter (\<lambda>x. er_recipient_id x = r) (db_envelopes db))
      = filter (\<lambda>x. er_recipient_id x = r) (db_envelopes db)"
    by (rule table_ids_order [OF table_ids_filter [OF db_okD(7) [OF assms(1)]]])
  have "''room_key_envelopes'' \<in> set (db_objects db)" using assms(2) by (simp add: sqlite_ready_def)
  with assms(3-7) o show ?thesis
    by (auto simp: sqlite_take_room_key_envelopes_def sq_prepare_def sq_rows_def sq_write_def sq_done_def
        sqlite_view_def take_map Let_def)
qed

definition sqlite_sample_queue :: sqlite_db where
  "sqlite_sample_queue = sqlite_sample\<lparr>db_envelopes :=
      [\<lparr>e_id = 1, e_sender = ''b'', e_room = ''r'', e_epoch = 1, e_payload = ''x'', er_recipient_id = 1, er_created_at = 0\<rparr>,
       \<lparr>e_id = 2, e_sender = ''c'', e_room = ''r'', e_epoch = 1, e_payload = ''y'', er_recipient_id = 1, er_created_at = 0\<rparr>],
      db_envelopes_seq := 2\<rparr>"

definition sql_failing_read :: sql_engine where
  "sql_failing_read = \<lparr>sql_prepare_ok = (\<lambda>_. True), sql_step_error = (\<lambda>t. if t = 11 then Some 1 else None)\<rparr>"

theorem sqlite_take_partial_read_loses_witness:
  "length (v_queue (sqlite_view sqlite_sample_queue) 1) = 2 \<and>
   length (fst (sqlite_take_room_key_envelopes sql_failing_read 1 sqlite_sample_queue)) = 1 \<and>
   v_queue (sqlite_view (snd (sqlite_take_room_key_envelopes sql_failing_read 1 sqlite_sample_queue))) 1 = []"
proof -
  have "db_ok sqlite_sample_queue"
    using sqlite_sample_ok
    by (simp add: db_ok_def table_ids_def has_user_id_def sqlite_sample_eq sqlite_sample_queue_def)
  moreover have "sqlite_ready sqlite_sample_queue"
    by (simp add: sqlite_ready_def sqlite_sample_eq sqlite_sample_queue_def)
  moreover have "length (v_queue (sqlite_view sqlite_sample_queue) 1) = 2" "db_ticks sqlite_sample_queue = 11"
    by (simp_all add: sqlite_sample_queue_def sqlite_sample_eq sqlite_view_def)
  ultimately show ?thesis
    using sqlite_take_partial_read_loses [of sqlite_sample_queue sql_failing_read 1 1]
    by (simp add: sql_failing_read_def)
qed

end
