(* ===== verification/Auth_Service.thy ===== *)
theory Auth_Service
  imports Protocol Sqlite_Storage
begin

text \<open>
  \<^verbatim>\<open>server/auth/auth_service.{hpp,cpp}\<close> and \<^verbatim>\<open>common/crypto/hash.hpp\<close>: registration, login and
  the username and password rules. Password hashing itself is libsodium's: the
  record \<open>pwhash_api\<close> is a parameter, and its random salt is an argument. The lemmas
  about \<^verbatim>\<open>AuthService\<close> are proved once from the storage contract and reach the SQLite
  backend through its interpretation.
\<close>

record pwhash_api =
  crypto_pwhash_str :: "u64 \<Rightarrow> string \<Rightarrow> string option"
  crypto_pwhash_str_verify :: "string \<Rightarrow> string \<Rightarrow> bool"
  crypto_pwhash_str_needs_rehash :: "string \<Rightarrow> bool"

text \<open>Documented behaviour: a hash verifies the password it was made from and no other.\<close>

definition pwhash_ok :: "pwhash_api \<Rightarrow> bool" where
  "pwhash_ok H \<longleftrightarrow> (\<forall>salt p h. crypto_pwhash_str H salt p = Some h \<longrightarrow>
     (\<forall>q. crypto_pwhash_str_verify H (c_str h) q \<longleftrightarrow> q = p))"

definition hasher_hash :: "pwhash_api \<Rightarrow> u64 \<Rightarrow> string \<Rightarrow> string option" where
  "hasher_hash H salt password = map_option c_str (crypto_pwhash_str H salt password)"

definition hasher_verify :: "pwhash_api \<Rightarrow> string \<Rightarrow> string \<Rightarrow> bool" where
  "hasher_verify H password hash = crypto_pwhash_str_verify H (c_str hash) password"

definition hasher_needs_rehash :: "pwhash_api \<Rightarrow> string \<Rightarrow> bool" where
  "hasher_needs_rehash H hash = crypto_pwhash_str_needs_rehash H (c_str hash)"

datatype auth_result = SUCCESS | INVALID_USERNAME | INVALID_PASSWORD | USER_EXISTS
  | USER_NOT_FOUND | WRONG_PASSWORD | STORAGE_ERROR

section \<open>Name and password rules\<close>

definition name_char :: "char \<Rightarrow> bool" where
  "name_char c \<longleftrightarrow> isalpha_c c \<or> isdigit_c c \<or> c = CHR ''_'' \<or> c = CHR ''-''"

definition is_valid_username :: "string \<Rightarrow> bool" where
  "is_valid_username u \<longleftrightarrow>
     \<not> (length u < MIN_USERNAME_LENGTH \<or> length u > MAX_USERNAME_LENGTH) \<and>
     (case u of [] \<Rightarrow> False | c # cs \<Rightarrow> isalpha_c c \<and> list_all name_char cs)"

fun password_classes :: "string \<Rightarrow> bool \<times> bool \<times> bool \<times> bool \<Rightarrow> bool \<times> bool \<times> bool \<times> bool" where
  "password_classes [] r = r"
| "password_classes (c # cs) (upper, lower, digit, special) =
     (if isupper_c c then password_classes cs (True, lower, digit, special)
      else if islower_c c then password_classes cs (upper, True, digit, special)
      else if isdigit_c c then password_classes cs (upper, lower, True, special)
      else password_classes cs (upper, lower, digit, True))"

definition is_valid_password :: "string \<Rightarrow> bool" where
  "is_valid_password p =
     (if length p < MIN_PASSWORD_LENGTH \<or> length p > MAX_PASSWORD_LENGTH then False
      else case password_classes p (False, False, False, False) of
        (has_upper, has_lower, has_digit, has_special) \<Rightarrow> has_upper \<and> has_lower \<and> has_digit \<and> has_special)"

definition result_message :: "auth_result \<Rightarrow> string" where
  "result_message r = (case r of
     SUCCESS \<Rightarrow> ''Success''
   | INVALID_USERNAME \<Rightarrow> ''Invalid username. Must be 3-32 characters, start with a letter, and contain only letters, numbers, underscores, or hyphens.''
   | INVALID_PASSWORD \<Rightarrow> ''Invalid password. Must be 8-128 characters with at least one uppercase letter, one lowercase letter, one digit, and one special character.''
   | USER_EXISTS \<Rightarrow> ''Username already taken.''
   | USER_NOT_FOUND \<Rightarrow> ''User not found.''
   | WRONG_PASSWORD \<Rightarrow> ''Incorrect password.''
   | STORAGE_ERROR \<Rightarrow> ''Internal server error. Please try again.'')"

section \<open>Registration and login\<close>

definition register_user ::
  "pwhash_api \<Rightarrow> 'st istorage \<Rightarrow> i64 \<Rightarrow> u64 \<Rightarrow> string \<Rightarrow> string \<Rightarrow> 'st \<Rightarrow> auth_result \<times> 'st" where
  "register_user H S now salt username password st =
     (if \<not> is_valid_username username then (INVALID_USERNAME, st)
      else if \<not> is_valid_password password then (INVALID_PASSWORD, st)
      else case st_get_user_by_username S username st of
        (Some _, st) \<Rightarrow> (USER_EXISTS, st)
      | (None, st) \<Rightarrow>
          (case hasher_hash H salt password of
             None \<Rightarrow> (STORAGE_ERROR, st)
           | Some hash \<Rightarrow>
               (case st_create_user S now username hash st of
                  (True, st) \<Rightarrow> (SUCCESS, st)
                | (False, st) \<Rightarrow> (STORAGE_ERROR, st))))"

definition login_rehash ::
  "pwhash_api \<Rightarrow> 'st istorage \<Rightarrow> u64 \<Rightarrow> user \<Rightarrow> string \<Rightarrow> 'st \<Rightarrow> 'st" where
  "login_rehash H S salt x password st =
     (if hasher_needs_rehash H (u_password_hash x) then
        (case hasher_hash H salt password of
           None \<Rightarrow> st | Some new_hash \<Rightarrow> snd (st_update_password S (u_id x) new_hash st))
      else st)"

definition auth_login ::
  "pwhash_api \<Rightarrow> 'st istorage \<Rightarrow> i64 \<Rightarrow> u64 \<Rightarrow> string \<Rightarrow> string \<Rightarrow> 'st \<Rightarrow> (auth_result \<times> u64) \<times> 'st" where
  "auth_login H S now salt username password st =
     (case st_get_user_by_username S username st of
        (None, st) \<Rightarrow> ((USER_NOT_FOUND, 0), st)
      | (Some x, st) \<Rightarrow>
          if \<not> u_active x then ((USER_NOT_FOUND, 0), st)
          else if \<not> hasher_verify H password (u_password_hash x) then ((WRONG_PASSWORD, 0), st)
          else
            let st1 = snd (st_update_last_login S now (u_id x) st)
            in ((SUCCESS, u_id x), login_rehash H S salt x password st1))"

section \<open>Rules\<close>

lemma password_classes_eq:
  "password_classes p (u, l, d, s) =
     (u \<or> (\<exists>c \<in> set p. isupper_c c), l \<or> (\<exists>c \<in> set p. islower_c c), d \<or> (\<exists>c \<in> set p. isdigit_c c),
      s \<or> (\<exists>c \<in> set p. \<not> isupper_c c \<and> \<not> islower_c c \<and> \<not> isdigit_c c))"
proof (induction p arbitrary: u l d s)
  case (Cons c p)
  have "isupper_c c \<Longrightarrow> \<not> islower_c c \<and> \<not> isdigit_c c" "islower_c c \<Longrightarrow> \<not> isdigit_c c"
    by (auto simp: isupper_c_def islower_c_def isdigit_c_def)
  with Cons.IH show ?case by auto
qed simp

lemma valid_username_chars:
  assumes "is_valid_username u"
  shows "u \<noteq> []" and "c \<in> set u \<Longrightarrow> name_char c" and "length u \<le> 32"
  using assms
  by (auto simp: is_valid_username_def name_char_def list_all_iff MAX_USERNAME_LENGTH_def split: list.splits)

lemma name_char_plain: "name_char c \<Longrightarrow> c \<noteq> CHR 0x00 \<and> \<not> isspace_c c \<and> c \<noteq> CHR ''|'' \<and> c \<noteq> CHR ''/''"
  by (auto simp: name_char_def isalpha_c_def isupper_c_def islower_c_def isdigit_c_def isspace_c_def)

lemma valid_username_c_str: "is_valid_username u \<Longrightarrow> c_str u = u"
  using valid_username_chars(2) [of u "CHR 0x00"] name_char_plain [of "CHR 0x00"] by (auto intro: c_str_id)

section \<open>From the storage contract\<close>

context storage_contract
begin

lemma login_sound:
  assumes "wf st" and "auth_login H S now salt u p st = ((SUCCESS, i), st')"
  shows "\<exists>x. v_user (view st) i = Some x \<and> u_username x = c_str u \<and> u_active x \<and>
      hasher_verify H p (u_password_hash x) \<and> i \<noteq> 0"
proof -
  from assms(2) obtain x st1 where g: "st_get_user_by_username S u st = (Some x, st1)"
    and x: "u_active x" "hasher_verify H p (u_password_hash x)" "u_id x = i"
    by (auto simp: auth_login_def Let_def split: prod.splits option.splits if_splits)
  from get_user_by_username [OF assms(1) g] x view_ids [OF assms(1), of i x] show ?thesis by auto
qed

lemma login_failure_keeps:
  assumes "wf st" and "auth_login H S now salt u p st = ((r, i), st')" and "r \<noteq> SUCCESS"
  shows "i = 0 \<and> wf st' \<and> view st' = view st"
  using assms get_user_by_username [OF assms(1)]
  by (auto simp: auth_login_def Let_def split: prod.splits option.splits if_splits)

lemma login_wf:
  assumes "wf st" and "auth_login H S now salt u p st = (r, st')"
  shows "wf st'"
proof -
  obtain g st1 where g: "st_get_user_by_username S u st = (g, st1)" by force
  have "wf st1" using get_user_by_username [OF assms(1) g] by simp
  moreover have "wf (snd (st_update_last_login S now i st1))" if "wf st1" for i st1
    using update_last_login [OF that] by (metis prod.collapse)
  moreover have "wf (snd (st_update_password S i h st1))" if "wf st1" for i h st1
    using update_password [OF that] by (metis prod.collapse)
  ultimately show ?thesis
    using assms(2) g by (auto simp: auth_login_def login_rehash_def Let_def split: option.splits if_splits)
qed

lemma register_success:
  assumes "wf st" and "register_user H S now salt u p st = (SUCCESS, st')"
  shows "wf st' \<and> is_valid_username u \<and> is_valid_password p \<and> name_free (view st) u \<and>
    (\<exists>i h. hasher_hash H salt p = Some h \<and> v_user (view st) i = None \<and>
       view st' = (view st)\<lparr>v_user := (v_user (view st))(i \<mapsto>
         \<lparr>u_id = i, u_username = u, u_password_hash = c_str h, u_created_at = now, u_last_login = 0,
          u_active = True\<rparr>)\<rparr>)"
proof -
  from assms(2) obtain st1 h where v: "is_valid_username u" "is_valid_password p"
    and g: "st_get_user_by_username S u st = (None, st1)" and h: "hasher_hash H salt p = Some h"
    and c: "st_create_user S now u h st1 = (True, st')"
    by (auto simp: register_user_def split: prod.splits option.splits if_splits bool.splits)
  from get_user_by_username [OF assms(1) g] have "wf st1" "view st1 = view st" by auto
  from create_user [OF this(1) c] this(2) v h valid_username_c_str [OF v(1)] show ?thesis by auto
qed

lemma register_failure_keeps:
  assumes "wf st" and "register_user H S now salt u p st = (r, st')" and "r \<noteq> SUCCESS"
  shows "wf st' \<and> view st' = view st"
proof -
  obtain g st1 where g: "st_get_user_by_username S u st = (g, st1)" by force
  from get_user_by_username [OF assms(1) g] have st1: "wf st1" "view st1 = view st" by auto
  show ?thesis
    using assms create_user [OF st1(1)] st1 g
    by (auto simp: register_user_def split: prod.splits option.splits if_splits bool.splits)
qed

text \<open>After a registration only the registered password logs in.\<close>

lemma register_then_login:
  assumes "wf st" and "pwhash_ok H" and "register_user H S now salt u p st = (SUCCESS, st1)"
    and "auth_login H S now' salt' u q st1 = ((SUCCESS, i), st2)"
  shows "q = p"
proof -
  from register_success [OF assms(1,3)] obtain k h where wf1: "wf st1" and u: "c_str u = u"
    and h: "hasher_hash H salt p = Some h"
    and v: "view st1 = (view st)\<lparr>v_user := (v_user (view st))(k \<mapsto>
         \<lparr>u_id = k, u_username = u, u_password_hash = c_str h, u_created_at = now, u_last_login = 0,
          u_active = True\<rparr>)\<rparr>"
    using valid_username_c_str by blast
  from login_sound [OF wf1 assms(4)] obtain x where x: "v_user (view st1) i = Some x"
    "u_username x = u" "hasher_verify H q (u_password_hash x)" by (auto simp: u)
  have k: "v_user (view st1) k = Some \<lparr>u_id = k, u_username = u, u_password_hash = c_str h,
      u_created_at = now, u_last_login = 0, u_active = True\<rparr>" by (simp add: v)
  from view_names [OF wf1 x(1) k] x(2) have "i = k" by simp
  with x(1) have "u_password_hash x = c_str h" by (simp add: v) auto
  with x(3) h assms(2) show ?thesis
    by (auto simp: hasher_verify_def hasher_hash_def pwhash_ok_def)
qed

end


section \<open>On the SQLite backend\<close>

text \<open>
  A password is accepted exactly when it has 8 to 128 characters and contains an
  upper-case letter, a lower-case letter, a digit and some other character; an
  accepted username has 3 to 32 characters, starts with a letter and contains only
  letters, digits, underscores and hyphens.
\<close>

theorem credential_rules:
  "(is_valid_password p \<longleftrightarrow> 8 \<le> length p \<and> length p \<le> 128 \<and>
      (\<exists>c \<in> set p. isupper_c c) \<and> (\<exists>c \<in> set p. islower_c c) \<and> (\<exists>c \<in> set p. isdigit_c c) \<and>
      (\<exists>c \<in> set p. \<not> isupper_c c \<and> \<not> islower_c c \<and> \<not> isdigit_c c)) \<and>
   (is_valid_username u \<longleftrightarrow> 3 \<le> length u \<and> length u \<le> 32 \<and> isalpha_c (hd u) \<and>
      filter (\<lambda>c. \<not> (isalpha_c c \<or> isdigit_c c \<or> c = CHR ''_'' \<or> c = CHR ''-'')) u = [])"
  by (cases u) (auto simp: is_valid_password_def password_classes_eq is_valid_username_def list_all_iff
      name_char_def filter_empty_conv
      MIN_PASSWORD_LENGTH_def MAX_PASSWORD_LENGTH_def MIN_USERNAME_LENGTH_def MAX_USERNAME_LENGTH_def)

text \<open>
  C26: Whatever the engine does, a login succeeds only for the id of a stored, active
  account with that name whose stored hash verifies the password; a login that does
  not succeed returns id 0 and changes no account.
\<close>

theorem auth_login_sound:
  assumes "db_ok db" and "auth_login H (sqlite_storage E) now salt u p db = ((r, i), db')"
  shows "(r = SUCCESS \<longrightarrow> i \<noteq> 0 \<and> (\<exists>x. v_user (sqlite_view db) i = Some x \<and> u_username x = c_str u \<and>
            u_active x \<and> hasher_verify H p (u_password_hash x)))
    \<and> (r \<noteq> SUCCESS \<longrightarrow> i = 0 \<and> sqlite_view db' = sqlite_view db)
    \<and> db_ok db'"
proof -
  have "db_ok db'" by (rule sq.login_wf [OF assms])
  moreover have "i = 0 \<and> sqlite_view db' = sqlite_view db" if "r \<noteq> SUCCESS"
    using sq.login_failure_keeps [OF assms that] by simp
  moreover have "i \<noteq> 0 \<and> (\<exists>x. v_user (sqlite_view db) i = Some x \<and> u_username x = c_str u \<and>
      u_active x \<and> hasher_verify H p (u_password_hash x))" if "r = SUCCESS"
    using sq.login_sound [OF assms(1)] assms(2) that by blast
  ultimately show ?thesis by blast
qed

definition plain_hasher :: pwhash_api where
  "plain_hasher = \<lparr>crypto_pwhash_str = (\<lambda>salt p. if CHR 0x00 \<in> set p then None else Some p),
     crypto_pwhash_str_verify = (\<lambda>h p. h = p), crypto_pwhash_str_needs_rehash = (\<lambda>_. False)\<rparr>"

lemma plain_hasher_ok: "pwhash_ok plain_hasher"
  by (auto simp: pwhash_ok_def plain_hasher_def c_str_id split: if_splits)

lemma find_name_reliable:
  assumes "sqlite_ready db"
  shows "sqlite_get_user_by_username sql_reliable u db =
    (find (\<lambda>x. u_username x = c_str u) (db_users db), db\<lparr>db_ticks := Suc (db_ticks db)\<rparr>)"
  using assms by (simp add: sqlite_get_user_by_username_def reliable_simps sqlite_ready_def sq_first_ok)

theorem auth_login_sound_witness:
  "\<exists>x. v_user (sqlite_view sqlite_sample) 1 = Some x \<and> u_username x = ''ann''"
proof -
  have "sqlite_ready sqlite_sample" by (simp add: sqlite_ready_def sqlite_sample_eq)
  then have "fst (auth_login plain_hasher (sqlite_storage sql_reliable) 20 0 ''ann'' ''h1'' sqlite_sample) = (SUCCESS, 1)"
    by (simp add: auth_login_def find_name_reliable sqlite_storage_def sqlite_sample_eq c_str_def
        hasher_verify_def plain_hasher_def Let_def)
  then obtain db' where "auth_login plain_hasher (sqlite_storage sql_reliable) 20 0 ''ann'' ''h1'' sqlite_sample
      = ((SUCCESS, 1), db')" by (metis prod.collapse)
  from auth_login_sound [OF sqlite_sample_ok this] show ?thesis by (auto simp: c_str_def)
qed



end
