(* ===== verification/Room_Manager.thy ===== *)
theory Room_Manager
  imports Connection_Manager Session_Manager Auth_Service
begin

text \<open>
  The server's state and \<^verbatim>\<open>server/commands/room_manager.{hpp,cpp}\<close>. \<open>server\<close> extends \<open>net\<close> by
  the session manager, the current-room map, the storage backend, the failed-login
  table and the number of random words drawn; \<open>world\<close> holds what a handler is given
  from outside: the JSON, storage and hashing interfaces, the random words and
  the clocks (which stand still while one handler runs) and the E2EE switch.
\<close>

record login_attempt =
  la_failed_count :: nat
  la_last_attempt :: int
  la_lockout_until :: int

record 'st server = net +
  sv_sessions :: session_manager
  sv_current_rooms :: "u64 \<Rightarrow> string option"
  sv_storage :: 'st
  sv_login_attempts :: "string \<Rightarrow> login_attempt option"
  sv_draws :: nat

record ('j, 'st) world =
  w_json :: "'j json_api"
  w_storage :: "'st istorage"
  w_hash :: pwhash_api
  w_rand :: "nat \<Rightarrow> u64"
  w_fl :: rounding
  w_steady :: int
  w_msg_time :: i64
  w_wall_s :: i64
  w_e2ee :: bool

section \<open>Messages and storage calls\<close>

definition srv_message ::
  "('j, 'st) world \<Rightarrow> message_type \<Rightarrow> string \<Rightarrow> string \<Rightarrow> 'j \<Rightarrow> 'st server \<Rightarrow> 'j message \<times> 'st server" where
  "srv_message W t from_user room payload s =
     ((message_create (w_json W) (w_rand W (sv_draws s)) (w_rand W (Suc (sv_draws s))) (w_msg_time W)
         t from_user room)\<lparr>m_payload := payload\<rparr>,
      s\<lparr>sv_draws := sv_draws s + 2\<rparr>)"

definition srv_call :: "('st \<Rightarrow> 'a \<times> 'st) \<Rightarrow> 'st server \<Rightarrow> 'a \<times> 'st server" where
  "srv_call f s = (let (r, st) = f (sv_storage s) in (r, s\<lparr>sv_storage := st\<rparr>))"

definition conn_of :: "u64 \<Rightarrow> 'a net_scheme \<Rightarrow> connection" where
  "conn_of i s = n_objs s i"

section \<open>The room manager\<close>

definition rm_get_room_users :: "string \<Rightarrow> 'a net_scheme \<Rightarrow> string list" where
  "rm_get_room_users room s =
     map (\<lambda>i. co_username (n_objs s i))
       (filter (\<lambda>i. conn_is_authenticated (n_objs s i)) (cm_get_room_members room (n_cm s)))"

definition rm_broadcast :: "('j, 'st) world \<Rightarrow> string \<Rightarrow> 'j message \<Rightarrow> 'st server \<Rightarrow> 'st server" where
  "rm_broadcast W room m = cm_broadcast_to_room (w_json W) room m"

definition rm_broadcast_except ::
  "('j, 'st) world \<Rightarrow> string \<Rightarrow> u64 \<Rightarrow> 'j message \<Rightarrow> 'st server \<Rightarrow> 'st server" where
  "rm_broadcast_except W room exclude m s =
     net_send_all (w_json W) (filter (\<lambda>i. i \<noteq> exclude) (cm_get_room_members room (n_cm s))) m s"

definition rm_get_rooms :: "u64 \<Rightarrow> 'st server \<Rightarrow> string list" where
  "rm_get_rooms i s = cm_get_rooms i (n_cm s)"

definition rm_room_exists :: "('j, 'st) world \<Rightarrow> string \<Rightarrow> 'st server \<Rightarrow> bool \<times> 'st server" where
  "rm_room_exists W room s = (let (r, s) = srv_call (st_get_room (w_storage W) room) s in (r \<noteq> None, s))"

definition rm_create_room :: "('j, 'st) world \<Rightarrow> string \<Rightarrow> 'st server \<Rightarrow> bool \<times> 'st server" where
  "rm_create_room W room = srv_call (st_create_room (w_storage W) (w_wall_s W) room '''')"

definition rm_get_current_room :: "u64 \<Rightarrow> 'st server \<Rightarrow> string" where
  "rm_get_current_room i s = (case sv_current_rooms s i of Some r \<Rightarrow> r | None \<Rightarrow> '''')"

definition rm_set_current_room :: "u64 \<Rightarrow> string \<Rightarrow> 'st server \<Rightarrow> 'st server" where
  "rm_set_current_room i room s = s\<lparr>sv_current_rooms := (sv_current_rooms s)(i := Some room)\<rparr>"

definition membership_payload :: "'j json_api \<Rightarrow> string \<Rightarrow> string \<Rightarrow> string \<Rightarrow> u64 \<Rightarrow> string list \<Rightarrow> 'j" where
  "membership_payload J action user room epoch members =
     j_obj J [(''action'', j_str J action), (''user'', j_str J user), (''room'', j_str J room),
       (''epoch'', j_u64 J epoch), (''members'', j_strs J members)]"

definition rm_broadcast_membership ::
  "('j, 'st) world \<Rightarrow> string \<Rightarrow> string \<Rightarrow> string \<Rightarrow> 'st server \<Rightarrow> 'st server" where
  "rm_broadcast_membership W room action user s =
     (let (epoch, s) = srv_call (st_bump_room_epoch (w_storage W) room) s in
      if epoch = 0 then s
      else
        let (m, s) = srv_message W ROOM_MEMBERSHIP user room
              (membership_payload (w_json W) action user room epoch (rm_get_room_users room s)) s
        in rm_broadcast W room m s)"

definition presence_payload :: "'j json_api \<Rightarrow> string \<Rightarrow> string \<Rightarrow> 'j" where
  "presence_payload J action user = j_obj J [(''action'', j_str J action), (''user'', j_str J user)]"

definition rm_join :: "('j, 'st) world \<Rightarrow> u64 \<Rightarrow> string \<Rightarrow> 'st server \<Rightarrow> bool \<times> 'st server" where
  "rm_join W i room s =
     (if \<not> conn_is_authenticated (conn_of i s) then (False, s)
      else
        let (r, s) = srv_call (st_get_room (w_storage W) room) s;
            s = (if r = None then snd (rm_create_room W room s) else s);
            s = cm_upd (cm_add_to_room i room) s;
            s = rm_set_current_room i room s;
            user = co_username (conn_of i s);
            (m, s) = srv_message W PRESENCE user room (presence_payload (w_json W) ''join'' user) s;
            s = rm_broadcast_except W room i m s
        in (True, rm_broadcast_membership W room ''join'' user s))"

text \<open>\<^verbatim>\<open>current_rooms_[id]\<close> inserts an empty name when the id is missing.\<close>

definition rm_leave_current :: "u64 \<Rightarrow> string \<Rightarrow> 'st server \<Rightarrow> 'st server" where
  "rm_leave_current i room s =
     (let cur = rm_get_current_room i s;
          s = rm_set_current_room i cur s
      in if cur = room then
           (let rooms = rm_get_rooms i s
            in rm_set_current_room i (if rooms = [] then '''' else last rooms) s)
         else s)"

definition rm_notify_leave :: "('j, 'st) world \<Rightarrow> string \<Rightarrow> string \<Rightarrow> 'st server \<Rightarrow> 'st server" where
  "rm_notify_leave W user room s =
     (let (m, s) = srv_message W PRESENCE user room (presence_payload (w_json W) ''leave'' user) s;
          s = rm_broadcast W room m s
      in rm_broadcast_membership W room ''leave'' user s)"

definition rm_leave :: "('j, 'st) world \<Rightarrow> u64 \<Rightarrow> string \<Rightarrow> 'st server \<Rightarrow> bool \<times> 'st server" where
  "rm_leave W i room s =
     (if \<not> conn_is_authenticated (conn_of i s) then (False, s)
      else
        let s = cm_upd (cm_remove_from_room i room) s;
            s = rm_leave_current i room s
        in (True, rm_notify_leave W (co_username (conn_of i s)) room s))"

definition rm_leave_all :: "('j, 'st) world \<Rightarrow> u64 \<Rightarrow> 'st server \<Rightarrow> 'st server" where
  "rm_leave_all W i s =
     (let rooms = rm_get_rooms i s;
          s = cm_upd (cm_remove_from_all_rooms i) s;
          s = fold (rm_notify_leave W (co_username (conn_of i s))) rooms s
      in s\<lparr>sv_current_rooms := (sv_current_rooms s)(i := None)\<rparr>)"

section \<open>Frame lemmas\<close>

lemma net_upd_server [simp]:
  "sv_sessions (net_upd i f s) = sv_sessions s" "sv_current_rooms (net_upd i f s) = sv_current_rooms s"
  "sv_storage (net_upd i f s) = sv_storage s" "sv_login_attempts (net_upd i f s) = sv_login_attempts s"
  "sv_draws (net_upd i f s) = sv_draws s"
  by (simp_all add: net_upd_def)

lemma net_send_all_server [simp]:
  "sv_sessions (net_send_all J is m s) = sv_sessions s"
  "sv_current_rooms (net_send_all J is m s) = sv_current_rooms s"
  "sv_storage (net_send_all J is m s) = sv_storage s"
  "sv_login_attempts (net_send_all J is m s) = sv_login_attempts s"
  "sv_draws (net_send_all J is m s) = sv_draws s"
  by (induction "is" arbitrary: s) (simp_all add: net_send_def)

lemma cm_upd_simps [simp]:
  "n_objs (cm_upd f s) = n_objs s" "n_cm (cm_upd f s) = f (n_cm s)"
  by (simp_all add: cm_upd_def)

lemma cm_upd_server [simp]:
  "sv_storage (cm_upd f s) = sv_storage s" "sv_sessions (cm_upd f s) = sv_sessions s"
  "sv_draws (cm_upd f s) = sv_draws s" "sv_login_attempts (cm_upd f s) = sv_login_attempts s"
  "sv_current_rooms (cm_upd f s) = sv_current_rooms s"
  by (simp_all add: cm_upd_def)

end
