(* ===== verification/Sanitize.thy ===== *)
theory Sanitize
  imports Chat_Prelude
begin

text \<open>
  \<^verbatim>\<open>common/sanitize.hpp\<close>: removal of terminal escape sequences and control characters
  from chat text. The regular expression's four alternatives are matchers that
  return the rest of the input after a match; \<^verbatim>\<open>regex_replace\<close> tries them in order
  at each position, left to right.
\<close>

abbreviation ESC :: nat where "ESC \<equiv> 27"
abbreviation BEL :: nat where "BEL \<equiv> 7"

definition is_param :: "char \<Rightarrow> bool" where
  "is_param c \<longleftrightarrow> isdigit_c c \<or> code c = 59"

text \<open>\<^verbatim>\<open>ESC [ [0-9;]* [A-Za-z]\<close>\<close>

definition match_csi :: "string \<Rightarrow> string option" where
  "match_csi s = (case s of
     e # b # r \<Rightarrow>
       if code e = ESC \<and> code b = 91 then
         (case dropWhile is_param r of
            c # r' \<Rightarrow> if isalpha_c c then Some r' else None
          | [] \<Rightarrow> None)
       else None
   | _ \<Rightarrow> None)"

text \<open>\<^verbatim>\<open>ESC ] [^BEL]* BEL\<close>\<close>

definition match_osc :: "string \<Rightarrow> string option" where
  "match_osc s = (case s of
     e # b # r \<Rightarrow>
       if code e = ESC \<and> code b = 93 then
         (case dropWhile (\<lambda>c. code c \<noteq> BEL) r of c # r' \<Rightarrow> Some r' | [] \<Rightarrow> None)
       else None
   | _ \<Rightarrow> None)"

text \<open>\<^verbatim>\<open>ESC [()] [AB012]\<close>\<close>

definition match_charset :: "string \<Rightarrow> string option" where
  "match_charset s = (case s of
     e # b # c # r \<Rightarrow>
       if code e = ESC \<and> (code b = 40 \<or> code b = 41) \<and> code c \<in> {65, 66, 48, 49, 50}
       then Some r else None
   | _ \<Rightarrow> None)"

text \<open>\<^verbatim>\<open>ESC [ [0-9;]* [ -/]* [@-~]\<close>\<close>

definition match_csi_ext :: "string \<Rightarrow> string option" where
  "match_csi_ext s = (case s of
     e # b # r \<Rightarrow>
       if code e = ESC \<and> code b = 91 then
         (case dropWhile (\<lambda>c. 32 \<le> code c \<and> code c \<le> 47) (dropWhile is_param r) of
            c # r' \<Rightarrow> if 64 \<le> code c \<and> code c \<le> 126 then Some r' else None
          | [] \<Rightarrow> None)
       else None
   | _ \<Rightarrow> None)"

definition match_ansi :: "string \<Rightarrow> string option" where
  "match_ansi s =
     (case match_csi s of Some r \<Rightarrow> Some r | None \<Rightarrow>
     (case match_osc s of Some r \<Rightarrow> Some r | None \<Rightarrow>
     (case match_charset s of Some r \<Rightarrow> Some r | None \<Rightarrow> match_csi_ext s)))"

lemma length_dropWhile_Cons:
  "dropWhile P xs = y # ys \<Longrightarrow> length ys < length xs"
  using length_dropWhile_le [of P xs] by simp

lemma match_ansi_shorter: "match_ansi s = Some r \<Longrightarrow> length r < length s"
proof -
  have csi: "match_csi s = Some r \<Longrightarrow> length r < length s" for s r
    by (auto simp: match_csi_def split: list.splits if_splits dest!: length_dropWhile_Cons)
  have osc: "match_osc s = Some r \<Longrightarrow> length r < length s" for s r
    by (auto simp: match_osc_def split: list.splits if_splits dest!: length_dropWhile_Cons)
  have charset: "match_charset s = Some r \<Longrightarrow> length r < length s" for s r
    by (auto simp: match_charset_def split: list.splits if_splits)
  have ext: "match_csi_ext s = Some r \<Longrightarrow> length r < length s" for s r
    by (auto simp: match_csi_ext_def split: list.splits if_splits dest!: length_dropWhile_Cons)
       (meson length_dropWhile_le less_SucI less_le_trans order_less_imp_le)
  show "match_ansi s = Some r \<Longrightarrow> length r < length s"
    by (auto simp: match_ansi_def split: option.splits dest: csi osc charset ext)
qed

text \<open>\<^verbatim>\<open>std::regex_replace(input, ansi_pattern, "")\<close>\<close>

function strip_ansi :: "string \<Rightarrow> string" where
  "strip_ansi s =
     (case s of
        [] \<Rightarrow> []
      | c # cs \<Rightarrow> (case match_ansi s of Some r \<Rightarrow> strip_ansi r | None \<Rightarrow> c # strip_ansi cs))"
  by pat_completeness auto
termination
  by (relation "measure length") (auto dest: match_ansi_shorter)

declare strip_ansi.simps [simp del]

definition keep_char :: "char \<Rightarrow> bool" where
  "keep_char c \<longleftrightarrow> code c = 9 \<or> code c = 10 \<or> (32 \<le> code c \<and> code c \<noteq> 127)"

definition sanitize_message :: "string \<Rightarrow> string" where
  "sanitize_message input = (if input = [] then input else filter keep_char (strip_ansi input))"

section \<open>Lemmas\<close>

lemma match_ansi_esc: "match_ansi (c # cs) = Some r \<Longrightarrow> code c = ESC"
  by (auto simp: match_ansi_def match_csi_def match_osc_def match_charset_def match_csi_ext_def
      split: list.splits if_splits option.splits)

lemma strip_ansi_no_esc: "\<forall>c \<in> set s. code c \<noteq> ESC \<Longrightarrow> strip_ansi s = s"
proof (induction s)
  case (Cons c cs)
  then have "match_ansi (c # cs) = None" by (cases "match_ansi (c # cs)") (auto dest: match_ansi_esc)
  with Cons show ?case by (simp add: strip_ansi.simps [of "c # cs"])
qed (simp add: strip_ansi.simps)

lemma keep_char_not_esc: "keep_char c \<Longrightarrow> code c \<noteq> ESC"
  by (auto simp: keep_char_def)

lemma sanitize_clean: "\<forall>c \<in> set s. keep_char c \<Longrightarrow> sanitize_message s = s"
  by (simp add: sanitize_message_def strip_ansi_no_esc keep_char_not_esc)

lemma sanitize_chars: "c \<in> set (sanitize_message s) \<Longrightarrow> keep_char c"
  by (auto simp: sanitize_message_def split: if_splits)

section \<open>Properties\<close>


text \<open>text is left unchanged exactly when it has no control character to remove.\<close>

theorem sanitize_message_identity: "sanitize_message s = s \<longleftrightarrow> list_all keep_char s"
  by (metis list_all_iff sanitize_chars sanitize_clean)

end
