(* ===== verification/Command_Handler.thy ===== *)
theory Command_Handler
  imports Room_Manager Sanitize
begin

text \<open>
  \<^verbatim>\<open>server/commands/command_handler.{hpp,cpp}\<close>: the dispatcher and every handler. A handler
  is an \<open>act\<close> on the server state; a JSON conversion that throws ends it with \<open>None\<close>,
  and \<^verbatim>\<open>Connection::do_read_body\<close> answers that with a parse error. The last sections
  show what each kind of message can and cannot change.
\<close>

definition MAX_LOGIN_ATTEMPTS :: nat where "MAX_LOGIN_ATTEMPTS = 5"
definition LOGIN_LOCKOUT_SECONDS :: int where "LOGIN_LOCKOUT_SECONDS = 900"

definition is_b64_char :: "char \<Rightarrow> bool" where
  "is_b64_char c \<longleftrightarrow> isupper_c c \<or> islower_c c \<or> isdigit_c c \<or> c = CHR ''+'' \<or> c = CHR ''/'' \<or> c = CHR ''=''"

definition is_valid_b64_field :: "string \<Rightarrow> nat \<Rightarrow> bool" where
  "is_valid_b64_field s max_len = (if s = [] \<or> length s > max_len then False else list_all is_b64_char s)"

definition is_valid_hex_key_id :: "string \<Rightarrow> bool" where
  "is_valid_hex_key_id s =
     (if s = [] \<or> length s > 32 then False
      else list_all (\<lambda>c. isdigit_c c \<or> 97 \<le> code c \<and> code c \<le> 102) s)"

section \<open>Replies and guards\<close>

definition respond ::
  "('j, 'st) world \<Rightarrow> u64 \<Rightarrow> message_type \<Rightarrow> string \<Rightarrow> string \<Rightarrow> 'j \<Rightarrow> ('st server, unit) act" where
  "respond W i t from_user room payload =
     ebind (elift (srv_message W t from_user room payload)) (\<lambda>m. emodify (net_send (w_json W) i m))"

definition send_error :: "('j, 'st) world \<Rightarrow> u64 \<Rightarrow> string \<Rightarrow> string \<Rightarrow> ('st server, unit) act" where
  "send_error W i message errcode = respond W i ERROR ''server'' '''' (error_payload (w_json W) message errcode)"

definition send_system :: "('j, 'st) world \<Rightarrow> u64 \<Rightarrow> string \<Rightarrow> ('st server, unit) act" where
  "send_system W i message =
     respond W i SYSTEM ''server'' '''' (j_obj (w_json W) [(''message'', j_str (w_json W) message)])"

definition require_auth :: "('j, 'st) world \<Rightarrow> u64 \<Rightarrow> ('st server, unit) act \<Rightarrow> ('st server, unit) act" where
  "require_auth W i k =
     ebind (eread (\<lambda>s. conn_is_authenticated (conn_of i s))) (\<lambda>auth.
       if \<not> auth then send_error W i ''Please login first. Use /login <username> <password>'' ''NOT_AUTHENTICATED''
       else k)"

definition require_no_auth :: "('j, 'st) world \<Rightarrow> u64 \<Rightarrow> ('st server, unit) act \<Rightarrow> ('st server, unit) act" where
  "require_no_auth W i k =
     ebind (eread (\<lambda>s. conn_is_authenticated (conn_of i s))) (\<lambda>auth.
       if auth then send_error W i ''Already logged in'' ''ALREADY_AUTHENTICATED'' else k)"

definition check_rate_limit :: "('j, 'st) world \<Rightarrow> u64 \<Rightarrow> ('st server, bool) act" where
  "check_rate_limit W i = elift (\<lambda>s.
     let (ok, sm) = sm_check_rate_limit (w_fl W) (w_steady W) i (sv_sessions s)
     in (ok, s\<lparr>sv_sessions := sm\<rparr>))"

definition is_room_member :: "u64 \<Rightarrow> string \<Rightarrow> 'a net_scheme \<Rightarrow> bool" where
  "is_room_member i room s \<longleftrightarrow> i \<in> set (cm_get_room_members room (n_cm s))"

section \<open>Joining and leaving\<close>

text \<open>Queued envelopes whose payload does not parse are dropped.\<close>

definition deliver_one :: "('j, 'st) world \<Rightarrow> u64 \<Rightarrow> room_key_envelope \<Rightarrow> ('st server, unit) act" where
  "deliver_one W i env =
     (case j_parse (w_json W) (e_payload env) of
        None \<Rightarrow> eret ()
      | Some payload \<Rightarrow> respond W i ROOM_KEY (e_sender env) (e_room env) payload)"

definition deliver_room_key_envelopes :: "('j, 'st) world \<Rightarrow> u64 \<Rightarrow> ('st server, unit) act" where
  "deliver_room_key_envelopes W i =
     ebind (eread (\<lambda>s. co_user_id (conn_of i s))) (\<lambda>uid.
     ebind (elift (srv_call (st_take_room_key_envelopes (w_storage W) uid))) (\<lambda>envelopes.
       eeach (deliver_one W i) envelopes))"

definition room_pattern :: "string \<Rightarrow> bool" where
  "room_pattern r \<longleftrightarrow> (case r of [] \<Rightarrow> False | c # cs \<Rightarrow> isalpha_c c \<and> list_all name_char cs)"

definition handle_join :: "('j, 'st) world \<Rightarrow> u64 \<Rightarrow> 'j \<Rightarrow> ('st server, unit) act" where
  "handle_join W i payload = (let J = w_json W in
     require_auth W i (
       if \<not> j_contains J payload ''room'' then send_error W i ''Missing room name'' ''INVALID_PARAMS''
       else ebind (eopt (j_at_str J payload ''room'')) (\<lambda>room.
         if room = [] \<or> length room > MAX_ROOM_NAME_LENGTH
         then send_error W i ''Invalid room name'' ''INVALID_ROOM''
         else if \<not> room_pattern room
         then send_error W i ''Invalid room name. Must start with a letter and contain only letters, numbers, underscores, or hyphens.'' ''INVALID_ROOM''
         else ebind (elift (rm_join W i room)) (\<lambda>joined.
           if joined then
             ebind (eread (\<lambda>s. (co_username (conn_of i s), rm_get_room_users room s))) (\<lambda>(user, users).
             ebind (elift (srv_call (st_room_epoch (w_storage W) room))) (\<lambda>epoch.
             eseq (respond W i ROOM_EVENT user room (j_obj J
               [(''action'', j_str J ''joined''), (''room'', j_str J room), (''users'', j_strs J users),
                (''epoch'', j_u64 J epoch), (''e2ee'', j_bool J (w_e2ee W))]))
             (eseq (send_system W i (''You joined #'' @ room @
                (if w_e2ee W then '' (end-to-end encrypted)'' else '''')))
               (deliver_room_key_envelopes W i))))
           else send_error W i ''Failed to join room'' ''JOIN_FAILED''))))"

definition payload_room :: "('j, 'st) world \<Rightarrow> u64 \<Rightarrow> 'j \<Rightarrow> ('st server, string) act" where
  "payload_room W i payload =
     (if j_contains (w_json W) payload ''room'' then eopt (j_at_str (w_json W) payload ''room'')
      else eread (rm_get_current_room i))"

definition handle_leave :: "('j, 'st) world \<Rightarrow> u64 \<Rightarrow> 'j \<Rightarrow> ('st server, unit) act" where
  "handle_leave W i payload = (let J = w_json W in
     require_auth W i (
       ebind (payload_room W i payload) (\<lambda>room.
         if room = [] then send_error W i ''Not in any room'' ''NOT_IN_ROOM''
         else ebind (elift (rm_leave W i room)) (\<lambda>left.
           if left then
             ebind (eread (\<lambda>s. co_username (conn_of i s))) (\<lambda>user.
             eseq (respond W i ROOM_EVENT user room
               (j_obj J [(''action'', j_str J ''left''), (''room'', j_str J room)]))
               (send_system W i (''You left #'' @ room)))
           else send_error W i ''Failed to leave room'' ''LEAVE_FAILED''))))"

section \<open>Login and registration\<close>

definition attempt_of :: "string \<Rightarrow> 'st server \<Rightarrow> login_attempt" where
  "attempt_of u s =
     (case sv_login_attempts s u of Some a \<Rightarrow> a
      | None \<Rightarrow> \<lparr>la_failed_count = 0, la_last_attempt = 0, la_lockout_until = 0\<rparr>)"

definition set_attempt :: "string \<Rightarrow> login_attempt \<Rightarrow> 'st server \<Rightarrow> 'st server" where
  "set_attempt u a s = s\<lparr>sv_login_attempts := (sv_login_attempts s)(u := Some a)\<rparr>"

definition is_locked :: "int \<Rightarrow> login_attempt \<Rightarrow> bool" where
  "is_locked now a \<longleftrightarrow> la_failed_count a \<ge> MAX_LOGIN_ATTEMPTS \<and> now < la_lockout_until a"

definition note_failure :: "int \<Rightarrow> login_attempt \<Rightarrow> login_attempt" where
  "note_failure now a =
     (let a1 = a\<lparr>la_failed_count := la_failed_count a + 1, la_last_attempt := now\<rparr>
      in if la_failed_count a1 \<ge> MAX_LOGIN_ATTEMPTS
         then a1\<lparr>la_lockout_until := now + LOGIN_LOCKOUT_SECONDS * ns_per_s\<rparr> else a1)"

definition srv_login :: "('j, 'st) world \<Rightarrow> string \<Rightarrow> string \<Rightarrow> 'st server \<Rightarrow> (auth_result \<times> u64) \<times> 'st server" where
  "srv_login W u p s =
     (let (r, s) = srv_call (auth_login (w_hash W) (w_storage W) (w_wall_s W) (w_rand W (sv_draws s)) u p) s
      in (r, s\<lparr>sv_draws := sv_draws s + 1\<rparr>))"

definition srv_authenticate :: "('j, 'st) world \<Rightarrow> u64 \<Rightarrow> u64 \<Rightarrow> string \<Rightarrow> 'st server \<Rightarrow> bool \<times> 'st server" where
  "srv_authenticate W i uid u s =
     (let (ok, sm) = sm_authenticate (w_steady W) i uid u (sv_sessions s) in (ok, s\<lparr>sv_sessions := sm\<rparr>))"

definition login_welcome :: "('j, 'st) world \<Rightarrow> u64 \<Rightarrow> u64 \<Rightarrow> string \<Rightarrow> ('st server, unit) act" where
  "login_welcome W i uid u = (let J = w_json W in
     eseq (respond W i AUTH_RESPONSE ''server'' '''' (j_obj J
        [(''success'', j_bool J True), (''user_id'', j_u64 J uid), (''username'', j_str J u),
         (''protocol_version'', j_u64 J PROTOCOL_VERSION), (''room_e2ee_required'', j_bool J (w_e2ee W)),
         (''message'', j_str J (''Welcome back, '' @ u @ ''!''))]))
     (eseq (handle_join W i (j_obj J [(''room'', j_str J ''general'')]))
     (ebind (elift (srv_message W PRESENCE u '''' (presence_payload J ''online'' u))) (\<lambda>m.
     eseq (emodify (cm_broadcast_except J i m))
       (emodify (\<lambda>s. s\<lparr>sv_login_attempts := (sv_login_attempts s)(u := None)\<rparr>))))))"

definition login_bind :: "u64 \<Rightarrow> u64 \<Rightarrow> string \<Rightarrow> 'st server \<Rightarrow> 'st server" where
  "login_bind i uid u s =
     cm_upd (cm_register_username u i) (net_upd i (\<lambda>c. conn_set_username u (conn_set_user_id uid c)) s)"

definition login_accept :: "('j, 'st) world \<Rightarrow> u64 \<Rightarrow> u64 \<Rightarrow> string \<Rightarrow> ('st server, unit) act" where
  "login_accept W i uid u =
     ebind (eread (\<lambda>s. cm_get_by_username u (n_cm s))) (\<lambda>existing.
       if existing \<noteq> None then
         send_error W i ''User already logged in from another location'' ''ALREADY_LOGGED_IN''
       else
         ebind (elift (srv_authenticate W i uid u)) (\<lambda>ok.
         if \<not> ok then send_error W i ''Failed to create session'' ''SESSION_ERROR''
         else eseq (emodify (login_bind i uid u)) (login_welcome W i uid u)))"

definition login_refuse :: "('j, 'st) world \<Rightarrow> u64 \<Rightarrow> string \<Rightarrow> auth_result \<Rightarrow> ('st server, unit) act" where
  "login_refuse W i u result =
     ebind (eread (attempt_of u)) (\<lambda>a.
     eseq (emodify (set_attempt u (note_failure (w_steady W) a)))
       (send_error W i (result_message result) ''AUTH_FAILED''))"

definition login_locked :: "('j, 'st) world \<Rightarrow> u64 \<Rightarrow> login_attempt \<Rightarrow> ('st server, unit) act" where
  "login_locked W i a =
     send_error W i (''Too many failed login attempts. Try again in '' @
       nat_to_string (nat (duration_cast ns_per_s (la_lockout_until a - w_steady W))) @ '' seconds.'')
       ''ACCOUNT_LOCKED''"

definition handle_login :: "('j, 'st) world \<Rightarrow> u64 \<Rightarrow> 'j \<Rightarrow> ('st server, unit) act" where
  "handle_login W i payload = (let J = w_json W in
     require_no_auth W i (
       if \<not> j_contains J payload ''username'' \<or> \<not> j_contains J payload ''password''
       then send_error W i ''Missing username or password'' ''INVALID_PARAMS''
       else
         ebind (eopt (j_at_str J payload ''username'')) (\<lambda>u.
         ebind (eopt (j_at_str J payload ''password'')) (\<lambda>p.
         ebind (eopt (j_value_i64 J payload ''protocol_version'' 1)) (\<lambda>client_version.
         ebind (eread (attempt_of u)) (\<lambda>a.
         eseq (emodify (set_attempt u a))
         (if is_locked (w_steady W) a then login_locked W i a
          else
            ebind (elift (srv_login W u p)) (\<lambda>(result, user_id).
            if result \<noteq> SUCCESS then login_refuse W i u result
            else login_accept W i user_id u))))))))"

definition srv_register :: "('j, 'st) world \<Rightarrow> string \<Rightarrow> string \<Rightarrow> 'st server \<Rightarrow> auth_result \<times> 'st server" where
  "srv_register W u p s =
     (let (r, s) = srv_call (register_user (w_hash W) (w_storage W) (w_wall_s W) (w_rand W (sv_draws s)) u p) s
      in (r, s\<lparr>sv_draws := sv_draws s + 1\<rparr>))"

definition handle_register :: "('j, 'st) world \<Rightarrow> u64 \<Rightarrow> 'j \<Rightarrow> ('st server, unit) act" where
  "handle_register W i payload = (let J = w_json W in
     require_no_auth W i (
       if \<not> j_contains J payload ''username'' \<or> \<not> j_contains J payload ''password''
       then send_error W i ''Missing username or password'' ''INVALID_PARAMS''
       else
         ebind (eopt (j_at_str J payload ''username'')) (\<lambda>u.
         ebind (eopt (j_at_str J payload ''password'')) (\<lambda>p.
         ebind (elift (srv_register W u p)) (\<lambda>result.
           if result \<noteq> SUCCESS then send_error W i (result_message result) ''REGISTER_FAILED''
           else respond W i AUTH_RESPONSE ''server'' '''' (j_obj J
             [(''success'', j_bool J True),
              (''message'', j_str J ''Registration successful! You can now login with /login'')]))))))"

section \<open>Other commands\<close>

definition handle_users :: "('j, 'st) world \<Rightarrow> u64 \<Rightarrow> 'j \<Rightarrow> ('st server, unit) act" where
  "handle_users W i payload = (let J = w_json W in
     require_auth W i (
       ebind (payload_room W i payload) (\<lambda>room.
       ebind (eread (\<lambda>s. if room = [] then sm_get_online_users (sv_sessions s)
                         else rm_get_room_users room s)) (\<lambda>users.
         respond W i SYSTEM ''server'' '''' (j_obj J
           [(''action'', j_str J ''user_list''), (''room'', j_str J room), (''users'', j_strs J users),
            (''count'', j_u64 J (of_nat (length users)))])))))"

definition copy_member :: "'j json_api \<Rightarrow> 'j \<Rightarrow> string \<Rightarrow> (string \<times> 'j) list" where
  "copy_member J payload k =
     (if j_contains J payload k then (case j_at J payload k of Some v \<Rightarrow> [(k, v)] | None \<Rightarrow> []) else [])"

definition handle_dm :: "('j, 'st) world \<Rightarrow> u64 \<Rightarrow> 'j \<Rightarrow> ('st server, unit) act" where
  "handle_dm W i payload = (let J = w_json W in
     require_auth W i (
       if \<not> j_contains J payload ''to'' \<or> \<not> j_contains J payload ''message''
       then send_error W i ''Usage: /dm <username> <message>'' ''INVALID_PARAMS''
       else
         ebind (eopt (j_at_str J payload ''to'')) (\<lambda>target_user.
         ebind (eopt (j_at_str J payload ''message'')) (\<lambda>raw.
         ebind (eopt (j_value_bool J payload ''encrypted'' False)) (\<lambda>is_encrypted.
         let message = (if \<not> is_encrypted then sanitize_message raw else raw) in
         if message = [] \<or> length message > MAX_MESSAGE_SIZE
         then send_error W i ''Invalid message'' ''INVALID_MESSAGE''
         else
           ebind (eread (\<lambda>s. (cm_get_by_username target_user (n_cm s), co_username (conn_of i s)))) (\<lambda>(target, me).
           case target of
             None \<Rightarrow> send_error W i (''User '' @ [CHR 0x27] @ target_user @ [CHR 0x27] @ '' is not online'') ''USER_OFFLINE''
           | Some t \<Rightarrow>
               let base = [(''from'', j_str J me), (''to'', j_str J target_user), (''message'', j_str J message)]
               in eseq (respond W t DIRECT_MESSAGE me '''' (j_obj J (base @
                    (if is_encrypted then [(''encrypted'', j_bool J True)]
                       @ copy_member J payload ''nonce'' @ copy_member J payload ''sender_public_key''
                     else []))))
                  (respond W i DIRECT_MESSAGE me '''' (j_obj J (base @ [(''sent'', j_bool J True)] @
                    (if is_encrypted then [(''encrypted'', j_bool J True)] else []))))))))))"

definition handle_rename :: "('j, 'st) world \<Rightarrow> u64 \<Rightarrow> 'j \<Rightarrow> ('st server, unit) act" where
  "handle_rename W i payload = (let J = w_json W in
     require_auth W i (
       if \<not> j_contains J payload ''newname''
       then send_error W i ''Usage: /rename <newname>'' ''INVALID_PARAMS''
       else
         ebind (eopt (j_at_str J payload ''newname'')) (\<lambda>new_name.
         if \<not> is_valid_username new_name
         then send_error W i ''Invalid username format'' ''INVALID_USERNAME''
         else
           ebind (eread (\<lambda>s. (cm_get_by_username new_name (n_cm s), conn_of i s))) (\<lambda>(taken, c).
           if taken \<noteq> None then send_error W i ''Username already taken'' ''NAME_TAKEN''
           else
             ebind (elift (srv_call (st_rename_user (w_storage W) (co_user_id c) new_name))) (\<lambda>ok.
             if \<not> ok then send_error W i ''Failed to update username'' ''RENAME_FAILED''
             else
               let old_name = co_username c in
               eseq (emodify (net_upd i (conn_set_username new_name)))
               (eseq (emodify (cm_upd (cm_unregister_username old_name)))
               (eseq (emodify (cm_upd (cm_register_username new_name i)))
               (eseq (emodify (\<lambda>s. s\<lparr>sv_sessions := sm_update i (\<lambda>x. x\<lparr>se_username := new_name\<rparr>) (sv_sessions s)\<rparr>))
               (ebind (elift (srv_message W PRESENCE ''server'' '''' (j_obj J
                  [(''action'', j_str J ''rename''), (''old_name'', j_str J old_name),
                   (''new_name'', j_str J new_name)]))) (\<lambda>m.
               eseq (emodify (cm_broadcast J m))
                 (send_system W i (''You are now known as '' @ new_name))))))))))))"

definition handle_quit :: "('j, 'st) world \<Rightarrow> u64 \<Rightarrow> ('st server, unit) act" where
  "handle_quit W i =
     eseq (send_system W i ''Goodbye!'')
     (eseq (ebind (eread (conn_of i)) (\<lambda>c.
        ewhen (conn_is_authenticated c)
          (ebind (elift (srv_message W PRESENCE (co_username c) ''''
               (presence_payload (w_json W) ''offline'' (co_username c)))) (\<lambda>m.
           eseq (emodify (cm_broadcast_except (w_json W) i m))
             (emodify (rm_leave_all W i))))))
       (emodify (net_upd i conn_close)))"

definition handle_rooms :: "('j, 'st) world \<Rightarrow> u64 \<Rightarrow> ('st server, unit) act" where
  "handle_rooms W i = (let J = w_json W in
     require_auth W i (
       ebind (elift (srv_call (st_list_rooms (w_storage W)))) (\<lambda>rooms.
       ebind (eread (\<lambda>s. map (\<lambda>r. j_obj J [(''name'', j_str J (r_name r)),
            (''description'', j_str J (r_description r)),
            (''users'', j_u64 J (of_nat (length (rm_get_room_users (r_name r) s))))]) rooms)) (\<lambda>room_list.
         respond W i SYSTEM ''server'' '''' (j_obj J
           [(''action'', j_str J ''room_list''), (''rooms'', j_arr J room_list)])))))"

definition newline :: string where "newline = [CHR 0x0A]"

definition help_text :: string where
  "help_text = newline @ concat (map (\<lambda>l. l @ newline) [
     ''Available commands:'',
     ''  /login <username> <password>  - Login to your account'',
     ''  /register <username> <password> - Create a new account'',
     ''  /join <room>                  - Join a chat room'',
     ''  /leave [room]                 - Leave current or specified room'',
     ''  /rooms                        - List available rooms'',
     ''  /users [room]                 - List users in room or online'',
     ''  /dm <user> <message>          - Send private message'',
     ''  /rename <newname>             - Change your username'',
     ''  /quit                         - Disconnect from server'',
     ''  /help                         - Show this help message'',
     '''',
     ''Room messages are end-to-end encrypted. Client-side commands:'',
     ''  /verify <user> [ok|accept]    - Show/confirm a peer'' @ [CHR 0x27] @ ''s identity fingerprint'',
     ''  /roomkeys                     - Show room encryption state and member keys''])"

definition handle_help :: "('j, 'st) world \<Rightarrow> u64 \<Rightarrow> ('st server, unit) act" where
  "handle_help W i = send_system W i help_text"

definition handle_command :: "('j, 'st) world \<Rightarrow> u64 \<Rightarrow> 'j \<Rightarrow> ('st server, unit) act" where
  "handle_command W i payload =
     (if \<not> j_contains (w_json W) payload ''command''
      then send_error W i ''Missing command'' ''INVALID_COMMAND''
      else ebind (eopt (j_at_str (w_json W) payload ''command'')) (\<lambda>cmd.
        if cmd = ''login'' then handle_login W i payload
        else if cmd = ''register'' then handle_register W i payload
        else if cmd = ''join'' then handle_join W i payload
        else if cmd = ''leave'' then handle_leave W i payload
        else if cmd = ''users'' then handle_users W i payload
        else if cmd = ''dm'' then handle_dm W i payload
        else if cmd = ''rename'' then handle_rename W i payload
        else if cmd = ''quit'' then handle_quit W i
        else if cmd = ''rooms'' then handle_rooms W i
        else if cmd = ''help'' then handle_help W i
        else send_error W i (''Unknown command: '' @ cmd) ''UNKNOWN_COMMAND''))"

section \<open>Chat messages\<close>

definition parse_command :: "string \<Rightarrow> (string \<times> string list) option" where
  "parse_command text =
     (case text of
        [] \<Rightarrow> None
      | c # rest \<Rightarrow>
          if c \<noteq> CHR ''/'' then None
          else (case split_ws rest of [] \<Rightarrow> None | name # args \<Rightarrow> Some (map tolower_c name, args)))"

definition join_words :: "string list \<Rightarrow> string" where
  "join_words ws = (case ws of [] \<Rightarrow> [] | w # r \<Rightarrow> foldl (\<lambda>m a. m @ '' '' @ a) w r)"

text \<open>The members that \<^verbatim>\<open>payload[...] = ...\<close> adds for each command with arguments.\<close>

definition command_members :: "string \<Rightarrow> string list \<Rightarrow> (string \<times> string) list" where
  "command_members name args =
     (if args = [] then []
      else if name = ''join'' \<or> name = ''leave'' then [(''room'', args ! 0)]
      else if name = ''dm'' \<and> length args \<ge> 2 then [(''to'', args ! 0), (''message'', join_words (drop 1 args))]
      else if name = ''rename'' then [(''newname'', args ! 0)]
      else if name = ''users'' then [(''room'', args ! 0)]
      else if (name = ''login'' \<or> name = ''register'') \<and> length args \<ge> 2
      then [(''username'', args ! 0), (''password'', args ! 1)]
      else [])"

definition command_payload :: "'j json_api \<Rightarrow> string \<Rightarrow> string list \<Rightarrow> 'j" where
  "command_payload J name args =
     j_obj J (map (\<lambda>(k, v). (k, j_str J v)) ((''command'', name) # command_members name args))"

definition chat_content :: "'j json_api \<Rightarrow> 'j \<Rightarrow> string option" where
  "chat_content J payload =
     (if j_contains J payload ''message'' then j_at_str J payload ''message''
      else if j_contains J payload ''content'' then j_at_str J payload ''content''
      else Some [])"

definition store_and_broadcast :: "('j, 'st) world \<Rightarrow> u64 \<Rightarrow> string \<Rightarrow> string \<Rightarrow> 'j message \<Rightarrow> ('st server, unit) act" where
  "store_and_broadcast W i room content msg = (let J = w_json W in
     ebind (eread (conn_of i)) (\<lambda>c.
     ebind (elift (srv_call (st_store_message (w_storage W)
        \<lparr>smsg_id = 0, smsg_message_id = m_id msg, smsg_sender_id = co_user_id c, smsg_room = room,
         smsg_content = content, smsg_created_at = m_timestamp msg\<rparr>))) (\<lambda>_.
     ebind (elift (srv_message W MESSAGE (co_username c) room (j_obj J [(''message'', j_str J content)]))) (\<lambda>m.
       emodify (rm_broadcast W room (m\<lparr>m_id := m_id msg\<rparr>))))))"

definition handle_chat_message :: "('j, 'st) world \<Rightarrow> u64 \<Rightarrow> 'j message \<Rightarrow> ('st server, unit) act" where
  "handle_chat_message W i msg = (let J = w_json W in
     require_auth W i (
       ebind (if m_room msg = [] then eread (rm_get_current_room i) else eret (m_room msg)) (\<lambda>room.
       if room = [] then send_error W i ''Not in any room. Use /join <room> first.'' ''NOT_IN_ROOM''
       else
         ebind (eopt (chat_content J (m_payload msg))) (\<lambda>raw.
         let content = sanitize_message raw in
         if content = [] then eret ()
         else if length content > MAX_MESSAGE_SIZE then send_error W i ''Message too long'' ''MESSAGE_TOO_LONG''
         else case parse_command content of
           Some (name, args) \<Rightarrow> handle_command W i (command_payload J name args)
         | None \<Rightarrow>
             if w_e2ee W then
               send_error W i ''This server requires end-to-end encrypted room messages. Please upgrade your client (protocol v2).'' ''E2EE_REQUIRED''
             else store_and_broadcast W i room content msg))))"

section \<open>Key exchange\<close>

definition handle_key_exchange :: "('j, 'st) world \<Rightarrow> u64 \<Rightarrow> 'j \<Rightarrow> ('st server, unit) act" where
  "handle_key_exchange W i payload = (let J = w_json W in
     if \<not> j_contains J payload ''action''
     then send_error W i ''Missing key exchange action'' ''INVALID_KEY_EXCHANGE''
     else ebind (eopt (j_at_str J payload ''action'')) (\<lambda>action.
       if action = ''publish_key'' then
         (if \<not> j_contains J payload ''public_key''
          then send_error W i ''Missing public key'' ''INVALID_KEY_EXCHANGE''
          else
            ebind (eopt (j_at_str J payload ''public_key'')) (\<lambda>public_key.
            ebind (eread (\<lambda>s. co_user_id (conn_of i s))) (\<lambda>uid.
            ebind (elift (srv_call (st_store_public_key (w_storage W) (w_wall_s W) uid public_key))) (\<lambda>ok.
            if ok then respond W i KEY_EXCHANGE ''server'' '''' (j_obj J
                [(''action'', j_str J ''key_published''), (''success'', j_bool J True)])
            else send_error W i ''Failed to store public key'' ''KEY_STORE_ERROR''))))
       else if action = ''request_key'' then
         (if \<not> j_contains J payload ''username''
          then send_error W i ''Missing target username'' ''INVALID_KEY_EXCHANGE''
          else
            ebind (eopt (j_at_str J payload ''username'')) (\<lambda>target.
            ebind (elift (srv_call (st_get_public_key_by_username (w_storage W) target))) (\<lambda>key.
            respond W i KEY_EXCHANGE ''server'' '''' (case key of
                Some k \<Rightarrow> j_obj J [(''action'', j_str J ''key_response''), (''username'', j_str J target),
                    (''public_key'', j_str J k), (''found'', j_bool J True)]
              | None \<Rightarrow> j_obj J [(''action'', j_str J ''key_response''), (''username'', j_str J target),
                    (''found'', j_bool J False)]))))
       else send_error W i (''Unknown key exchange action: '' @ action) ''INVALID_KEY_EXCHANGE''))"

section \<open>Room encryption\<close>

definition b64_member :: "'j json_api \<Rightarrow> 'j \<Rightarrow> string \<Rightarrow> nat \<Rightarrow> bool option" where
  "b64_member J payload k n = map_option (\<lambda>s. is_valid_b64_field s n) (j_value_str J payload k [])"

text \<open>\<^verbatim>\<open>!a || !b || ...\<close> stops at the first invalid field, before reading the next one.\<close>

fun all_fields :: "'j json_api \<Rightarrow> 'j \<Rightarrow> (string \<times> nat) list \<Rightarrow> bool option" where
  "all_fields J payload [] = Some True"
| "all_fields J payload ((k, n) # fs) =
     (case b64_member J payload k n of
        None \<Rightarrow> None
      | Some False \<Rightarrow> Some False
      | Some True \<Rightarrow> all_fields J payload fs)"

definition room_key_fields :: "(string \<times> nat) list" where
  "room_key_fields = [(''nonce'', MAX_ROOM_NONCE_B64_LENGTH), (''box'', MAX_ROOM_KEY_B64_LENGTH),
     (''signature'', MAX_ROOM_SIGNATURE_B64_LENGTH), (''sender_x25519'', MAX_ROOM_PUBKEY_B64_LENGTH),
     (''sender_ed25519'', MAX_ROOM_PUBKEY_B64_LENGTH)]"

definition encrypted_fields :: "(string \<times> nat) list" where
  "encrypted_fields = [(''nonce'', MAX_ROOM_NONCE_B64_LENGTH),
     (''ciphertext'', MAX_ROOM_CIPHERTEXT_B64_LENGTH), (''signature'', MAX_ROOM_SIGNATURE_B64_LENGTH)]"

definition relay_message :: "'j message \<Rightarrow> 'j message \<Rightarrow> 'j message" where
  "relay_message msg m = m\<lparr>m_id := m_id msg, m_timestamp := m_timestamp msg\<rparr>"

definition deliver_room_key :: "('j, 'st) world \<Rightarrow> u64 \<Rightarrow> 'j message \<Rightarrow> string \<Rightarrow> u64 \<Rightarrow> ('st server, unit) act" where
  "deliver_room_key W i msg recipient epoch = (let J = w_json W; room = m_room msg in
     ebind (eread (\<lambda>s. (cm_get_by_username recipient (n_cm s), co_username (conn_of i s)))) (\<lambda>(rc, me).
     case rc of
       Some r \<Rightarrow>
         ebind (eread (is_room_member r room)) (\<lambda>member.
         if \<not> member then send_error W i (''Recipient is not in room #'' @ room) ''RECIPIENT_NOT_IN_ROOM''
         else ebind (elift (srv_message W ROOM_KEY me room (m_payload msg))) (\<lambda>m.
           emodify (net_send J r (relay_message msg m))))
     | None \<Rightarrow>
         ebind (elift (srv_call (st_get_user_by_username (w_storage W) recipient))) (\<lambda>ru.
         case ru of
           None \<Rightarrow> send_error W i ''Recipient not found'' ''RECIPIENT_NOT_FOUND''
         | Some x \<Rightarrow>
             ebind (eopt (j_dump J (m_payload msg))) (\<lambda>text.
             ebind (elift (srv_call (st_store_room_key_envelope (w_storage W) (w_wall_s W) (u_id x) me
                room epoch text))) (\<lambda>ok.
               ewhen (\<not> ok) (send_error W i ''Failed to queue room key envelope'' ''QUEUE_FAILED''))))))"

definition handle_room_key :: "('j, 'st) world \<Rightarrow> u64 \<Rightarrow> 'j message \<Rightarrow> ('st server, unit) act" where
  "handle_room_key W i msg = (let J = w_json W; payload = m_payload msg; room = m_room msg in
     require_auth W i (
       if \<not> j_is_object J payload \<or> \<not> j_has_all J payload
            [''recipient'', ''epoch'', ''key_id'', ''nonce'', ''box'', ''signature'', ''sender_x25519'', ''sender_ed25519'']
       then send_error W i ''Invalid room key envelope'' ''INVALID_ROOM_KEY''
       else ebind (eread (is_room_member i room)) (\<lambda>member.
         if room = [] \<or> \<not> member then send_error W i (''You are not in room #'' @ room) ''NOT_IN_ROOM''
         else ebind (eopt (j_value_str J payload ''recipient'' [])) (\<lambda>recipient.
         ebind (eread (\<lambda>s. co_username (conn_of i s))) (\<lambda>me.
         if \<not> is_valid_username recipient \<or> recipient = me
         then send_error W i ''Invalid envelope recipient'' ''INVALID_ROOM_KEY''
         else ebind (eopt (j_value_u64 J payload ''epoch'' 0)) (\<lambda>epoch.
         if epoch = 0 then send_error W i ''Invalid envelope epoch'' ''INVALID_ROOM_KEY''
         else ebind (eopt (j_value_str J payload ''key_id'' [])) (\<lambda>key_id.
         if \<not> is_valid_hex_key_id key_id then send_error W i ''Invalid envelope key id'' ''INVALID_ROOM_KEY''
         else ebind (eopt (all_fields J payload room_key_fields)) (\<lambda>ok.
         if \<not> ok then send_error W i ''Invalid room key envelope fields'' ''INVALID_ROOM_KEY''
         else deliver_room_key W i msg recipient epoch))))))))"

definition relay_encrypted :: "('j, 'st) world \<Rightarrow> u64 \<Rightarrow> 'j message \<Rightarrow> ('st server, unit) act" where
  "relay_encrypted W i msg = (let J = w_json W; room = m_room msg in
     ebind (eread (conn_of i)) (\<lambda>c.
     ebind (eopt (j_dump J (m_payload msg))) (\<lambda>content.
     ebind (elift (srv_call (st_store_message (w_storage W)
        \<lparr>smsg_id = 0, smsg_message_id = m_id msg, smsg_sender_id = co_user_id c, smsg_room = room,
         smsg_content = content, smsg_created_at = m_timestamp msg\<rparr>))) (\<lambda>_.
     ebind (elift (srv_message W ENCRYPTED_MESSAGE (co_username c) room (m_payload msg))) (\<lambda>m.
       emodify (rm_broadcast W room (relay_message msg m)))))))"

definition handle_encrypted_message :: "('j, 'st) world \<Rightarrow> u64 \<Rightarrow> 'j message \<Rightarrow> ('st server, unit) act" where
  "handle_encrypted_message W i msg = (let J = w_json W; payload = m_payload msg; room = m_room msg in
     require_auth W i (
       if room = [] then send_error W i ''Encrypted message requires a room'' ''INVALID_PARAMS''
       else ebind (eread (is_room_member i room)) (\<lambda>member.
         if \<not> member then send_error W i (''You are not in room #'' @ room) ''NOT_IN_ROOM''
         else if \<not> j_is_object J payload \<or> \<not> j_has_all J payload
            [''epoch'', ''key_id'', ''index'', ''nonce'', ''ciphertext'', ''signature'']
         then send_error W i ''Invalid encrypted message'' ''INVALID_ENCRYPTED_MESSAGE''
         else
           ebind (eopt (j_value_u64 J payload ''epoch'' 0)) (\<lambda>epoch.
           ebind (eopt (j_value_str J payload ''key_id'' [])) (\<lambda>key_id.
           ebind (eopt (j_value_i64 J payload ''index'' (-1))) (\<lambda>index.
           if epoch = 0 \<or> \<not> is_valid_hex_key_id key_id \<or> sint index < 0
           then send_error W i ''Invalid encrypted message metadata'' ''INVALID_ENCRYPTED_MESSAGE''
           else ebind (eopt (all_fields J payload encrypted_fields)) (\<lambda>ok.
             if \<not> ok then send_error W i ''Invalid encrypted message fields'' ''INVALID_ENCRYPTED_MESSAGE''
             else relay_encrypted W i msg)))))))"

section \<open>Dispatch\<close>

definition handle_auth_request :: "('j, 'st) world \<Rightarrow> u64 \<Rightarrow> 'j \<Rightarrow> ('st server, unit) act" where
  "handle_auth_request W i payload =
     (if j_contains (w_json W) payload ''action'' then
        ebind (eopt (j_at_str (w_json W) payload ''action'')) (\<lambda>action.
          if action = ''login'' then handle_login W i payload
          else if action = ''register'' then handle_register W i payload
          else eret ())
      else eret ())"

definition dispatch :: "('j, 'st) world \<Rightarrow> u64 \<Rightarrow> 'j message \<Rightarrow> ('st server, unit) act" where
  "dispatch W i msg =
     (case m_type msg of
        COMMAND \<Rightarrow> handle_command W i (m_payload msg)
      | MESSAGE \<Rightarrow> handle_chat_message W i msg
      | AUTH_REQUEST \<Rightarrow> handle_auth_request W i (m_payload msg)
      | KEY_EXCHANGE \<Rightarrow>
          ebind (eread (\<lambda>s. conn_is_authenticated (conn_of i s))) (\<lambda>auth.
            if auth then handle_key_exchange W i (m_payload msg)
            else send_error W i ''Please login first'' ''NOT_AUTHENTICATED'')
      | ROOM_KEY \<Rightarrow> handle_room_key W i msg
      | ENCRYPTED_MESSAGE \<Rightarrow> handle_encrypted_message W i msg
      | _ \<Rightarrow> send_error W i ''Unknown message type'' ''INVALID_TYPE'')"

definition handle :: "('j, 'st) world \<Rightarrow> u64 \<Rightarrow> 'j message \<Rightarrow> ('st server, unit) act" where
  "handle W i msg =
     ebind (check_rate_limit W i) (\<lambda>ok.
       if \<not> ok then send_error W i ''Rate limit exceeded. Please slow down.'' ''RATE_LIMITED''
       else eseq (emodify (\<lambda>s. s\<lparr>sv_sessions := sm_update i (session_touch (w_steady W)) (sv_sessions s)\<rparr>))
         (dispatch W i msg))"

section \<open>What a message can change\<close>

lemma srv_call_eq:
  "srv_call f s = (fst (f (sv_storage s)), s\<lparr>sv_storage := snd (f (sv_storage s))\<rparr>)"
  by (simp add: srv_call_def case_prod_unfold Let_def)

lemma srv_call_frame:
  "n_cm (snd (srv_call f s)) = n_cm s" "n_objs (snd (srv_call f s)) = n_objs s"
  by (simp_all add: srv_call_eq)

lemma respond_run:
  "respond W i t f r p s = (Some (), net_send (w_json W) i (fst (srv_message W t f r p s)) (s\<lparr>sv_draws := sv_draws s + 2\<rparr>))"
  by (simp add: respond_def ebind_run elift_run emodify_run srv_message_def)

lemma send_error_run:
  "send_error W i m e s = (Some (), net_send (w_json W) i
     (fst (srv_message W ERROR ''server'' '''' (error_payload (w_json W) m e) s)) (s\<lparr>sv_draws := sv_draws s + 2\<rparr>))"
  by (simp add: send_error_def respond_run)

text \<open>\<open>s'\<close> differs from \<open>s\<close> only by one message queued on connection \<open>i\<close>.\<close>

definition only_tells :: "('j, 'st) world \<Rightarrow> u64 \<Rightarrow> 'j message \<Rightarrow> 'st server \<Rightarrow> 'st server \<Rightarrow> bool" where
  "only_tells W i e s s' \<longleftrightarrow>
     n_cm s' = n_cm s \<and> sv_storage s' = sv_storage s \<and> sv_current_rooms s' = sv_current_rooms s \<and>
     n_objs s' = (n_objs s)(i := conn_send (w_json W) e (n_objs s i))"

lemma send_error_only_tells:
  "\<exists>e. only_tells W i e s (snd (send_error W i m c s)) \<and> m_type e = ERROR \<and>
       m_payload e = error_payload (w_json W) m c"
  by (rule exI [of _ "fst (srv_message W ERROR ''server'' '''' (error_payload (w_json W) m c) s)"])
    (simp add: only_tells_def send_error_run net_send_def net_upd_def srv_message_def message_create_def)

lemma only_tells_sessions: "only_tells W i e (s\<lparr>sv_sessions := x\<rparr>) s' = only_tells W i e s s'"
  by (simp add: only_tells_def)

definition sample_world :: "bool \<Rightarrow> (jval, sqlite_db) world" where
  "sample_world e2ee = \<lparr>w_json = jval_api, w_storage = sqlite_storage sql_reliable, w_hash = plain_hasher,
     w_rand = (\<lambda>_. 0), w_fl = exact, w_steady = 1000 * ns_per_s, w_msg_time = 5, w_wall_s = 6, w_e2ee = e2ee\<rparr>"

definition sample_server :: "sqlite_db server" where
  "sample_server = \<lparr>
     n_objs = connection_new(1 := (connection_new 1)\<lparr>co_user_id := 1, co_username := ''ann''\<rparr>),
     n_cm = cm_register_username ''ann'' 1 (cm_add_to_room 1 ''general'' (cm_add 2 (cm_add 1 conn_manager_new))),
     sv_sessions = session_manager_new dual_limiter_default, sv_current_rooms = Map.empty,
     sv_storage = sqlite_sample, sv_login_attempts = Map.empty, sv_draws = 0\<rparr>"

text \<open>
  A message that exceeds the rate limit has no effect but an error sent to its
  sender: rooms, names, storage and every other connection stay as they were.
\<close>

theorem rate_limited_only_error:
  assumes "sm_check_rate_limit (w_fl W) (w_steady W) i (sv_sessions s) = (False, sm)"
  shows "\<exists>e. only_tells W i e s (snd (handle W i msg s)) \<and> m_type e = ERROR \<and>
    m_payload e = error_payload (w_json W) ''Rate limit exceeded. Please slow down.'' ''RATE_LIMITED''"
proof -
  have "snd (handle W i msg s) = snd (send_error W i ''Rate limit exceeded. Please slow down.'' ''RATE_LIMITED''
      (s\<lparr>sv_sessions := sm\<rparr>))"
    using assms by (simp add: handle_def check_rate_limit_def ebind_run elift_run)
  then show ?thesis
    using send_error_only_tells [of W i "s\<lparr>sv_sessions := sm\<rparr>"] by (simp add: only_tells_sessions)
qed

theorem rate_limited_only_error_witness:
  "\<exists>e. only_tells (sample_world True) 2 e sample_server (snd (handle (sample_world True) 2
     (message_create jval_api 0 0 0 COMMAND ''x'' '''') sample_server))"
proof -
  have "sm_check_rate_limit exact (1000 * ns_per_s) 2 (sv_sessions sample_server) = (False, sv_sessions sample_server)"
    by (simp add: sample_server_def sm_check_rate_limit_def session_manager_new_def)
  then show ?thesis
    using rate_limited_only_error [of "sample_world True" 2 sample_server "sv_sessions sample_server"]
    by (auto simp: sample_world_def)
qed



definition encrypted_payload_ok :: "'j json_api \<Rightarrow> 'j \<Rightarrow> bool" where
  "encrypted_payload_ok J p \<longleftrightarrow>
     j_is_object J p \<and> j_has_all J p [''epoch'', ''key_id'', ''index'', ''nonce'', ''ciphertext'', ''signature''] \<and>
     (case (j_value_u64 J p ''epoch'' 0, j_value_str J p ''key_id'' [], j_value_i64 J p ''index'' (-1),
            all_fields J p encrypted_fields) of
        (Some epoch, Some key_id, Some index, Some ok) \<Rightarrow>
          epoch \<noteq> 0 \<and> is_valid_hex_key_id key_id \<and> 0 \<le> sint index \<and> ok
      | _ \<Rightarrow> False)"

lemma encrypted_run:
  assumes "conn_is_authenticated (n_objs s i)" and "m_room msg \<noteq> []" and "is_room_member i (m_room msg) s"
    and "encrypted_payload_ok (w_json W) (m_payload msg)"
  shows "handle_encrypted_message W i msg s = relay_encrypted W i msg s"
  using assms
  by (auto simp: handle_encrypted_message_def require_auth_def ebind_run eread_run eopt_run conn_of_def
      encrypted_payload_ok_def Let_def split: option.splits)

lemma encrypted_relay_exact_core:
  assumes "rooms_ok (n_cm s)" and "conn_is_authenticated (n_objs s i)" and "m_room msg \<noteq> []"
    and "is_room_member i (m_room msg) s" and "encrypted_payload_ok (w_json W) (m_payload msg)"
    and "j_dump (w_json W) (m_payload msg) = Some text"
  shows "let s' = snd (handle_encrypted_message W i msg s);
      relay = \<lparr>m_type = ENCRYPTED_MESSAGE, m_id = m_id msg, m_timestamp = m_timestamp msg,
        m_from = co_username (n_objs s i), m_room = m_room msg, m_payload = m_payload msg\<rparr>
    in fst (handle_encrypted_message W i msg s) = Some () \<and>
       (\<forall>j. n_objs s' j = (if j \<in> cm_members (n_cm s) (m_room msg) \<and> j \<in> set (cm_connections (n_cm s))
          then conn_send (w_json W) relay (n_objs s j) else n_objs s j)) \<and>
       n_cm s' = n_cm s \<and>
       sv_storage s' = snd (st_store_message (w_storage W)
         \<lparr>smsg_id = 0, smsg_message_id = m_id msg, smsg_sender_id = co_user_id (n_objs s i),
          smsg_room = m_room msg, smsg_content = text, smsg_created_at = m_timestamp msg\<rparr> (sv_storage s))"
proof -
  let ?relay = "\<lparr>m_type = ENCRYPTED_MESSAGE, m_id = m_id msg, m_timestamp = m_timestamp msg,
        m_from = co_username (n_objs s i), m_room = m_room msg, m_payload = m_payload msg\<rparr>"
  let ?st = "snd (st_store_message (w_storage W)
         \<lparr>smsg_id = 0, smsg_message_id = m_id msg, smsg_sender_id = co_user_id (n_objs s i),
          smsg_room = m_room msg, smsg_content = text, smsg_created_at = m_timestamp msg\<rparr> (sv_storage s))"
  let ?s1 = "(s\<lparr>sv_storage := ?st\<rparr>)\<lparr>sv_draws := sv_draws s + 2\<rparr>"
  have run: "handle_encrypted_message W i msg s = (Some (), cm_broadcast_to_room (w_json W) (m_room msg) ?relay ?s1)"
    using encrypted_run [OF assms(2-5)] assms(6)
    by (simp add: relay_encrypted_def ebind_run eread_run eopt_run elift_run emodify_run srv_call_eq srv_message_def
        message_create_def relay_message_def rm_broadcast_def conn_of_def Let_def)
  have "rooms_ok (n_cm ?s1)" using assms(1) by simp
  note B = broadcast_to_room_exact_core [OF this, of "w_json W" "m_room msg" ?relay]
  have "sv_storage (cm_broadcast_to_room (w_json W) (m_room msg) ?relay ?s1) = ?st"
    by (simp add: cm_broadcast_to_room_def)
  with B show ?thesis by (simp add: run Let_def)
qed

text \<open>
  C15: A well-formed encrypted message from a member of the room is stored verbatim and
  relayed to exactly the connections in the room: one copy each, with the sender's
  message id, timestamp and payload unchanged and the server-side username as the
  sender. No other connection, no room and no name changes.
\<close>

theorem encrypted_relay_exact:
  assumes "rooms_ok (n_cm s)" and "conn_is_authenticated (n_objs s i)" and "m_room msg \<noteq> []"
    and "is_room_member i (m_room msg) s" and "encrypted_payload_ok (w_json W) (m_payload msg)"
    and "j_dump (w_json W) (m_payload msg) = Some text"
  shows "let s' = snd (handle_encrypted_message W i msg s);
      relay = \<lparr>m_type = ENCRYPTED_MESSAGE, m_id = m_id msg, m_timestamp = m_timestamp msg,
        m_from = co_username (n_objs s i), m_room = m_room msg, m_payload = m_payload msg\<rparr>
    in fst (handle_encrypted_message W i msg s) = Some () \<and>
       (\<forall>j. n_objs s' j = (if j \<in> cm_members (n_cm s) (m_room msg) \<and> j \<in> set (cm_connections (n_cm s))
          then conn_send (w_json W) relay (n_objs s j) else n_objs s j)) \<and>
       n_cm s' = n_cm s \<and>
       sv_storage s' = snd (st_store_message (w_storage W)
         \<lparr>smsg_id = 0, smsg_message_id = m_id msg, smsg_sender_id = co_user_id (n_objs s i),
          smsg_room = m_room msg, smsg_content = text, smsg_created_at = m_timestamp msg\<rparr> (sv_storage s))"
  by (rule encrypted_relay_exact_core [OF assms])

definition sample_encrypted :: "jval message" where
  "sample_encrypted = \<lparr>m_type = ENCRYPTED_MESSAGE, m_id = ''id1'', m_timestamp = 7, m_from = ''forged'',
     m_room = ''general'', m_payload = JObj [(''epoch'', JNum 2), (''key_id'', JStr ''ab''), (''index'', JNum 0),
       (''nonce'', JStr ''AA''), (''ciphertext'', JStr ''BB''), (''signature'', JStr ''CC'')]\<rparr>"

lemma sample_encrypted_ok: "encrypted_payload_ok jval_api (m_payload sample_encrypted)"
  by (simp add: encrypted_payload_ok_def sample_encrypted_def jval_api_simps j_has_all_def j_value_def
      b64_member_def encrypted_fields_def is_valid_b64_field_def is_b64_char_def is_valid_hex_key_id_def
      MAX_ROOM_NONCE_B64_LENGTH_def MAX_ROOM_CIPHERTEXT_B64_LENGTH_def MAX_ROOM_SIGNATURE_B64_LENGTH_def
      isupper_c_def isdigit_c_def)

lemma sample_server_rooms_ok: "rooms_ok (n_cm sample_server)"
  by (simp add: sample_server_def add_to_room_ok rooms_ok_new)

lemma sample_server_room:
  "cm_members (n_cm sample_server) ''general'' = {1}" "set (cm_connections (n_cm sample_server)) = {1, 2}"
  "is_room_member 1 ''general'' sample_server" "rooms_ok (n_cm sample_server)"
  "conn_is_authenticated (n_objs sample_server 1)"
  using sample_server_rooms_ok
  by (auto simp: sample_server_def cm_members_def cm_register_username_def cm_add_to_room_def cm_add_def
      conn_manager_new_def uset_insert_def is_room_member_def cm_get_room_members_def
      conn_is_authenticated_def)

theorem encrypted_relay_exact_witness:
  "n_objs (snd (handle_encrypted_message (sample_world True) 1 sample_encrypted sample_server)) 1
     = conn_send jval_api (sample_encrypted\<lparr>m_from := ''ann''\<rparr>) (n_objs sample_server 1)"
proof -
  have J: "w_json (sample_world True) = jval_api" by (simp add: sample_world_def)
  have r: "m_room sample_encrypted = ''general''" by (simp add: sample_encrypted_def)
  have d: "j_dump (w_json (sample_world True)) (m_payload sample_encrypted)
      = Some (put_jval (m_payload sample_encrypted))"
    by (simp add: J jval_api_def)
  have p: "encrypted_payload_ok (w_json (sample_world True)) (m_payload sample_encrypted)"
    by (simp only: J sample_encrypted_ok)
  have "co_username (n_objs sample_server 1) = ''ann''" by (simp add: sample_server_def)
  with encrypted_relay_exact [OF sample_server_room(4,5), of sample_encrypted, OF _ _ p d] sample_server_room
  show ?thesis by (simp add: r J Let_def) (simp add: sample_encrypted_def)
qed

text \<open>
  When the server requires encryption, a plaintext chat message that is not a slash
  command is never stored or passed on: storage, rooms and every connection but the
  sender's stay exactly as they were.
\<close>

theorem plaintext_never_relayed:
  assumes "w_e2ee W"
    and "\<And>raw. chat_content (w_json W) (m_payload msg) = Some raw \<Longrightarrow> parse_command (sanitize_message raw) = None"
  shows "let s' = snd (handle_chat_message W i msg s) in
    sv_storage s' = sv_storage s \<and> n_cm s' = n_cm s \<and> (\<forall>j. j \<noteq> i \<longrightarrow> n_objs s' j = n_objs s j)"
  using assms
  by (auto simp: handle_chat_message_def require_auth_def ebind_run eread_run eopt_run eret_run send_error_run
      net_send_def net_upd_def Let_def split: option.splits)

theorem plaintext_never_relayed_witness:
  "sv_storage (snd (handle_chat_message (sample_world True) 1
     \<lparr>m_type = MESSAGE, m_id = [], m_timestamp = 0, m_from = [], m_room = ''general'',
      m_payload = JObj [(''message'', JStr ''hi'')]\<rparr> sample_server)) = sqlite_sample"
proof -
  let ?m = "\<lparr>m_type = MESSAGE, m_id = [], m_timestamp = 0, m_from = [], m_room = ''general'',
      m_payload = JObj [(''message'', JStr ''hi'')]\<rparr>"
  have c: "chat_content (w_json (sample_world True)) (m_payload ?m) = Some ''hi''"
    by (simp add: sample_world_def chat_content_def jval_api_simps j_at_str_def)
  have "Option.is_none (parse_command (sanitize_message ''hi''))" by code_simp
  then have "parse_command (sanitize_message ''hi'') = None" by (simp add: Option.is_none_def)
  then have "chat_content (w_json (sample_world True)) (m_payload ?m) = Some raw \<Longrightarrow>
      parse_command (sanitize_message raw) = None" for raw
    using c by simp
  from plaintext_never_relayed [of "sample_world True" ?m 1 sample_server, OF _ this]
  show ?thesis by (simp add: Let_def sample_world_def) (simp add: sample_server_def)
qed

end
