(* ===== verification/Handler_Frame.thy ===== *)
theory Handler_Frame
  imports Command_Handler
begin

text \<open>
  What every command handler does to the server. The locale \<open>handler_frame\<close> lists the
  elementary changes a handler of connection \<open>i\<close> can make: a storage call, an update of the
  session table, a message to some connection, joining and leaving rooms, closing its own
  connection, taking a free name. A predicate kept by each of them is kept by
  \<^verbatim>\<open>CommandHandler::handle\<close>; that is proved here once. The server invariant is the first instance; the
  theories on the running server use others.
\<close>

section \<open>Storage calls of the handlers\<close>

inductive storage_call :: "('j, 'st) world \<Rightarrow> ('st \<Rightarrow> 'st) \<Rightarrow> bool" for W where
  "storage_call W (\<lambda>st. snd (st_get_room (w_storage W) r st))"
| "storage_call W (\<lambda>st. snd (st_create_room (w_storage W) now r d st))"
| "storage_call W (\<lambda>st. snd (st_list_rooms (w_storage W) st))"
| "storage_call W (\<lambda>st. snd (st_room_epoch (w_storage W) r st))"
| "storage_call W (\<lambda>st. snd (st_bump_room_epoch (w_storage W) r st))"
| "storage_call W (\<lambda>st. snd (st_store_message (w_storage W) m st))"
| "storage_call W (\<lambda>st. snd (st_store_public_key (w_storage W) now k pk st))"
| "storage_call W (\<lambda>st. snd (st_get_public_key_by_username (w_storage W) u st))"
| "storage_call W (\<lambda>st. snd (st_store_room_key_envelope (w_storage W) now k u r e pl st))"
| "storage_call W (\<lambda>st. snd (st_take_room_key_envelopes (w_storage W) k st))"
| "storage_call W (\<lambda>st. snd (st_get_user_by_username (w_storage W) u st))"
| "storage_call W (\<lambda>st. snd (st_rename_user (w_storage W) k u st))"
| "storage_call W (\<lambda>st. snd (register_user (w_hash W) (w_storage W) now salt u p st))"
| "storage_call W (\<lambda>st. snd (auth_login (w_hash W) (w_storage W) now salt u p st))"

lemmas storage_call_intros = storage_call.intros

context storage_contract
begin

lemma storage_call_wf:
  assumes "storage_call W g" and "w_storage W = S" and "wf st"
  shows "wf (g st)"
proof -
  have reg: "wf (snd (register_user H S now salt u p st))" for H now salt u p
    using register_success [OF assms(3)] register_failure_keeps [OF assms(3)] by (metis prod.collapse)
  have log: "wf (snd (auth_login H S now salt u p st))" for H now salt u p
    using login_wf [OF assms(3)] by (metis prod.collapse)
  have "wf (snd (st_room_epoch S r st))" "wf (snd (st_bump_room_epoch S r st))"
    "wf (snd (st_store_public_key S now k pk st))" "wf (snd (st_get_user_by_username S u st))"
    "wf (snd (st_rename_user S k u st))" for r now k pk u
    using room_epoch [OF assms(3)] bump_room_epoch [OF assms(3)] store_public_key [OF assms(3)]
      get_user_by_username [OF assms(3)] rename_user [OF assms(3)] by (metis prod.collapse)+
  with assms reg log show ?thesis
    by (cases rule: storage_call.cases)
      (auto simp: create_room_wf get_room_wf list_rooms_wf store_message_wf key_by_username_wf
        store_envelope_wf take_envelopes_wf)
qed

end

section \<open>The frame of a handler\<close>

definition rename_bind :: "u64 \<Rightarrow> string \<Rightarrow> 'st server \<Rightarrow> 'st server" where
  "rename_bind i n s = cm_upd (cm_register_username n i)
     (cm_upd (cm_unregister_username (co_username (n_objs s i))) (net_upd i (conn_set_username n) s))"

locale handler_frame =
  fixes Q :: "'st server \<Rightarrow> bool" and W :: "('j, 'st) world" and i :: u64
  assumes q_draws: "Q s \<Longrightarrow> Q (s\<lparr>sv_draws := d\<rparr>)"
    and q_attempts: "Q s \<Longrightarrow> Q (s\<lparr>sv_login_attempts := a\<rparr>)"
    and q_current: "Q s \<Longrightarrow> Q (s\<lparr>sv_current_rooms := (sv_current_rooms s)(i := v)\<rparr>)"
    and q_rate: "Q s \<Longrightarrow> Q (s\<lparr>sv_sessions := snd (sm_check_rate_limit (w_fl W) (w_steady W) i (sv_sessions s))\<rparr>)"
    and q_touch: "Q s \<Longrightarrow> Q (s\<lparr>sv_sessions := sm_update i (session_touch (w_steady W)) (sv_sessions s)\<rparr>)"
    and q_session_name: "Q s \<Longrightarrow> Q (s\<lparr>sv_sessions := sm_update i (\<lambda>x. x\<lparr>se_username := n\<rparr>) (sv_sessions s)\<rparr>)"
    and q_authenticate: "Q s \<Longrightarrow> \<not> conn_is_authenticated (n_objs s i) \<Longrightarrow> uid \<noteq> 0 \<Longrightarrow>
      Q (s\<lparr>sv_sessions := snd (sm_authenticate (w_steady W) i uid u (sv_sessions s))\<rparr>)"
    and q_storage: "storage_call W g \<Longrightarrow> Q s \<Longrightarrow> Q (s\<lparr>sv_storage := g (sv_storage s)\<rparr>)"
    and q_send: "Q s \<Longrightarrow> (m_type m = MESSAGE \<Longrightarrow> \<not> w_e2ee W) \<Longrightarrow> Q (net_send (w_json W) j m s)"
    and q_join: "Q s \<Longrightarrow> Q (cm_upd (cm_add_to_room i r) s)"
    and q_leave: "Q s \<Longrightarrow> Q (cm_upd (cm_remove_from_room i r) s)"
    and q_leave_all: "Q s \<Longrightarrow> Q (cm_upd (cm_remove_from_all_rooms i) s)"
    and q_close: "Q s \<Longrightarrow> Q (net_upd i conn_close s)"
    and q_uid: "Q s \<Longrightarrow> fst (fst (srv_login W u p s)) = SUCCESS \<Longrightarrow> snd (fst (srv_login W u p s)) \<noteq> 0"
    and q_login: "Q s \<Longrightarrow> \<not> conn_is_authenticated (n_objs s i) \<Longrightarrow> uid \<noteq> 0 \<Longrightarrow>
      cm_username_index (n_cm s) u = None \<Longrightarrow> Q (login_bind i uid u s)"
    and q_rename: "Q s \<Longrightarrow> conn_is_authenticated (n_objs s i) \<Longrightarrow> cm_username_index (n_cm s) n = None \<Longrightarrow>
      Q (rename_bind i n s)"
begin

lemma call_keeps: "storage_call W (\<lambda>st. snd (f st)) \<Longrightarrow> Q s \<Longrightarrow> Q (snd (srv_call f s))"
  using q_storage [of "\<lambda>st. snd (f st)" s] by (simp add: srv_call_eq)

lemma message_keeps: "Q s \<Longrightarrow> Q (snd (srv_message W t f r p s))"
  by (simp add: srv_message_def q_draws)

lemma message_type: "m_type (fst (srv_message W t f r p s)) = t"
  by (simp add: srv_message_def message_create_def)

lemma send_all_keeps: "Q s \<Longrightarrow> (m_type m = MESSAGE \<Longrightarrow> \<not> w_e2ee W) \<Longrightarrow> Q (net_send_all (w_json W) is m s)"
  by (induction "is" arbitrary: s) (simp_all add: q_send)

lemma broadcasts_keep:
  assumes "Q s" and "m_type m = MESSAGE \<Longrightarrow> \<not> w_e2ee W"
  shows "Q (rm_broadcast W r m s)" and "Q (cm_broadcast (w_json W) m s)"
    and "Q (cm_broadcast_except (w_json W) k m s)" and "Q (rm_broadcast_except W r k m s)"
  using send_all_keeps [OF assms]
  by (simp_all add: rm_broadcast_def cm_broadcast_to_room_def cm_broadcast_def cm_broadcast_except_def
      rm_broadcast_except_def)

lemma respond_keeps: "t \<noteq> MESSAGE \<Longrightarrow> keeps Q (respond W k t f r p)"
  unfolding respond_def
  by (rule keepsI) (auto simp: ebind_run elift_run emodify_run message_type intro!: q_send message_keeps)

lemma replies_keep: "keeps Q (send_error W k m e)" "keeps Q (send_system W k m)"
  unfolding send_error_def send_system_def by (rule respond_keeps, simp)+

lemma require_auth_keeps: "keeps Q k \<Longrightarrow> keeps Q (require_auth W j k)"
  unfolding require_auth_def by (intro keeps_intros replies_keep)

lemma storage_keeps: "storage_call W (\<lambda>st. snd (f st)) \<Longrightarrow> keeps Q (elift (srv_call f))"
  by (rule keeps_elift) (rule call_keeps)

text \<open>A message that is created and then handed to a broadcast of the given type.\<close>

lemma announce_last_keeps:
  assumes "\<And>m s. Q s \<Longrightarrow> m_type m = t \<Longrightarrow> Q (g m s)"
  shows "keeps Q (ebind (elift (srv_message W t f r p)) (\<lambda>m. emodify (g m)))"
  using assms by (auto intro!: keepsI simp: ebind_run elift_run emodify_run message_keeps message_type)

lemma announce_then_keeps:
  assumes "\<And>m s. Q s \<Longrightarrow> m_type m = t \<Longrightarrow> Q (g m s)" and "keeps Q k"
  shows "keeps Q (ebind (elift (srv_message W t f r p)) (\<lambda>m. eseq (emodify (g m)) k))"
  using assms keepsD [OF assms(2)]
  by (auto intro!: keepsI simp: ebind_run elift_run eseq_run emodify_run message_keeps message_type)

lemmas announce_keeps = announce_last_keeps announce_then_keeps

lemmas frame_keeps = respond_keeps replies_keep require_auth_keeps storage_keeps storage_call_intros

lemma membership_keeps: "Q s \<Longrightarrow> Q (rm_broadcast_membership W r a u s)"
  using call_keeps [of "st_bump_room_epoch (w_storage W) r" s]
  by (auto simp: rm_broadcast_membership_def case_prod_unfold Let_def message_type
      intro!: broadcasts_keep message_keeps storage_call_intros)

lemma current_room_keeps: "Q s \<Longrightarrow> Q (rm_set_current_room i r s)"
  by (simp add: rm_set_current_room_def q_current)

lemma join_keeps: "Q s \<Longrightarrow> Q (snd (rm_join W i r s))"
  by (auto simp: rm_join_def rm_create_room_def case_prod_unfold Let_def message_type
      intro!: membership_keeps broadcasts_keep message_keeps current_room_keeps q_join call_keeps storage_call_intros)

lemma notify_leave_keeps: "Q s \<Longrightarrow> Q (rm_notify_leave W u r s)"
  by (auto simp: rm_notify_leave_def case_prod_unfold Let_def message_type
      intro!: membership_keeps broadcasts_keep message_keeps)

lemma leave_keeps: "Q s \<Longrightarrow> Q (snd (rm_leave W i r s))"
  by (auto simp: rm_leave_def rm_leave_current_def Let_def
      intro!: notify_leave_keeps current_room_keeps q_leave)

lemma leave_all_keeps:
  assumes "Q s"
  shows "Q (rm_leave_all W i s)"
proof -
  have "Q s' \<Longrightarrow> Q (fold (rm_notify_leave W u) rs s')" for u rs s'
    by (induction rs arbitrary: s') (simp_all add: notify_leave_keeps)
  with q_leave_all [OF assms] show ?thesis by (simp add: rm_leave_all_def Let_def q_current)
qed

lemma deliver_keeps: "keeps Q (deliver_room_key_envelopes W k)"
  unfolding deliver_room_key_envelopes_def deliver_one_def
  by (intro keeps_intros frame_keeps) simp

lemma handle_join_keeps: "keeps Q (handle_join W i p)"
  unfolding handle_join_def Let_def
  by (intro keeps_intros frame_keeps deliver_keeps keeps_elift join_keeps) simp_all

lemma handle_leave_keeps: "keeps Q (handle_leave W i p)"
  unfolding handle_leave_def payload_room_def Let_def
  by (intro keeps_intros frame_keeps keeps_elift leave_keeps) simp_all

lemma handle_register_keeps: "keeps Q (handle_register W i p)"
proof -
  have "keeps Q (elift (srv_register W u pw))" for u pw
    by (rule keeps_elift)
      (auto simp: srv_register_def case_prod_unfold Let_def intro!: q_draws call_keeps storage_call_intros)
  then show ?thesis
    unfolding handle_register_def require_no_auth_def Let_def
    by (intro keeps_intros frame_keeps) simp_all
qed

lemma handle_users_keeps: "keeps Q (handle_users W i p)"
  unfolding handle_users_def payload_room_def Let_def by (intro keeps_intros frame_keeps) simp_all

lemma handle_dm_keeps: "keeps Q (handle_dm W i p)"
  unfolding handle_dm_def Let_def by (intro keeps_intros frame_keeps) simp_all

lemma handle_rooms_keeps: "keeps Q (handle_rooms W i)"
  unfolding handle_rooms_def Let_def by (intro keeps_intros frame_keeps) simp_all

lemma handle_quit_keeps: "keeps Q (handle_quit W i)"
  unfolding handle_quit_def
  by (intro keeps_intros announce_keeps frame_keeps keeps_emodify leave_all_keeps broadcasts_keep q_close) simp_all

lemma handle_key_exchange_keeps: "keeps Q (handle_key_exchange W i p)"
  unfolding handle_key_exchange_def Let_def by (intro keeps_intros frame_keeps) simp_all

lemma handle_room_key_keeps: "keeps Q (handle_room_key W i m)"
  unfolding handle_room_key_def deliver_room_key_def Let_def
  by (intro announce_keeps keeps_intros frame_keeps q_send) (simp_all add: relay_message_def)

lemma handle_encrypted_message_keeps: "keeps Q (handle_encrypted_message W i m)"
  unfolding handle_encrypted_message_def relay_encrypted_def Let_def
  by (intro announce_keeps keeps_intros frame_keeps broadcasts_keep) (simp_all add: relay_message_def)

lemma login_welcome_keeps: "keeps Q (login_welcome W i uid u)"
  unfolding login_welcome_def Let_def
  by (intro announce_keeps keeps_intros frame_keeps handle_join_keeps broadcasts_keep keeps_emodify q_attempts) simp_all

subsection \<open>Logging in\<close>

definition unauth :: "'st server \<Rightarrow> bool" where
  "unauth s \<longleftrightarrow> Q s \<and> \<not> conn_is_authenticated (n_objs s i)"

lemma send_error_triple: "(\<And>s. P s \<Longrightarrow> Q s) \<Longrightarrow> triple P (send_error W k m e) (\<lambda>_. Q) Q"
  by (rule keeps_triple [OF replies_keep(1)])

lemma unauth_opt: "triple unauth (eopt x) (\<lambda>_. unauth) Q"
  by (auto simp: triple_def eopt_def unauth_def split: option.split)

lemma login_run:
  "n_cm (snd (srv_login W u p s)) = n_cm s" "n_objs (snd (srv_login W u p s)) = n_objs s"
  "Q s \<Longrightarrow> Q (snd (srv_login W u p s))"
  by (auto simp: srv_login_def case_prod_unfold Let_def srv_call_frame
      intro!: q_draws call_keeps storage_call_intros)

lemma authenticate_run:
  "n_cm (snd (srv_authenticate W i uid u s)) = n_cm s" "n_objs (snd (srv_authenticate W i uid u s)) = n_objs s"
  "Q s \<Longrightarrow> \<not> conn_is_authenticated (n_objs s i) \<Longrightarrow> uid \<noteq> 0 \<Longrightarrow> Q (snd (srv_authenticate W i uid u s))"
  by (simp_all add: srv_authenticate_def case_prod_unfold Let_def q_authenticate)

lemma login_accept_keeps:
  assumes "uid \<noteq> 0"
  shows "triple unauth (login_accept W i uid u) (\<lambda>_. Q) Q"
  unfolding login_accept_def
proof (rule triple_bind [OF triple_read], rule triple_if)
  fix e :: "u64 option"
  let ?P = "\<lambda>s. unauth s \<and> e = cm_get_by_username u (n_cm s)"
  show "triple ?P (send_error W i ''User already logged in from another location'' ''ALREADY_LOGGED_IN'') (\<lambda>_. Q) Q"
    by (rule send_error_triple) (simp add: unauth_def)
  assume e: "\<not> e \<noteq> None"
  let ?R = "\<lambda>s. unauth s \<and> cm_username_index (n_cm s) u = None"
  have "triple ?P (elift (srv_authenticate W i uid u)) (\<lambda>_. ?R) Q"
    by (rule triple_lift) (use e assms in \<open>simp add: unauth_def authenticate_run cm_get_by_username_def\<close>)
  moreover have "triple ?R (if \<not> ok then send_error W i ''Failed to create session'' ''SESSION_ERROR''
      else eseq (emodify (login_bind i uid u)) (login_welcome W i uid u)) (\<lambda>_. Q) Q" for ok
    by (rule triple_if, rule send_error_triple, simp add: unauth_def,
        rule triple_seq [where R = Q], rule triple_modify)
      (auto simp: unauth_def q_login assms triple_keeps login_welcome_keeps)
  ultimately show "triple ?P (ebind (elift (srv_authenticate W i uid u)) (\<lambda>ok.
         if \<not> ok then send_error W i ''Failed to create session'' ''SESSION_ERROR''
         else eseq (emodify (login_bind i uid u)) (login_welcome W i uid u))) (\<lambda>_. Q) Q"
    by (rule triple_bind)
qed

lemma login_checked_keeps:
  "triple unauth (ebind (elift (srv_login W u p)) (\<lambda>(result, user_id).
      if result \<noteq> SUCCESS then login_refuse W i u result else login_accept W i user_id u)) (\<lambda>_. Q) Q"
proof (rule triple_bind)
  let ?R = "\<lambda>r s. unauth s \<and> (fst r = SUCCESS \<longrightarrow> snd r \<noteq> 0)"
  show "triple unauth (elift (srv_login W u p)) ?R Q"
    by (rule triple_lift) (simp add: unauth_def login_run q_uid)
  fix r :: "auth_result \<times> u64"
  have "triple (?R r) (login_refuse W i u x) (\<lambda>_. Q) Q" for x
    unfolding login_refuse_def
    by (rule keeps_triple)
      (auto intro!: keeps_intros replies_keep keeps_emodify q_attempts simp: set_attempt_def unauth_def)
  moreover have "triple (?R r) (login_accept W i uid u) (\<lambda>_. Q) Q" if "r = (SUCCESS, uid)" for uid
    using that by (cases "uid = 0") (simp add: triple_def, rule triple_pre [OF login_accept_keeps], simp_all)
  ultimately show "triple (?R r) (case r of (result, user_id) \<Rightarrow>
      if result \<noteq> SUCCESS then login_refuse W i u result else login_accept W i user_id u) (\<lambda>_. Q) Q"
    by (auto intro!: triple_case_prod triple_if)
qed

lemma handle_login_keeps: "keeps Q (handle_login W i payload)"
proof -
  have att: "triple (\<lambda>s. unauth s \<and> a = attempt_of u s) (emodify (set_attempt u a)) (\<lambda>_. unauth) Q" for a u
    by (rule triple_modify) (simp add: set_attempt_def unauth_def q_attempts)
  have lock: "triple unauth (login_locked W i a) (\<lambda>_. Q) Q" for a
    unfolding login_locked_def by (rule send_error_triple) (simp add: unauth_def)
  let ?k = "if \<not> j_contains (w_json W) payload ''username'' \<or> \<not> j_contains (w_json W) payload ''password''
       then send_error W i ''Missing username or password'' ''INVALID_PARAMS''
       else ebind (eopt (j_at_str (w_json W) payload ''username'')) (\<lambda>u.
         ebind (eopt (j_at_str (w_json W) payload ''password'')) (\<lambda>p.
         ebind (eopt (j_value_i64 (w_json W) payload ''protocol_version'' 1)) (\<lambda>client_version.
         ebind (eread (attempt_of u)) (\<lambda>a.
         eseq (emodify (set_attempt u a))
         (if is_locked (w_steady W) a then login_locked W i a
          else ebind (elift (srv_login W u p)) (\<lambda>(result, user_id).
            if result \<noteq> SUCCESS then login_refuse W i u result
            else login_accept W i user_id u))))))"
  have k: "triple unauth ?k (\<lambda>_. Q) Q"
    by (rule triple_if, rule send_error_triple, simp add: unauth_def,
        rule triple_bind [OF unauth_opt], rule triple_bind [OF unauth_opt], rule triple_bind [OF unauth_opt],
        rule triple_bind [OF triple_read], rule triple_seq [OF att], rule triple_if, rule lock,
        rule login_checked_keeps)
  have "triple Q (handle_login W i payload) (\<lambda>_. Q) Q"
    unfolding handle_login_def require_no_auth_def Let_def
    by (rule triple_bind [OF triple_read], rule triple_if, rule send_error_triple, simp, rule triple_pre [OF k])
      (simp add: unauth_def conn_of_def)
  then show ?thesis by (simp only: triple_keeps)
qed

subsection \<open>Renaming and dispatch\<close>

lemma rename_done_keeps:
  assumes "Q s" and "conn_is_authenticated (n_objs s i)" and "cm_username_index (n_cm s) n = None"
    and "c = n_objs s i"
  shows "Q (snd (eseq (emodify (net_upd i (conn_set_username n)))
     (eseq (emodify (cm_upd (cm_unregister_username (co_username c))))
     (eseq (emodify (cm_upd (cm_register_username n i)))
     (eseq (emodify (\<lambda>s. s\<lparr>sv_sessions := sm_update i (\<lambda>x. x\<lparr>se_username := n\<rparr>) (sv_sessions s)\<rparr>))
     (ebind (elift (srv_message W PRESENCE ''server'' '''' p)) (\<lambda>m.
     eseq (emodify (cm_broadcast (w_json W) m)) (send_system W i t)))))) s))"
proof -
  have "keeps Q (eseq (emodify (\<lambda>s. s\<lparr>sv_sessions := sm_update i (\<lambda>x. x\<lparr>se_username := n\<rparr>) (sv_sessions s)\<rparr>))
     (ebind (elift (srv_message W PRESENCE ''server'' '''' p)) (\<lambda>m.
     eseq (emodify (cm_broadcast (w_json W) m)) (send_system W i t))))"
    by (intro announce_keeps keeps_intros frame_keeps keeps_emodify broadcasts_keep q_session_name) simp_all
  from keepsD [OF this q_rename [OF assms(1-3)]] show ?thesis
    by (simp add: eseq_run emodify_run rename_bind_def assms(4))
qed

lemma handle_rename_keeps: "keeps Q (handle_rename W i payload)"
proof (rule keepsI)
  fix s assume q: "Q s"
  then have ren: "Q (snd (srv_call (st_rename_user (w_storage W) k n) s))" for k n
    by (intro call_keeps storage_call_intros)
  show "Q (snd (handle_rename W i payload s))"
    unfolding handle_rename_def require_auth_def Let_def
    using q replies_keep(1) [THEN keepsD, OF q] replies_keep(1) [THEN keepsD, OF ren]
    by (auto simp: ebind_run eread_run eopt_run elift_run conn_of_def cm_get_by_username_def
        srv_call_frame split: option.split intro!: rename_done_keeps [OF ren])
qed

lemma handle_command_keeps: "keeps Q (handle_command W i payload)"
  unfolding handle_command_def handle_help_def
  by (intro keeps_intros frame_keeps handle_login_keeps handle_register_keeps handle_join_keeps
      handle_leave_keeps handle_users_keeps handle_dm_keeps handle_rename_keeps handle_quit_keeps handle_rooms_keeps)

lemma handle_chat_message_keeps: "keeps Q (handle_chat_message W i msg)"
proof -
  have "keeps Q (store_and_broadcast W i r c msg)" if "\<not> w_e2ee W" for r c
    unfolding store_and_broadcast_def Let_def
    by (intro announce_keeps keeps_intros frame_keeps broadcasts_keep) (simp_all add: that)
  then have guarded: "keeps Q (if w_e2ee W then send_error W i t e else store_and_broadcast W i r c msg)" for t e r c
    by (simp add: replies_keep)
  show ?thesis
    unfolding handle_chat_message_def Let_def
    by (intro guarded require_auth_keeps keeps_ebind keeps_if keeps_case_option keeps_case_prod keeps_eread keeps_eret
        keeps_eopt replies_keep handle_command_keeps)
qed

lemma dispatch_keeps: "keeps Q (dispatch W i msg)"
proof -
  have "keeps Q (handle_auth_request W i p)" for p
    unfolding handle_auth_request_def by (intro keeps_intros handle_login_keeps handle_register_keeps)
  moreover have "keeps Q (ebind (eread (\<lambda>s. conn_is_authenticated (conn_of i s))) (\<lambda>auth.
            if auth then handle_key_exchange W i (m_payload msg)
            else send_error W i ''Please login first'' ''NOT_AUTHENTICATED''))"
    by (intro keeps_intros replies_keep handle_key_exchange_keeps)
  ultimately show ?thesis
    by (cases "m_type msg")
      (simp_all add: dispatch_def handle_command_keeps handle_chat_message_keeps handle_room_key_keeps
        handle_encrypted_message_keeps replies_keep)
qed

lemma handle_keeps: "keeps Q (handle W i msg)"
  unfolding handle_def check_rate_limit_def
  by (intro keeps_intros replies_keep dispatch_keeps keeps_elift keeps_emodify)
    (simp_all add: case_prod_unfold Let_def q_rate q_touch)

end

section \<open>The server invariant\<close>

definition names_ok :: "'a net_scheme \<Rightarrow> bool" where
  "names_ok s \<longleftrightarrow>
     (\<forall>u i. cm_username_index (n_cm s) u = Some i \<longrightarrow>
        co_username (n_objs s i) = u \<and> conn_is_authenticated (n_objs s i)) \<and>
     (\<forall>i \<in> set (cm_connections (n_cm s)). conn_is_authenticated (n_objs s i) \<longrightarrow>
        cm_username_index (n_cm s) (co_username (n_objs s i)) = Some i)"

text \<open>
  The room maps agree, a registered name is the name of the authenticated connection
  it points to, every authenticated connection in the table is registered under its
  name, the storage backend is well formed, and the connections \<open>C\<close> are in the table.
\<close>

definition server_inv :: "('st \<Rightarrow> bool) \<Rightarrow> u64 set \<Rightarrow> 'st server \<Rightarrow> bool" where
  "server_inv good C s \<longleftrightarrow>
     rooms_ok (n_cm s) \<and> names_ok s \<and> good (sv_storage s) \<and> C \<subseteq> set (cm_connections (n_cm s))"

lemma names_index:
  "names_ok s \<Longrightarrow> cm_username_index (n_cm s) u = Some i \<Longrightarrow>
   co_username (n_objs s i) = u \<and> conn_is_authenticated (n_objs s i)"
  unfolding names_ok_def by blast

lemma names_connection:
  "names_ok s \<Longrightarrow> i \<in> set (cm_connections (n_cm s)) \<Longrightarrow> conn_is_authenticated (n_objs s i) \<Longrightarrow>
   cm_username_index (n_cm s) (co_username (n_objs s i)) = Some i"
  unfolding names_ok_def by blast

text \<open>Connection \<open>i\<close> takes the free name \<open>n\<close>; its old entries go away.\<close>

lemma names_take:
  assumes "names_ok s" and "cm_username_index (n_cm s) n = None"
    and obj: "\<And>j. j \<noteq> i \<Longrightarrow> n_objs s' j = n_objs s j"
    and me: "co_username (n_objs s' i) = n" "conn_is_authenticated (n_objs s' i)"
    and idx: "\<And>v. cm_username_index (n_cm s') v =
      (if v = n then Some i else if cm_username_index (n_cm s) v = Some i then None
       else cm_username_index (n_cm s) v)"
    and cs: "cm_connections (n_cm s') = cm_connections (n_cm s)"
  shows "names_ok s'"
  unfolding names_ok_def
proof (intro conjI allI impI ballI)
  fix u j
  assume "cm_username_index (n_cm s') u = Some j"
  then consider "u = n" "j = i" | "u \<noteq> n" "j \<noteq> i" "cm_username_index (n_cm s) u = Some j"
    by (auto simp: idx split: if_splits)
  then show "co_username (n_objs s' j) = u" and "conn_is_authenticated (n_objs s' j)"
    by (cases; use me obj names_index [OF assms(1)] in auto)+
next
  fix j
  assume j: "j \<in> set (cm_connections (n_cm s'))" "conn_is_authenticated (n_objs s' j)"
  show "cm_username_index (n_cm s') (co_username (n_objs s' j)) = Some j"
  proof (cases "j = i")
    case True
    then show ?thesis by (simp add: idx me)
  next
    case False
    with j obj cs names_connection [OF assms(1), of j]
    have "cm_username_index (n_cm s) (co_username (n_objs s' j)) = Some j" by simp
    with False assms(2) show ?thesis by (auto simp: idx)
  qed
qed

lemma server_inv_fields [simp]:
  "server_inv good C (s\<lparr>sv_sessions := a\<rparr>) = server_inv good C s"
  "server_inv good C (s\<lparr>sv_current_rooms := b\<rparr>) = server_inv good C s"
  "server_inv good C (s\<lparr>sv_login_attempts := c\<rparr>) = server_inv good C s"
  "server_inv good C (s\<lparr>sv_draws := d\<rparr>) = server_inv good C s"
  by (simp_all add: server_inv_def names_ok_def)

lemma server_inv_storage: "server_inv good C s \<Longrightarrow> good st \<Longrightarrow> server_inv good C (s\<lparr>sv_storage := st\<rparr>)"
  by (simp add: server_inv_def names_ok_def)

lemma server_inv_frame:
  assumes "server_inv good C s" and "n_cm s' = n_cm s" and "sv_storage s' = sv_storage s"
    and "\<And>j. co_username (n_objs s' j) = co_username (n_objs s j)"
    and "\<And>j. co_user_id (n_objs s' j) = co_user_id (n_objs s j)"
  shows "server_inv good C s'"
  using assms by (simp add: server_inv_def names_ok_def conn_is_authenticated_def)

lemma net_upd_neutral:
  assumes "server_inv good C s" and "\<And>c. co_username (f c) = co_username c" and "\<And>c. co_user_id (f c) = co_user_id c"
  shows "server_inv good C (net_upd i f s)"
  by (rule server_inv_frame [OF assms(1)]) (simp_all add: net_upd_def assms(2,3))

lemma net_send_inv: "server_inv good C s \<Longrightarrow> server_inv good C (net_send J i m s)"
  unfolding net_send_def by (rule net_upd_neutral) simp_all

lemma conn_close_inv: "server_inv good C s \<Longrightarrow> server_inv good C (net_upd i conn_close s)"
  by (rule net_upd_neutral) (simp_all add: conn_close_def)

lemma cm_rooms_inv:
  assumes "server_inv good C s" and "rooms_ok (f (n_cm s))"
    and "cm_username_index (f (n_cm s)) = cm_username_index (n_cm s)"
    and "cm_connections (f (n_cm s)) = cm_connections (n_cm s)"
  shows "server_inv good C (cm_upd f s)"
  using assms by (simp add: server_inv_def names_ok_def)

lemma cm_add_to_room_inv: "server_inv good C s \<Longrightarrow> server_inv good C (cm_upd (cm_add_to_room i r) s)"
  by (rule cm_rooms_inv) (simp_all add: server_inv_def add_to_room_ok)

lemma cm_remove_from_room_inv: "server_inv good C s \<Longrightarrow> server_inv good C (cm_upd (cm_remove_from_room i r) s)"
  by (rule cm_rooms_inv) (simp_all add: server_inv_def remove_from_room_ok)

lemma cm_remove_from_all_rooms_inv: "server_inv good C s \<Longrightarrow> server_inv good C (cm_upd (cm_remove_from_all_rooms i) s)"
  by (rule cm_rooms_inv) (simp_all add: server_inv_def remove_all_ok)

lemma login_names:
  assumes "server_inv good C s" and "\<not> conn_is_authenticated (n_objs s i)" and "uid \<noteq> 0"
    and "cm_username_index (n_cm s) u = None"
  shows "server_inv good C (cm_upd (cm_register_username u i)
    (net_upd i (\<lambda>c. conn_set_username u (conn_set_user_id uid c)) s))"
proof -
  let ?s = "cm_upd (cm_register_username u i) (net_upd i (\<lambda>c. conn_set_username u (conn_set_user_id uid c)) s)"
  have obj: "n_objs ?s j = (if j = i then conn_set_username u (conn_set_user_id uid (n_objs s i)) else n_objs s j)" for j
    by (simp add: net_upd_def)
  have idx: "cm_username_index (n_cm ?s) v = (if v = u then Some i else cm_username_index (n_cm s) v)" for v
    by (simp add: cm_register_username_def)
  have cs: "cm_connections (n_cm ?s) = cm_connections (n_cm s)" by (simp add: cm_register_username_def)
  have st: "sv_storage ?s = sv_storage s" by simp
  have "rooms_ok (n_cm ?s)" using assms(1) by (simp add: server_inv_def)
  moreover have "names_ok ?s"
  proof (rule names_take [where s = s and i = i and n = u])
    show "names_ok s" using assms(1) by (simp add: server_inv_def)
    then have "cm_username_index (n_cm s) v \<noteq> Some i" for v
      using names_index [of s v i] assms(2) by auto
    then show "cm_username_index (n_cm ?s) v = (if v = u then Some i
        else if cm_username_index (n_cm s) v = Some i then None else cm_username_index (n_cm s) v)" for v
      unfolding idx by simp
  qed (use assms(3,4) cs in \<open>simp_all add: conn_is_authenticated_def conn_set_username_def conn_set_user_id_def\<close>)
  ultimately show ?thesis using assms(1) st cs by (simp add: server_inv_def)
qed

lemma rename_names:
  assumes "server_inv good C s" and "conn_is_authenticated (n_objs s i)" and "i \<in> C"
    and "cm_username_index (n_cm s) new_name = None"
    and "co_username (n_objs s i) = old_name"
  shows "server_inv good C (cm_upd (cm_register_username new_name i) (cm_upd (cm_unregister_username old_name)
    (net_upd i (conn_set_username new_name) s)))"
proof -
  let ?s = "cm_upd (cm_register_username new_name i) (cm_upd (cm_unregister_username old_name)
    (net_upd i (conn_set_username new_name) s))"
  have obj: "n_objs ?s j = (if j = i then conn_set_username new_name (n_objs s i) else n_objs s j)" for j
    by (simp add: net_upd_def)
  have idx: "cm_username_index (n_cm ?s) v = (if v = new_name then Some i else if v = old_name then None
      else cm_username_index (n_cm s) v)" for v
    by (simp add: cm_register_username_def cm_unregister_username_def)
  have cs: "cm_connections (n_cm ?s) = cm_connections (n_cm s)"
    by (simp add: cm_register_username_def cm_unregister_username_def)
  have "rooms_ok (n_cm ?s)" using assms(1) by (simp add: server_inv_def)
  moreover have "names_ok ?s"
  proof (rule names_take [where s = s and i = i and n = new_name])
    show n: "names_ok s" using assms(1) by (simp add: server_inv_def)
    have "i \<in> set (cm_connections (n_cm s))" using assms(1,3) by (auto simp: server_inv_def)
    then have "cm_username_index (n_cm s) old_name = Some i"
      using names_connection [OF n _ assms(2)] assms(5) by simp
    with names_index [OF n] assms(5) have old: "(cm_username_index (n_cm s) v = Some i) = (v = old_name)" for v
      by blast
    show "cm_username_index (n_cm ?s) v = (if v = new_name then Some i
        else if cm_username_index (n_cm s) v = Some i then None else cm_username_index (n_cm s) v)" for v
      by (simp only: idx old)
  qed (use assms cs in \<open>simp_all add: conn_is_authenticated_def conn_set_username_def\<close>)
  ultimately show ?thesis using assms(1) cs by (simp add: server_inv_def)
qed

context storage_contract
begin

lemma handler_frame_server_inv:
  assumes "w_storage W = S" and "i \<in> C"
  shows "handler_frame (server_inv wf C) W i"
proof
  fix s :: "'st server"
  assume inv: "server_inv wf C s"
  then have good: "wf (sv_storage s)" by (simp add: server_inv_def)
  show "server_inv wf C (s\<lparr>sv_storage := g (sv_storage s)\<rparr>)" if "storage_call W g" for g
    by (rule server_inv_storage [OF inv storage_call_wf [OF that assms(1) good]])
  show "snd (fst (srv_login W u p s)) \<noteq> 0" if "fst (fst (srv_login W u p s)) = SUCCESS" for u p
    using login_sound [OF good, of "w_hash W" "w_wall_s W" "w_rand W (sv_draws s)" u p] that
    by (simp add: srv_login_def srv_call_eq assms(1)) (metis prod.collapse)
  show "server_inv wf C (login_bind i uid u s)"
    if "\<not> conn_is_authenticated (n_objs s i)" "uid \<noteq> 0" "cm_username_index (n_cm s) u = None" for uid u
    unfolding login_bind_def by (rule login_names [OF inv that])
  show "server_inv wf C (rename_bind i n s)"
    if "conn_is_authenticated (n_objs s i)" "cm_username_index (n_cm s) n = None" for n
    unfolding rename_bind_def by (rule rename_names [OF inv that(1) assms(2) that(2) refl])
qed (simp_all add: net_send_inv cm_add_to_room_inv cm_remove_from_room_inv cm_remove_from_all_rooms_inv conn_close_inv)

end

sublocale storage_contract < server_frame: handler_frame "server_inv wf (insert i C)" "W\<lparr>w_storage := S\<rparr>" i
  for W i C
  by (rule handler_frame_server_inv) simp_all

context storage_contract
begin

lemma handle_inv: "w_storage W = S \<Longrightarrow> i \<in> C \<Longrightarrow> keeps (server_inv wf C) (handle W i msg)"
  using server_frame.handle_keeps [of i C W msg] by (simp add: insert_absorb) (metis world.surjective world.update_convs(2))

end

lemma sample_server_inv: "server_inv db_ok {1, 2} sample_server"
proof -
  have "cm_connections (n_cm sample_server) = [1, 2]"
    by (simp add: sample_server_def cm_register_username_def cm_add_def conn_manager_new_def uset_insert_def)
  moreover have "cm_username_index (n_cm sample_server) = [''ann'' \<mapsto> 1]"
    by (simp add: sample_server_def cm_register_username_def cm_add_def conn_manager_new_def)
  moreover have "rooms_ok (n_cm sample_server)"
    by (simp add: sample_server_def add_to_room_ok rooms_ok_new)
  ultimately show ?thesis
    by (auto simp: server_inv_def names_ok_def conn_is_authenticated_def sqlite_sample_ok)
      (simp_all add: sample_server_def sqlite_sample_ok connection_new_def)
qed

text \<open>
  Handling any message from a connection in the table, with any storage engine
  behaviour and whether or not the handler ends in an exception, keeps the server
  consistent: the room maps stay inverse to each other, the database stays well
  formed, every registered name is the name of the authenticated connection it points
  to, and every authenticated connection is registered under its name, so that no two
  of them ever share one.
\<close>

theorem handle_keeps_server_inv:
  assumes "server_inv db_ok C s" and "i \<in> C" and "w_storage W = sqlite_storage E"
  shows "server_inv db_ok C (snd (handle W i msg s))"
  by (rule keepsD [OF sq.handle_inv [OF assms(3,2)] assms(1)])

theorem handle_keeps_server_inv_witness:
  "server_inv db_ok {1, 2} (snd (handle (sample_world True) 2
     (message_create jval_api 0 0 0 ENCRYPTED_MESSAGE ''x'' ''general'') sample_server))"
  by (rule handle_keeps_server_inv [OF sample_server_inv]) (simp_all add: sample_world_def)

end
