(* ===== verification/Config.thy ===== *)
theory Config
  imports Json_Api
begin

text \<open>
  \<^verbatim>\<open>common/config/config.hpp\<close>: the two configuration structures, their JSON form, loading with a
  default, and the log levels. A 16-bit member is converted from a JSON number by a cast, so it
  keeps only the low bits. Reading the file is an argument: \<open>None\<close> when it cannot be opened.
\<close>

record server_config =
  cfg_bind_address :: string
  cfg_port :: u16
  cfg_health_port :: u16
  cfg_thread_pool_size :: u64
  cfg_cert_file :: string
  cfg_key_file :: string
  cfg_dh_file :: string
  cfg_storage_type :: string
  cfg_sqlite_path :: string
  cfg_postgres_conn :: string
  cfg_redis_enabled :: bool
  cfg_redis_host :: string
  cfg_redis_port :: u16
  cfg_rate_limit_messages_per_second :: u64
  cfg_rate_limit_burst :: u64
  cfg_room_e2ee_required :: bool
  cfg_max_connections :: u64
  cfg_max_connections_per_ip :: u64
  cfg_session_timeout_seconds :: u64
  cfg_log_level :: string
  cfg_log_file :: string

definition server_config_default :: server_config where
  "server_config_default = \<lparr>cfg_bind_address = ''0.0.0.0'', cfg_port = 8443, cfg_health_port = 8080,
     cfg_thread_pool_size = 4, cfg_cert_file = ''certs/server.crt'', cfg_key_file = ''certs/server.key'',
     cfg_dh_file = ''certs/dh2048.pem'', cfg_storage_type = ''sqlite'', cfg_sqlite_path = ''chat.db'',
     cfg_postgres_conn = '''', cfg_redis_enabled = False, cfg_redis_host = ''localhost'', cfg_redis_port = 6379,
     cfg_rate_limit_messages_per_second = 10, cfg_rate_limit_burst = 20, cfg_room_e2ee_required = True,
     cfg_max_connections = 1000, cfg_max_connections_per_ip = 5, cfg_session_timeout_seconds = 1800,
     cfg_log_level = ''info'', cfg_log_file = ''''\<rparr>"

record client_config =
  ccfg_server_host :: string
  ccfg_server_port :: u16
  ccfg_verify_ssl :: bool
  ccfg_reconnect_delay_ms :: u64
  ccfg_max_reconnect_attempts :: u64
  ccfg_log_level :: string

definition client_config_default :: client_config where
  "client_config_default = \<lparr>ccfg_server_host = ''localhost'', ccfg_server_port = 8443, ccfg_verify_ssl = True,
     ccfg_reconnect_delay_ms = 1000, ccfg_max_reconnect_attempts = 10, ccfg_log_level = ''info''\<rparr>"

section \<open>JSON form\<close>

definition server_config_to_json :: "'j json_api \<Rightarrow> server_config \<Rightarrow> 'j" where
  "server_config_to_json J c = j_obj J [
     (''bind_address'', j_str J (cfg_bind_address c)), (''port'', j_u64 J (ucast (cfg_port c))),
     (''health_port'', j_u64 J (ucast (cfg_health_port c))),
     (''thread_pool_size'', j_u64 J (cfg_thread_pool_size c)), (''cert_file'', j_str J (cfg_cert_file c)),
     (''key_file'', j_str J (cfg_key_file c)), (''dh_file'', j_str J (cfg_dh_file c)),
     (''storage_type'', j_str J (cfg_storage_type c)), (''sqlite_path'', j_str J (cfg_sqlite_path c)),
     (''postgres_conn'', j_str J (cfg_postgres_conn c)), (''redis_enabled'', j_bool J (cfg_redis_enabled c)),
     (''redis_host'', j_str J (cfg_redis_host c)), (''redis_port'', j_u64 J (ucast (cfg_redis_port c))),
     (''rate_limit_messages_per_second'', j_u64 J (cfg_rate_limit_messages_per_second c)),
     (''rate_limit_burst'', j_u64 J (cfg_rate_limit_burst c)),
     (''room_e2ee_required'', j_bool J (cfg_room_e2ee_required c)),
     (''max_connections'', j_u64 J (cfg_max_connections c)),
     (''max_connections_per_ip'', j_u64 J (cfg_max_connections_per_ip c)),
     (''session_timeout_seconds'', j_u64 J (cfg_session_timeout_seconds c)),
     (''log_level'', j_str J (cfg_log_level c)), (''log_file'', j_str J (cfg_log_file c))]"

text \<open>\<^verbatim>\<open>if (j.contains(k)) j.at(k).get_to(c.field);\<close>\<close>

definition get_to :: "'j json_api \<Rightarrow> ('j \<Rightarrow> 'a option) \<Rightarrow> 'j \<Rightarrow> string \<Rightarrow> ('a \<Rightarrow> 'c \<Rightarrow> 'c) \<Rightarrow> 'c \<Rightarrow> 'c option" where
  "get_to J conv j k upd c =
     (if j_contains J j k then map_option (\<lambda>v. upd v c) (Option.bind (j_at J j k) conv) else Some c)"

definition j_get_u16 :: "'j json_api \<Rightarrow> 'j \<Rightarrow> u16 option" where
  "j_get_u16 J j = map_option ucast (j_get_u64 J j)"

type_synonym 'c field = "'c \<Rightarrow> 'c option"

definition get_all :: "'c field list \<Rightarrow> 'c \<Rightarrow> 'c option" where
  "get_all fs c = fold (\<lambda>f r. Option.bind r f) fs (Some c)"

definition server_config_from_json :: "'j json_api \<Rightarrow> 'j \<Rightarrow> server_config \<Rightarrow> server_config option" where
  "server_config_from_json J j =
     (let str = get_to J (j_get_str J) j; u16 = get_to J (j_get_u16 J) j;
          size = get_to J (j_get_u64 J) j; flag = get_to J (j_get_bool J) j
      in get_all [
        str ''bind_address'' (\<lambda>v c. c\<lparr>cfg_bind_address := v\<rparr>),
        u16 ''port'' (\<lambda>v c. c\<lparr>cfg_port := v\<rparr>),
        u16 ''health_port'' (\<lambda>v c. c\<lparr>cfg_health_port := v\<rparr>),
        size ''thread_pool_size'' (\<lambda>v c. c\<lparr>cfg_thread_pool_size := v\<rparr>),
        str ''cert_file'' (\<lambda>v c. c\<lparr>cfg_cert_file := v\<rparr>),
        str ''key_file'' (\<lambda>v c. c\<lparr>cfg_key_file := v\<rparr>),
        str ''dh_file'' (\<lambda>v c. c\<lparr>cfg_dh_file := v\<rparr>),
        str ''storage_type'' (\<lambda>v c. c\<lparr>cfg_storage_type := v\<rparr>),
        str ''sqlite_path'' (\<lambda>v c. c\<lparr>cfg_sqlite_path := v\<rparr>),
        str ''postgres_conn'' (\<lambda>v c. c\<lparr>cfg_postgres_conn := v\<rparr>),
        flag ''redis_enabled'' (\<lambda>v c. c\<lparr>cfg_redis_enabled := v\<rparr>),
        str ''redis_host'' (\<lambda>v c. c\<lparr>cfg_redis_host := v\<rparr>),
        u16 ''redis_port'' (\<lambda>v c. c\<lparr>cfg_redis_port := v\<rparr>),
        size ''rate_limit_messages_per_second'' (\<lambda>v c. c\<lparr>cfg_rate_limit_messages_per_second := v\<rparr>),
        size ''rate_limit_burst'' (\<lambda>v c. c\<lparr>cfg_rate_limit_burst := v\<rparr>),
        flag ''room_e2ee_required'' (\<lambda>v c. c\<lparr>cfg_room_e2ee_required := v\<rparr>),
        size ''max_connections'' (\<lambda>v c. c\<lparr>cfg_max_connections := v\<rparr>),
        size ''max_connections_per_ip'' (\<lambda>v c. c\<lparr>cfg_max_connections_per_ip := v\<rparr>),
        size ''session_timeout_seconds'' (\<lambda>v c. c\<lparr>cfg_session_timeout_seconds := v\<rparr>),
        str ''log_level'' (\<lambda>v c. c\<lparr>cfg_log_level := v\<rparr>),
        str ''log_file'' (\<lambda>v c. c\<lparr>cfg_log_file := v\<rparr>)])"

definition client_config_to_json :: "'j json_api \<Rightarrow> client_config \<Rightarrow> 'j" where
  "client_config_to_json J c = j_obj J [
     (''server_host'', j_str J (ccfg_server_host c)), (''server_port'', j_u64 J (ucast (ccfg_server_port c))),
     (''verify_ssl'', j_bool J (ccfg_verify_ssl c)),
     (''reconnect_delay_ms'', j_u64 J (ccfg_reconnect_delay_ms c)),
     (''max_reconnect_attempts'', j_u64 J (ccfg_max_reconnect_attempts c)),
     (''log_level'', j_str J (ccfg_log_level c))]"

definition client_config_from_json :: "'j json_api \<Rightarrow> 'j \<Rightarrow> client_config \<Rightarrow> client_config option" where
  "client_config_from_json J j = get_all [
     get_to J (j_get_str J) j ''server_host'' (\<lambda>v c. c\<lparr>ccfg_server_host := v\<rparr>),
     get_to J (j_get_u16 J) j ''server_port'' (\<lambda>v c. c\<lparr>ccfg_server_port := v\<rparr>),
     get_to J (j_get_bool J) j ''verify_ssl'' (\<lambda>v c. c\<lparr>ccfg_verify_ssl := v\<rparr>),
     get_to J (j_get_u64 J) j ''reconnect_delay_ms'' (\<lambda>v c. c\<lparr>ccfg_reconnect_delay_ms := v\<rparr>),
     get_to J (j_get_u64 J) j ''max_reconnect_attempts'' (\<lambda>v c. c\<lparr>ccfg_max_reconnect_attempts := v\<rparr>),
     get_to J (j_get_str J) j ''log_level'' (\<lambda>v c. c\<lparr>ccfg_log_level := v\<rparr>)]"

section \<open>Loading\<close>

definition load_config :: "'j json_api \<Rightarrow> ('j \<Rightarrow> 'c \<Rightarrow> 'c option) \<Rightarrow> 'c \<Rightarrow> string option \<Rightarrow> 'c option" where
  "load_config J from_json init file =
     Option.bind file (\<lambda>text. Option.bind (j_parse J text) (\<lambda>j. from_json j init))"

definition load_config_or_default :: "'j json_api \<Rightarrow> ('j \<Rightarrow> 'c \<Rightarrow> 'c option) \<Rightarrow> 'c \<Rightarrow> string option \<Rightarrow> 'c" where
  "load_config_or_default J from_json init file =
     (case load_config J from_json init file of Some c \<Rightarrow> c | None \<Rightarrow> init)"

datatype log_level = L_TRACE | L_DEBUG | L_INFO | L_WARN | L_ERR | L_CRITICAL | L_OFF

definition parse_log_level :: "string \<Rightarrow> log_level" where
  "parse_log_level level =
     (if level = ''trace'' then L_TRACE
      else if level = ''debug'' then L_DEBUG
      else if level = ''info'' then L_INFO
      else if level = ''warn'' \<or> level = ''warning'' then L_WARN
      else if level = ''error'' \<or> level = ''err'' then L_ERR
      else if level = ''critical'' then L_CRITICAL
      else if level = ''off'' then L_OFF
      else L_INFO)"

section \<open>Round trip\<close>

lemma get_all_simps:
  "get_all [] c = Some c" "get_all (f # fs) c = Option.bind (f c) (get_all fs)"
proof -
  have none: "fold (\<lambda>f r. Option.bind r f) fs None = None" for fs :: "'c field list"
    by (induction fs) simp_all
  show "get_all (f # fs) c = Option.bind (f c) (get_all fs)"
    by (cases "f c") (simp_all add: get_all_def none)
qed (simp add: get_all_def)

lemma get_to_obj:
  assumes "json_ok J" and "distinct (map fst kvs)" and "map_of kvs k = Some v" and "conv v = Some x"
  shows "get_to J conv (j_obj J kvs) k upd c = Some (upd x c)"
proof -
  have "k \<in> fst ` set kvs" using assms(3) by (metis map_of_eq_None_iff option.distinct(1))
  with assms show ?thesis by (simp add: get_to_def json_ok_obj)
qed

lemma get_to_absent:
  assumes "json_ok J" and "map_of kvs k = None"
  shows "get_to J conv (j_obj J kvs) k upd c = Some c"
  using assms by (simp add: get_to_def json_ok_obj map_of_eq_None_iff)

lemma j_get_u16_cast: "json_ok J \<Longrightarrow> j_get_u16 J (j_u64 J (ucast p)) = Some p"
  by (simp add: j_get_u16_def json_ok_get) (rule bit_word_eqI, simp add: bit_simps)

text \<open>
  Whatever a structure holds, its JSON form loads back to it, whatever the members were before.
\<close>

lemma server_config_load_back:
  assumes "json_ok J"
  shows "server_config_from_json J (server_config_to_json J c) c0 = Some c"
  unfolding server_config_from_json_def server_config_to_json_def Let_def
  by (simp add: get_all_simps get_to_obj [OF assms] json_ok_get [OF assms] j_get_u16_cast [OF assms])

lemma client_config_load_back:
  assumes "json_ok J"
  shows "client_config_from_json J (client_config_to_json J c) c0 = Some c"
  unfolding client_config_from_json_def client_config_to_json_def
  by (simp add: get_all_simps get_to_obj [OF assms] json_ok_get [OF assms] j_get_u16_cast [OF assms])

text \<open>The members by type, and a member whose value cannot be converted.\<close>

definition string_members :: "string list" where
  "string_members = [''bind_address'', ''cert_file'', ''key_file'', ''dh_file'', ''storage_type'', ''sqlite_path'',
     ''postgres_conn'', ''redis_host'', ''log_level'', ''log_file'']"

definition number_members :: "string list" where
  "number_members = [''port'', ''health_port'', ''thread_pool_size'', ''redis_port'',
     ''rate_limit_messages_per_second'', ''rate_limit_burst'', ''max_connections'', ''max_connections_per_ip'',
     ''session_timeout_seconds'']"

definition flag_members :: "string list" where
  "flag_members = [''redis_enabled'', ''room_e2ee_required'']"

definition wrong_type :: "'j json_api \<Rightarrow> string \<Rightarrow> 'j \<Rightarrow> bool" where
  "wrong_type J k v \<longleftrightarrow>
     k \<in> set string_members \<and> j_get_str J v = None \<or>
     k \<in> set number_members \<and> j_get_u64 J v = None \<or>
     k \<in> set flag_members \<and> j_get_bool J v = None"

lemma get_all_None: "\<exists>f \<in> set fs. \<forall>c. f c = None \<Longrightarrow> get_all fs c = None"
proof (induction fs arbitrary: c)
  case (Cons g gs)
  then show ?case by (cases "g c") (auto simp: get_all_simps)
qed simp

lemma get_to_None:
  assumes "json_ok J" and "distinct (map fst kvs)" and "map_of kvs k = Some v" and "conv v = None"
  shows "get_to J conv (j_obj J kvs) k upd c = None"
proof -
  have "k \<in> fst ` set kvs" using assms(3) by (metis map_of_eq_None_iff option.distinct(1))
  with assms show ?thesis by (simp add: get_to_def json_ok_obj)
qed

lemma wrong_type_cases:
  assumes "wrong_type J k v"
  obtains "k \<in> set string_members" "j_get_str J v = None"
    | "k \<in> set number_members" "j_get_u64 J v = None" "j_get_u16 J v = None"
    | "k \<in> set flag_members" "j_get_bool J v = None"
  using assms by (auto simp: wrong_type_def j_get_u16_def)

lemma wrong_type_fails:
  assumes "json_ok J" and "distinct (map fst kvs)" and "map_of kvs k = Some v" and "wrong_type J k v"
  shows "server_config_from_json J (j_obj J kvs) c = None"
  using assms(4)
proof (cases rule: wrong_type_cases)
  case 1
  have "\<forall>upd c. get_to J (j_get_str J) (j_obj J kvs) k upd (c :: server_config) = None"
    by (intro allI) (rule get_to_None [where conv = "j_get_str J", OF assms(1-3) 1(2)])
  with 1(1) show ?thesis
    unfolding server_config_from_json_def Let_def by (intro get_all_None) (simp add: string_members_def, elim disjE; simp)
next
  case 2
  have "\<forall>upd c. get_to J (j_get_u64 J) (j_obj J kvs) k upd (c :: server_config) = None"
    "\<forall>upd c. get_to J (j_get_u16 J) (j_obj J kvs) k upd (c :: server_config) = None"
    by (intro allI, rule get_to_None [where conv = "j_get_u64 J", OF assms(1-3) 2(2)]) (intro allI, rule get_to_None [where conv = "j_get_u16 J", OF assms(1-3) 2(3)])
  with 2(1) show ?thesis
    unfolding server_config_from_json_def Let_def by (intro get_all_None) (simp add: number_members_def, elim disjE; simp)
next
  case 3
  have "\<forall>upd c. get_to J (j_get_bool J) (j_obj J kvs) k upd (c :: server_config) = None"
    by (intro allI) (rule get_to_None [where conv = "j_get_bool J", OF assms(1-3) 3(2)])
  with 3(1) show ?thesis
    unfolding server_config_from_json_def Let_def by (intro get_all_None) (simp add: flag_members_def, elim disjE; simp)
qed



end
