(* ===== verification/Tls_Server.thy ===== *)
theory Tls_Server
  imports Handler_Frame Config
begin

text \<open>
  \<^verbatim>\<open>server/network/tls_server.{hpp,cpp}\<close>: the accept loop, starting and stopping. \<open>cs_accepting\<close> is the
  connection object that waits in \<^verbatim>\<open>async_accept\<close>; \<open>cs_io_stopped\<close> says that the io_context
  runs no handler any more. The TLS options, the acceptor's socket and the worker threads are
  left to asio and OpenSSL: the accept handler is given the error flag and what the two
  queries of the remote endpoint answer (\<open>None\<close> when the query throws).
\<close>

record 'st chat_server =
  cs_srv :: "'st server"
  cs_next_id :: u64
  cs_accepting :: "u64 option"
  cs_running :: bool
  cs_acceptor_open :: bool
  cs_io_stopped :: bool
  cs_shutdown :: bool
  cs_session_timer :: bool
  cs_rate_timer :: bool

definition cs_upd :: "('st server \<Rightarrow> 'st server) \<Rightarrow> 'st chat_server \<Rightarrow> 'st chat_server" where
  "cs_upd f s = s\<lparr>cs_srv := f (cs_srv s)\<rparr>"

definition tls_do_accept :: "'st chat_server \<Rightarrow> 'st chat_server" where
  "tls_do_accept s = (let i = cs_next_id s in
     (cs_upd (net_upd i (\<lambda>_. connection_new i)) s)\<lparr>cs_next_id := i + 1, cs_accepting := Some i\<rparr>)"

definition tls_admit ::
  "(u64 \<Rightarrow> 'st server \<Rightarrow> 'st server) \<Rightarrow> (string \<times> u16) option \<Rightarrow> u64 \<Rightarrow> 'st chat_server \<Rightarrow> 'st chat_server" where
  "tls_admit handler endpoint i s =
     cs_upd (\<lambda>v. net_upd i (conn_start endpoint) (handler i (cm_upd (cm_add i) v))) s"

definition tls_accept_ok :: "server_config \<Rightarrow> (string \<times> u16) option \<Rightarrow> 'st server \<Rightarrow> bool" where
  "tls_accept_ok cfg endpoint v \<longleftrightarrow>
     \<not> cm_count (n_cm v) \<ge> unat (cfg_max_connections cfg) \<and>
     (case endpoint of
        Some (remote_ip, _) \<Rightarrow> \<not> cm_count_by_ip remote_ip v \<ge> unat (cfg_max_connections_per_ip cfg)
      | None \<Rightarrow> True)"

text \<open>A connection over a limit is shut down and its object dropped.\<close>

definition tls_on_accept ::
  "server_config \<Rightarrow> (u64 \<Rightarrow> 'st server \<Rightarrow> 'st server) \<Rightarrow> bool \<Rightarrow> (string \<times> u16) option \<Rightarrow> (string \<times> u16) option \<Rightarrow>
   'st chat_server \<Rightarrow> 'st chat_server" where
  "tls_on_accept cfg handler ec seen endpoint s =
     (case cs_accepting s of
        None \<Rightarrow> s
      | Some i \<Rightarrow>
          let s = s\<lparr>cs_accepting := None\<rparr> in
          if \<not> cs_running s then s
          else if ec then tls_do_accept s
          else if \<not> tls_accept_ok cfg seen (cs_srv s) then tls_do_accept s
          else tls_do_accept (tls_admit handler endpoint i s))"

text \<open>Opening and binding the acceptor may throw; the flag is set before.\<close>

definition tls_start :: "bool \<Rightarrow> ('st chat_server, unit) act" where
  "tls_start bound = (\<lambda>s.
     if cs_running s then (Some (), s)
     else
       let s = s\<lparr>cs_running := True\<rparr> in
       if \<not> bound then (None, s)
       else (Some (), tls_do_accept (s\<lparr>cs_acceptor_open := True\<rparr>)))"

definition tls_stop :: "'st chat_server \<Rightarrow> 'st chat_server" where
  "tls_stop s =
     (if \<not> cs_running s then s
      else (cs_upd cm_close_all (s\<lparr>cs_running := False, cs_acceptor_open := False\<rparr>))\<lparr>cs_io_stopped := True\<rparr>)"

end
