(* ===== verification/Server_Main.thy ===== *)
theory Server_Main
  imports Tls_Server
begin

text \<open>
  \<^verbatim>\<open>server/main.cpp\<close>: the wiring of the server. The two handlers installed on every connection, the
  signal handler, the two periodic timers, the choice of the storage backend and the state after
  start-up are the definitions of the first sections. \<open>server_step\<close> then runs one completion
  of the io_context: it is defined for every event and does nothing when no operation
  of that kind is pending on the connection. Handlers of one step run to the end
  before the next step; each step has its own world, so clocks and random words move on.
\<close>

section \<open>Handlers\<close>

definition on_new_connection :: "('j, 'st) world \<Rightarrow> u64 \<Rightarrow> 'st server \<Rightarrow> 'st server" where
  "on_new_connection W i s =
     snd (send_system W i ''Welcome to Chat Server! Please /login or /register to continue.''
       (s\<lparr>sv_sessions := sm_create (w_steady W) i (co_remote_address (conn_of i s)) (sv_sessions s)\<rparr>))"

definition on_connection_error :: "('j, 'st) world \<Rightarrow> u64 \<Rightarrow> 'st server \<Rightarrow> 'st server" where
  "on_connection_error W i s =
     (let c = conn_of i s;
          s = (if conn_is_authenticated c then
                 let (m, s) = srv_message W PRESENCE (co_username c) ''''
                       (presence_payload (w_json W) ''offline'' (co_username c)) s
                 in rm_leave_all W i (cm_broadcast_except (w_json W) i m s)
               else s);
          s = s\<lparr>sv_sessions := sm_remove i (sv_sessions s)\<rparr>
      in cm_remove i s)"

definition on_signal :: "('j, 'st) world \<Rightarrow> 'st chat_server \<Rightarrow> 'st chat_server" where
  "on_signal W s =
     (cs_upd (\<lambda>v.
        let (m, v) = srv_message W SYSTEM ''server'' ''''
              (j_obj (w_json W) [(''message'', j_str (w_json W) ''Server is shutting down. Goodbye!'')]) v
        in cm_broadcast (w_json W) m v) s)\<lparr>cs_shutdown := True, cs_io_stopped := True\<rparr>"

definition session_cleanup :: "server_config \<Rightarrow> ('j, 'st) world \<Rightarrow> bool \<Rightarrow> 'st chat_server \<Rightarrow> 'st chat_server" where
  "session_cleanup cfg W ec s =
     (if ec \<or> cs_shutdown s then s\<lparr>cs_session_timer := False\<rparr>
      else cs_upd (\<lambda>v. v\<lparr>sv_sessions := sm_cleanup_inactive (w_steady W)
             (sint (cfg_session_timeout_seconds cfg)) (sv_sessions v)\<rparr>) s)"

definition rate_limit_cleanup :: "('j, 'st) world \<Rightarrow> bool \<Rightarrow> 'st chat_server \<Rightarrow> 'st chat_server" where
  "rate_limit_cleanup W ec s =
     (if ec \<or> cs_shutdown s then s\<lparr>cs_rate_timer := False\<rparr>
      else cs_upd (\<lambda>v. v\<lparr>sv_sessions := (sv_sessions v)
             \<lparr>sm_rate_limiter := dual_cleanup (w_steady W) (sm_rate_limiter (sv_sessions v))\<rparr>\<rparr>) s)"

section \<open>Start-up\<close>

datatype backend = UseSqlite string | UsePostgres string

definition create_storage_from_config :: "server_config \<Rightarrow> string + backend" where
  "create_storage_from_config cfg =
     (if cfg_storage_type cfg = ''sqlite'' then Inr (UseSqlite (cfg_sqlite_path cfg))
      else if cfg_storage_type cfg = ''postgres'' then
        (if cfg_postgres_conn cfg = []
         then Inl (''storage_type=postgres requires non-empty '' @ [CHR 39] @ ''postgres_conn'' @ [CHR 39] @ '' in config'')
         else Inr (UsePostgres (cfg_postgres_conn cfg)))
      else Inl (''Unsupported storage_type: '' @ cfg_storage_type cfg))"

definition main_limiter :: "server_config \<Rightarrow> dual_limiter" where
  "main_limiter cfg =
     (let rate = unat (cfg_rate_limit_messages_per_second cfg); burst = unat (cfg_rate_limit_burst cfg)
      in dual_limiter_new \<lparr>tokens_per_second = rate div 2, max_burst = burst div 2\<rparr>
           \<lparr>tokens_per_second = rate, max_burst = burst\<rparr>)"

definition server_new :: "server_config \<Rightarrow> 'st \<Rightarrow> 'st chat_server" where
  "server_new cfg st = \<lparr>
     cs_srv = \<lparr>n_objs = connection_new, n_cm = conn_manager_new,
       sv_sessions = session_manager_new (main_limiter cfg), sv_current_rooms = Map.empty, sv_storage = st,
       sv_login_attempts = Map.empty, sv_draws = 0\<rparr>,
     cs_next_id = 1, cs_accepting = None, cs_running = False, cs_acceptor_open = False, cs_io_stopped = False,
     cs_shutdown = False, cs_session_timer = True, cs_rate_timer = True\<rparr>"

text \<open>
  \<^verbatim>\<open>main\<close> up to the wait loop: the schema is created on the backend that was opened, then the
  acceptor is started. An exception of either is a fatal error.
\<close>

definition server_main :: "server_config \<Rightarrow> 'st istorage \<Rightarrow> i64 \<Rightarrow> bool \<Rightarrow> 'st \<Rightarrow> 'st chat_server option" where
  "server_main cfg S now bound st =
     (case st_init_schema S now st of
        (None, _) \<Rightarrow> None
      | (Some (), st') \<Rightarrow>
          (case tls_start bound (server_new cfg st') of (None, _) \<Rightarrow> None | (Some (), s) \<Rightarrow> Some s))"

section \<open>Events\<close>

datatype srv_event =
    Accepted bool "(string \<times> u16) option" "(string \<times> u16) option"
  | HandshakeDone u64 bool
  | HeaderRead u64 "bytes option"
  | BodyRead u64 "bytes option"
  | WriteDone u64 bool
  | HandshakeTimer u64 bool
  | IdleTimer u64 bool
  | SessionTimer bool
  | RateTimer bool
  | Signalled
  | MainStop

definition body_fits :: "u32 \<Rightarrow> bytes option \<Rightarrow> bool" where
  "body_fits len body \<longleftrightarrow> (case body of None \<Rightarrow> True | Some b \<Rightarrow> length b = unat len)"

text \<open>The message a connection sends by itself; its two random words are set aside first.\<close>

definition own_error :: "('j, 'st) world \<Rightarrow> string \<Rightarrow> string \<Rightarrow> 'st server \<Rightarrow> 'j message \<times> 'st server" where
  "own_error W txt errcode s =
     (message_error (w_json W) (w_rand W (sv_draws s)) (w_rand W (Suc (sv_draws s))) (w_msg_time W) txt errcode,
      s\<lparr>sv_draws := sv_draws s + 2\<rparr>)"

definition srv_on_header :: "('j, 'st) world \<Rightarrow> u64 \<Rightarrow> bytes option \<Rightarrow> 'st server \<Rightarrow> 'st server" where
  "srv_on_header W i header s =
     (let (e, s) = own_error W ''Message too large'' ''SIZE_LIMIT'' s
      in on_header (net_upd i) (conn_send (w_json W) e) (on_connection_error W i) header s)"

definition srv_on_body :: "('j, 'st) world \<Rightarrow> u64 \<Rightarrow> bytes option \<Rightarrow> 'st server \<Rightarrow> 'st server" where
  "srv_on_body W i body s =
     (let (e, s) = own_error W ''Invalid message format'' ''PARSE_ERROR'' s
      in on_body (w_json W) (net_upd i) (conn_send (w_json W) e) (on_connection_error W i) (handle W i) body s)"

definition server_world :: "server_config \<Rightarrow> ('j, 'st) world \<Rightarrow> ('j, 'st) world" where
  "server_world cfg W = W\<lparr>w_e2ee := cfg_room_e2ee_required cfg\<rparr>"

fun srv_event_step :: "server_config \<Rightarrow> ('j, 'st) world \<Rightarrow> srv_event \<Rightarrow> 'st chat_server \<Rightarrow> 'st chat_server" where
  "srv_event_step cfg W (Accepted ec seen endpoint) s = tls_on_accept cfg (on_new_connection W) ec seen endpoint s"
| "srv_event_step cfg W (HandshakeDone i ec) s =
     (if co_read (n_objs (cs_srv s) i) = InHandshake
      then cs_upd (on_handshake (net_upd i) (on_connection_error W i) ec) s else s)"
| "srv_event_step cfg W (HeaderRead i header) s =
     (if co_read (n_objs (cs_srv s) i) = ReadingHeader then cs_upd (srv_on_header W i header) s else s)"
| "srv_event_step cfg W (BodyRead i body) s =
     (case co_read (n_objs (cs_srv s) i) of
        ReadingBody len \<Rightarrow> if body_fits len body then cs_upd (srv_on_body W i body) s else s
      | _ \<Rightarrow> s)"
| "srv_event_step cfg W (WriteDone i ec) s =
     (if co_write_op (n_objs (cs_srv s) i) then cs_upd (net_upd i (conn_write_done ec)) s else s)"
| "srv_event_step cfg W (HandshakeTimer i ec) s =
     (if co_handshake_timer (n_objs (cs_srv s) i) then cs_upd (net_upd i (conn_handshake_timer_fired ec)) s else s)"
| "srv_event_step cfg W (IdleTimer i ec) s =
     (if co_idle_timer (n_objs (cs_srv s) i) then cs_upd (net_upd i (conn_idle_timer_fired ec)) s else s)"
| "srv_event_step cfg W (SessionTimer ec) s = (if cs_session_timer s then session_cleanup cfg W ec s else s)"
| "srv_event_step cfg W (RateTimer ec) s = (if cs_rate_timer s then rate_limit_cleanup W ec s else s)"
| "srv_event_step cfg W Signalled s = on_signal W s"
| "srv_event_step cfg W MainStop s = s"

text \<open>Once the io_context is stopped only the main thread goes on, which stops the server.\<close>

definition server_step :: "server_config \<Rightarrow> ('j, 'st) world \<Rightarrow> srv_event \<Rightarrow> 'st chat_server \<Rightarrow> 'st chat_server" where
  "server_step cfg W e s =
     (if e = MainStop then (if cs_shutdown s then tls_stop s else s)
      else if cs_io_stopped s then s
      else srv_event_step cfg (server_world cfg W) e s)"

fun server_run :: "server_config \<Rightarrow> (('j, 'st) world \<times> srv_event) list \<Rightarrow> 'st chat_server \<Rightarrow> 'st chat_server" where
  "server_run cfg [] s = s"
| "server_run cfg ((W, e) # es) s = server_run cfg es (server_step cfg W e s)"

end
