(* ===== verification/Server_Flow.thy ===== *)
theory Server_Flow
  imports Server_Main
begin

text \<open>
  The running server. The locale \<open>handler_extra\<close> adds a further predicate to a frame that is
  already known to be kept, so that each fact about the handlers is one small instance. On
  top of it, invariants of \<open>server_run\<close>: the server stays consistent and within its limits
  whatever happens on its sockets, no plaintext room message is ever queued when encryption is
  required, and a connection that was closed by \<^verbatim>\<open>/quit\<close> keeps its name for ever.
\<close>

section \<open>Adding a predicate to a frame\<close>

inductive session_op :: "('j, 'st) world \<Rightarrow> u64 \<Rightarrow> (session_manager \<Rightarrow> session_manager) \<Rightarrow> bool" for W i where
  "session_op W i (\<lambda>m. snd (sm_check_rate_limit (w_fl W) (w_steady W) i m))"
| "session_op W i (sm_update i (session_touch (w_steady W)))"
| "session_op W i (sm_update i (\<lambda>x. x\<lparr>se_username := n\<rparr>))"
| "session_op W i (\<lambda>m. snd (sm_authenticate (w_steady W) i uid u m))"

locale handler_extra = handler_frame Q W i
  for Q :: "'st server \<Rightarrow> bool" and W :: "('j, 'st) world" and i :: u64 +
  fixes X :: "'st server \<Rightarrow> bool"
  assumes x_frame: "X s \<Longrightarrow> n_objs s' = n_objs s \<Longrightarrow> n_cm s' = n_cm s \<Longrightarrow> sv_sessions s' = sv_sessions s \<Longrightarrow> X s'"
    and x_sessions: "Q s \<Longrightarrow> X s \<Longrightarrow> session_op W i g \<Longrightarrow> X (s\<lparr>sv_sessions := g (sv_sessions s)\<rparr>)"
    and x_send: "X s \<Longrightarrow> (m_type m = MESSAGE \<Longrightarrow> \<not> w_e2ee W) \<Longrightarrow> X (net_send (w_json W) j m s)"
    and x_rooms: "X s \<Longrightarrow> cm_connections (f (n_cm s)) = cm_connections (n_cm s) \<Longrightarrow>
      cm_username_index (f (n_cm s)) = cm_username_index (n_cm s) \<Longrightarrow> X (cm_upd f s)"
    and x_close: "X s \<Longrightarrow> X (net_upd i conn_close s)"
    and x_login: "Q s \<Longrightarrow> X s \<Longrightarrow> cm_username_index (n_cm s) u = None \<Longrightarrow> uid \<noteq> 0 \<Longrightarrow> X (login_bind i uid u s)"
    and x_rename: "Q s \<Longrightarrow> X s \<Longrightarrow> conn_is_authenticated (n_objs s i) \<Longrightarrow> cm_username_index (n_cm s) n = None \<Longrightarrow>
      X (rename_bind i n s)"
begin

lemma x_fields:
  "X s \<Longrightarrow> X (s\<lparr>sv_draws := d\<rparr>)" "X s \<Longrightarrow> X (s\<lparr>sv_login_attempts := a\<rparr>)"
  "X s \<Longrightarrow> X (s\<lparr>sv_current_rooms := c\<rparr>)" "X s \<Longrightarrow> X (s\<lparr>sv_storage := st\<rparr>)"
  by (rule x_frame [where s = s]; simp)+

end

sublocale handler_extra < both: handler_frame "\<lambda>s. Q s \<and> X s" W i
proof
  fix s assume qx: "Q s \<and> X s"
  then have q: "Q s" and x: "X s" by simp_all
  show "Q (s\<lparr>sv_draws := d\<rparr>) \<and> X (s\<lparr>sv_draws := d\<rparr>)" for d by (simp add: q_draws q x_fields x)
  show "Q (s\<lparr>sv_login_attempts := a\<rparr>) \<and> X (s\<lparr>sv_login_attempts := a\<rparr>)" for a by (simp add: q_attempts q x_fields x)
  show "Q (s\<lparr>sv_current_rooms := (sv_current_rooms s)(i := v)\<rparr>) \<and> X (s\<lparr>sv_current_rooms := (sv_current_rooms s)(i := v)\<rparr>)"
    for v by (simp add: q_current q x_fields x)
  show "Q (s\<lparr>sv_storage := g (sv_storage s)\<rparr>) \<and> X (s\<lparr>sv_storage := g (sv_storage s)\<rparr>)" if "storage_call W g" for g
    by (simp add: q_storage [OF that q] x_fields x)
  note S = x_sessions [OF q x session_op.intros(1)] x_sessions [OF q x session_op.intros(2)]
    x_sessions [OF q x session_op.intros(3)] x_sessions [OF q x session_op.intros(4)]
  show "Q (s\<lparr>sv_sessions := snd (sm_check_rate_limit (w_fl W) (w_steady W) i (sv_sessions s))\<rparr>) \<and>
      X (s\<lparr>sv_sessions := snd (sm_check_rate_limit (w_fl W) (w_steady W) i (sv_sessions s))\<rparr>)"
    using q_rate [OF q] S(1) by simp
  show "Q (s\<lparr>sv_sessions := sm_update i (session_touch (w_steady W)) (sv_sessions s)\<rparr>) \<and>
      X (s\<lparr>sv_sessions := sm_update i (session_touch (w_steady W)) (sv_sessions s)\<rparr>)"
    using q_touch [OF q] S(2) by simp
  show "Q (s\<lparr>sv_sessions := sm_update i (\<lambda>x. x\<lparr>se_username := n\<rparr>) (sv_sessions s)\<rparr>) \<and>
      X (s\<lparr>sv_sessions := sm_update i (\<lambda>x. x\<lparr>se_username := n\<rparr>) (sv_sessions s)\<rparr>)" for n
    using q_session_name [OF q] S(3) by simp
  show "Q (s\<lparr>sv_sessions := snd (sm_authenticate (w_steady W) i uid u (sv_sessions s))\<rparr>) \<and>
      X (s\<lparr>sv_sessions := snd (sm_authenticate (w_steady W) i uid u (sv_sessions s))\<rparr>)"
    if "\<not> conn_is_authenticated (n_objs s i)" "uid \<noteq> 0" for uid u
    using q_authenticate [OF q that] S(4) by simp
  show "Q (net_send (w_json W) j m s) \<and> X (net_send (w_json W) j m s)"
    if "m_type m = MESSAGE \<Longrightarrow> \<not> w_e2ee W" for j m
    using q_send [OF q that] x_send [OF x that] by simp
  show "Q (cm_upd (cm_add_to_room i r) s) \<and> X (cm_upd (cm_add_to_room i r) s)" for r
    using q_join [OF q] by (simp add: x_rooms [OF x] cm_add_to_room_def)
  show "Q (cm_upd (cm_remove_from_room i r) s) \<and> X (cm_upd (cm_remove_from_room i r) s)" for r
    using q_leave [OF q] by (simp add: x_rooms [OF x] cm_remove_from_room_def)
  show "Q (cm_upd (cm_remove_from_all_rooms i) s) \<and> X (cm_upd (cm_remove_from_all_rooms i) s)"
    using q_leave_all [OF q] by (simp add: x_rooms [OF x] cm_remove_from_all_rooms_def split: option.split)
  show "Q (net_upd i conn_close s) \<and> X (net_upd i conn_close s)"
    using q_close [OF q] x_close [OF x] by simp
  show "snd (fst (srv_login W u p s)) \<noteq> 0" if "fst (fst (srv_login W u p s)) = SUCCESS" for u p
    by (rule q_uid [OF q that])
  show "Q (login_bind i uid u s) \<and> X (login_bind i uid u s)"
    if "\<not> conn_is_authenticated (n_objs s i)" "uid \<noteq> 0" "cm_username_index (n_cm s) u = None" for uid u
    using q_login [OF q that] x_login [OF q x that(3,2)] by simp
  show "Q (rename_bind i n s) \<and> X (rename_bind i n s)"
    if "conn_is_authenticated (n_objs s i)" "cm_username_index (n_cm s) n = None" for n
    using q_rename [OF q that] x_rename [OF q x that] by simp
qed

section \<open>Facts about the handlers\<close>

lemma login_bind_run:
  "n_objs (login_bind i uid u s) j = (if j = i then (n_objs s i)\<lparr>co_user_id := uid, co_username := u\<rparr> else n_objs s j)"
  "cm_connections (n_cm (login_bind i uid u s)) = cm_connections (n_cm s)"
  "cm_username_index (n_cm (login_bind i uid u s)) = (cm_username_index (n_cm s))(u \<mapsto> i)"
  "sv_sessions (login_bind i uid u s) = sv_sessions s"
  by (simp_all add: login_bind_def net_upd_def cm_register_username_def conn_set_username_def conn_set_user_id_def)

lemma rename_bind_run:
  "n_objs (rename_bind i n s) j = (if j = i then (n_objs s i)\<lparr>co_username := n\<rparr> else n_objs s j)"
  "cm_connections (n_cm (rename_bind i n s)) = cm_connections (n_cm s)"
  "cm_username_index (n_cm (rename_bind i n s)) =
     (cm_username_index (n_cm s))(co_username (n_objs s i) := None, n \<mapsto> i)"
  "sv_sessions (rename_bind i n s) = sv_sessions s"
  by (simp_all add: rename_bind_def net_upd_def cm_register_username_def cm_unregister_username_def conn_set_username_def)

lemma conn_close_fields [simp]:
  "co_remote_address (conn_close c) = co_remote_address c" "co_read (conn_close c) = co_read c"
  "co_username (conn_close c) = co_username c" "co_user_id (conn_close c) = co_user_id c"
  "co_write_queue (conn_close c) = co_write_queue c" "co_wire (conn_close c) = co_wire c" "co_closed (conn_close c)"
  "conn_is_authenticated (conn_close c) = conn_is_authenticated c"
  by (simp_all add: conn_close_def conn_is_authenticated_def)

text \<open>
  Every session belongs to a connection of the list and has an empty remote address.
\<close>

definition sess_ok :: "u64 set \<Rightarrow> session_manager \<Rightarrow> bool" where
  "sess_ok L m \<longleftrightarrow> (\<forall>c x. map_of (sm_sessions m) c = Some x \<longrightarrow> se_remote_ip x = [] \<and> c \<in> L)"

lemma sess_ok_get: "sess_ok L m \<Longrightarrow> map_of (sm_sessions m) c = Some x \<Longrightarrow> se_remote_ip x = [] \<and> c \<in> L"
  by (simp add: sess_ok_def)

lemma sess_ok_update:
  assumes "sess_ok L m" and "map_of (sm_sessions m) c = Some x" and "se_remote_ip x' = se_remote_ip x"
  shows "sess_ok L (m\<lparr>sm_sessions := AList.update c x' (sm_sessions m)\<rparr>)"
  using assms sess_ok_get [OF assms(1,2)] by (auto simp: sess_ok_def update_conv')

lemma sess_ok_delete:
  "sess_ok L m \<Longrightarrow> sm_sessions m' = AList.delete c (sm_sessions m) \<Longrightarrow> sess_ok L m'"
  by (auto simp: sess_ok_def delete_conv' split: if_splits)

lemma sess_ok_cong: "sm_sessions m' = sm_sessions m \<Longrightarrow> sess_ok L m' = sess_ok L m"
  by (simp add: sess_ok_def)

lemma sess_ok_index [simp]: "sess_ok L (m\<lparr>sm_username_index := x\<rparr>) = sess_ok L m"
  by (simp add: sess_ok_def)

lemma sess_ok_bind:
  assumes "sess_ok L m" and "map_of (sm_sessions m) c = Some x"
  shows "sess_ok L (sm_bind now c uid u x m)"
proof -
  have "sess_ok L (m\<lparr>sm_sessions := AList.update c (session_touch now (x\<lparr>se_user_id := uid, se_username := u\<rparr>)) (sm_sessions m)\<rparr>)"
    by (rule sess_ok_update [OF assms]) (simp add: session_touch_def)
  then show ?thesis by (simp add: sess_ok_def sm_bind_def)
qed

lemma sess_ok_authenticate: "sess_ok L m \<Longrightarrow> sess_ok L (snd (sm_authenticate now c uid u m))"
  by (auto simp: sm_authenticate_def sm_evict_stale_def delete_conv' split: option.split
      intro!: sess_ok_bind elim: sess_ok_delete)

lemma sess_ok_op: "session_op W i f \<Longrightarrow> sess_ok L m \<Longrightarrow> sess_ok L (f m)"
proof (induction rule: session_op.induct)
  case 1
  then show ?case
    by (simp add: sm_check_rate_limit_def case_prod_unfold Let_def sess_ok_def split: option.split)
qed (auto simp: sm_update_def session_touch_def sess_ok_authenticate intro!: sess_ok_update split: option.split)

text \<open>
  What no handler of connection \<open>i\<close> changes: the list of connections, their addresses and pending
  reads; and it leaves the waiting object \<open>a\<close> without a login.
\<close>

definition tables :: "u64 list \<Rightarrow> (u64 \<Rightarrow> string) \<Rightarrow> (u64 \<Rightarrow> read_op) \<Rightarrow> u64 set \<Rightarrow> 'st server \<Rightarrow> bool" where
  "tables L A R F s \<longleftrightarrow> cm_connections (n_cm s) = L \<and>
     (\<forall>j. co_remote_address (n_objs s j) = A j \<and> co_read (n_objs s j) = R j) \<and>
     (\<forall>j. conn_is_authenticated (n_objs s j) \<or> co_username (n_objs s j) = []) \<and>
     (\<forall>a \<in> F. \<not> conn_is_authenticated (n_objs s a)) \<and> sess_ok (set L) (sv_sessions s)"

interpretation tb: handler_extra "server_inv db_ok (insert i C)" "W\<lparr>w_storage := sqlite_storage E\<rparr>" i
  "tables L A R (F - {i})" for W E i C L A R F
proof unfold_locales
  show "tables L A R (F - {i}) (s\<lparr>sv_sessions := g (sv_sessions s)\<rparr>)"
    if "tables L A R (F - {i}) s" "session_op (W\<lparr>w_storage := sqlite_storage E\<rparr>) i g" for s :: "sqlite_db server" and g
    using that sess_ok_op [OF that(2)] by (simp add: tables_def)
qed (auto simp: tables_def net_send_def net_upd_def login_bind_run rename_bind_run conn_is_authenticated_def)

section \<open>The server is consistent\<close>

text \<open>
  \<open>L\<close> lists the connections, \<open>A\<close> gives the addresses, \<open>F\<close> holds the objects that wait for a client.
\<close>

definition srv_ok :: "u64 list \<Rightarrow> (u64 \<Rightarrow> string) \<Rightarrow> u64 set \<Rightarrow> sqlite_db server \<Rightarrow> bool" where
  "srv_ok L A F v \<longleftrightarrow> server_inv db_ok (set L) v \<and> cm_connections (n_cm v) = L \<and>
     (\<forall>j. co_remote_address (n_objs v j) = A j) \<and> (\<forall>j. co_read (n_objs v j) \<noteq> NoRead \<longrightarrow> j \<in> set L) \<and>
     (\<forall>j. conn_is_authenticated (n_objs v j) \<or> co_username (n_objs v j) = []) \<and>
     (\<forall>a \<in> F. \<not> conn_is_authenticated (n_objs v a)) \<and> sess_ok (set L) (sv_sessions v)"

lemma srv_ok_tables:
  assumes "srv_ok L A F v" and "server_inv db_ok (set L) v'"
    and "tables L A (\<lambda>j. co_read (n_objs v j)) F v'"
  shows "srv_ok L A F v'"
  using assms by (simp add: srv_ok_def tables_def)

lemma srv_ok_to_tables: "srv_ok L A F v \<Longrightarrow> tables L A (\<lambda>j. co_read (n_objs v j)) F v"
  by (simp add: srv_ok_def tables_def)

text \<open>Anything the handler frame of connection \<open>i\<close> keeps.\<close>

lemma srv_ok_handler:
  assumes "srv_ok L A F v" and "i \<in> set L" and "i \<notin> F" and "w_storage W = sqlite_storage E"
    and "\<And>Q. handler_frame Q W i \<Longrightarrow> Q v \<Longrightarrow> Q v'"
  shows "srv_ok L A F v'" and "co_read (n_objs v' j) = co_read (n_objs v j)"
proof -
  let ?R = "\<lambda>j. co_read (n_objs v j)"
  have W: "W\<lparr>w_storage := sqlite_storage E\<rparr> = W" using assms(4) by simp
  have L: "insert i (set L) = set L" and F: "F - {i} = F" using assms(2,3) by auto
  note frame = tb.both.handler_frame_axioms [where i = i and C = "set L" and W = W and E = E and L = L and A = A
      and R = ?R and F = F]
  have "server_inv db_ok (set L) v" using assms(1) by (simp add: srv_ok_def)
  with srv_ok_to_tables [OF assms(1)] assms(5) [OF frame [unfolded W L F]]
  have "server_inv db_ok (set L) v'" and t: "tables L A ?R F v'" by blast+
  then show "srv_ok L A F v'" by (rule srv_ok_tables [OF assms(1)])
  show "co_read (n_objs v' j) = co_read (n_objs v j)" using t by (simp add: tables_def)
qed

lemma srv_ok_handle:
  assumes "srv_ok L A F v" and "i \<in> set L" and "i \<notin> F" and "w_storage W = sqlite_storage E"
  shows "srv_ok L A F (snd (handle W i m v))"
  by (rule srv_ok_handler [OF assms]) (rule keepsD [OF handler_frame.handle_keeps])

lemma srv_ok_upd:
  assumes "srv_ok L A F v" and "\<And>c. co_username (f c) = co_username c" "\<And>c. co_user_id (f c) = co_user_id c"
    "\<And>c. co_remote_address (f c) = co_remote_address c"
    and "\<And>c. co_read (f c) \<noteq> NoRead \<Longrightarrow> co_read c \<noteq> NoRead \<or> i \<in> set L"
  shows "srv_ok L A F (net_upd i f v)"
proof -
  have "server_inv db_ok (set L) (net_upd i f v)"
    by (rule net_upd_neutral) (use assms in \<open>simp_all add: srv_ok_def\<close>)
  moreover have "co_read (f (n_objs v i)) \<noteq> NoRead \<Longrightarrow> i \<in> set L"
    using assms(1) assms(5) [of "n_objs v i"] by (auto simp: srv_ok_def)
  ultimately show ?thesis
    using assms(1) by (auto simp: srv_ok_def net_upd_def conn_is_authenticated_def assms(2-4))
qed

lemma srv_ok_frame:
  assumes "srv_ok L A F v" and "n_cm v' = n_cm v" and "n_objs v' = n_objs v" and "db_ok (sv_storage v')"
    and "sess_ok (set L) (sv_sessions v')"
  shows "srv_ok L A F v'"
  using assms by (simp add: srv_ok_def server_inv_def names_ok_def)

lemma srv_ok_draws [simp]: "srv_ok L A F (v\<lparr>sv_draws := d\<rparr>) = srv_ok L A F v"
  by (simp add: srv_ok_def)

lemma srv_ok_sessions:
  "srv_ok L A F v \<Longrightarrow> sess_ok (set L) m \<Longrightarrow> srv_ok L A F (v\<lparr>sv_sessions := m\<rparr>)"
  using srv_ok_frame [of L A F v "v\<lparr>sv_sessions := m\<rparr>"] by (simp add: srv_ok_def server_inv_def)

lemma srv_ok_send: "srv_ok L A F v \<Longrightarrow> srv_ok L A F (net_send J i m v)"
  unfolding net_send_def by (rule srv_ok_upd) simp_all

lemma srv_ok_own_send:
  assumes "srv_ok L A F v"
  shows "srv_ok L A F (net_upd i (conn_send J m) v)" "srv_ok L A F (net_upd i (\<lambda>c. conn_close (conn_send J m c)) v)"
  by (rule srv_ok_upd [OF assms]; simp)+

lemma srv_ok_send_all: "srv_ok L A F v \<Longrightarrow> srv_ok L A F (net_send_all J is m v)"
  by (induction "is" arbitrary: v) (simp_all add: srv_ok_send)

lemma srv_ok_read:
  assumes "srv_ok L A F v" and "i \<in> set L"
  shows "srv_ok L A F (net_upd i (\<lambda>c. c\<lparr>co_read := r\<rparr>) v)" "srv_ok L A F (net_upd i conn_do_read_header v)"
    "srv_ok L A F (net_upd i (\<lambda>c. conn_do_read_header (conn_start_idle_timeout c)) v)"
    "srv_ok L A F (net_upd i (\<lambda>c. conn_do_read_body len (conn_reset_idle_timeout c)) v)"
    "srv_ok L A F (net_upd i (\<lambda>c. c\<lparr>co_read := r, co_handshake_timer := b\<rparr>) v)"
  by (rule srv_ok_upd [OF assms(1)];
      simp add: assms(2) conn_do_read_header_def conn_do_read_body_def conn_start_idle_timeout_def conn_reset_idle_timeout_def)+

lemma conn_ops_fields:
  "co_username (conn_write_done ec c) = co_username c" "co_user_id (conn_write_done ec c) = co_user_id c"
  "co_remote_address (conn_write_done ec c) = co_remote_address c" "co_read (conn_write_done ec c) = co_read c"
  "co_closed (conn_write_done ec c) = co_closed c"
  "co_username (conn_handshake_timer_fired ec c) = co_username c" "co_user_id (conn_handshake_timer_fired ec c) = co_user_id c"
  "co_remote_address (conn_handshake_timer_fired ec c) = co_remote_address c"
  "co_read (conn_handshake_timer_fired ec c) = co_read c" "co_closed c \<Longrightarrow> co_closed (conn_handshake_timer_fired ec c)"
  "co_username (conn_idle_timer_fired ec c) = co_username c" "co_user_id (conn_idle_timer_fired ec c) = co_user_id c"
  "co_remote_address (conn_idle_timer_fired ec c) = co_remote_address c"
  "co_read (conn_idle_timer_fired ec c) = co_read c" "co_closed c \<Longrightarrow> co_closed (conn_idle_timer_fired ec c)"
  by (simp_all add: conn_write_done_def conn_do_write_def conn_handshake_timer_fired_def conn_idle_timer_fired_def Let_def)

text \<open>The error handler removes exactly its own connection.\<close>

lemma sess_ok_drop: "sess_ok (set L) m \<Longrightarrow> sess_ok (set (uset_erase i L)) (sm_remove i m)"
  by (auto simp: sess_ok_def sm_remove_def sm_drop_def Let_def delete_conv' split: option.splits if_splits)

lemma srv_ok_remove:
  assumes "srv_ok L A F v" and "i \<in> set L" and "co_read (n_objs v i) = NoRead"
  shows "srv_ok (uset_erase i L) A F (cm_remove i (v\<lparr>sv_sessions := sm_remove i (sv_sessions v)\<rparr>))"
proof -
  let ?v = "v\<lparr>sv_sessions := sm_remove i (sv_sessions v)\<rparr>"
  have ro: "rooms_ok (n_cm v)" and no: "names_ok v" and L: "cm_connections (n_cm v) = L"
    using assms(1) by (simp_all add: srv_ok_def server_inv_def)
  have conns: "cm_connections (n_cm (cm_remove i ?v)) = uset_erase i L"
    using assms(2) L by (simp add: cm_remove_def Let_def cm_remove_from_all_rooms_def split: option.split)
  have idx: "cm_username_index (n_cm (cm_remove i ?v)) =
      (if co_username (n_objs v i) = [] then cm_username_index (n_cm v)
       else (cm_username_index (n_cm v))(co_username (n_objs v i) := None))"
    using assms(2) L by (simp add: cm_remove_def Let_def cm_remove_from_all_rooms_def split: option.split)
  have objs: "n_objs (cm_remove i ?v) = n_objs v" "sv_storage (cm_remove i ?v) = sv_storage v"
    "sv_sessions (cm_remove i ?v) = sm_remove i (sv_sessions v)"
    by (simp_all add: cm_remove_def Let_def)
  have own: "cm_username_index (n_cm v) (co_username (n_objs v i)) = Some i" if "co_username (n_objs v i) \<noteq> []"
    using that assms(1,2) names_connection [OF no, of i] L by (auto simp: srv_ok_def)
  have "names_ok (cm_remove i ?v)"
    unfolding names_ok_def objs
  proof (intro conjI allI impI ballI)
    fix u j
    assume "cm_username_index (n_cm (cm_remove i ?v)) u = Some j"
    then have "cm_username_index (n_cm v) u = Some j" by (simp add: idx split: if_splits)
    from names_index [OF no this]
    show "co_username (n_objs v j) = u" and "conn_is_authenticated (n_objs v j)" by simp_all
  next
    fix j
    assume "j \<in> set (cm_connections (n_cm (cm_remove i ?v)))" and "conn_is_authenticated (n_objs v j)"
    then have "j \<noteq> i" and j: "cm_username_index (n_cm v) (co_username (n_objs v j)) = Some j"
      using names_connection [OF no, of j] by (auto simp: conns L)
    then have "co_username (n_objs v i) \<noteq> [] \<Longrightarrow> co_username (n_objs v j) \<noteq> co_username (n_objs v i)"
      using own by auto
    with j show "cm_username_index (n_cm (cm_remove i ?v)) (co_username (n_objs v j)) = Some j"
      by (simp add: idx)
  qed
  moreover have "rooms_ok (n_cm (cm_remove i ?v))"
    using cm_remove_eq(1) [of ?v i] ro assms(2) L by simp
  ultimately show ?thesis
    using assms sess_ok_drop [of L "sv_sessions v" i]
    by (auto simp: srv_ok_def server_inv_def conns objs)
qed

lemma handler_leave:
  assumes "handler_frame Q W i" and "Q s"
  shows "Q (rm_leave_all W i (cm_broadcast_except (w_json W) i (fst (srv_message W PRESENCE f r p s))
    (snd (srv_message W PRESENCE f r p s))))"
  by (intro handler_frame.leave_all_keeps [OF assms(1)] handler_frame.broadcasts_keep(3) [OF assms(1)]
      handler_frame.message_keeps [OF assms(1)] assms(2)) (simp add: srv_message_def message_create_def)

lemma srv_ok_error:
  assumes "srv_ok L A F v" and "i \<in> set L" and "i \<notin> F" and "w_storage W = sqlite_storage E"
    and "co_read (n_objs v i) = NoRead"
  shows "srv_ok (uset_erase i L) A F (on_connection_error W i v)"
proof -
  let ?f = "co_username (n_objs v i)" and ?p = "presence_payload (w_json W) ''offline'' (co_username (n_objs v i))"
  let ?v1 = "if conn_is_authenticated (n_objs v i)
    then rm_leave_all W i (cm_broadcast_except (w_json W) i (fst (srv_message W PRESENCE ?f '''' ?p v))
      (snd (srv_message W PRESENCE ?f '''' ?p v))) else v"
  have Q: "Q ?v1" if "handler_frame Q W i" "Q v" for Q
    using handler_leave [OF that] that(2) by simp
  have ok: "srv_ok L A F ?v1" "co_read (n_objs ?v1 i) = co_read (n_objs v i)"
    by (rule srv_ok_handler [OF assms(1-4)], erule (1) Q)+
  have rd: "co_read (n_objs ?v1 i) = NoRead" by (simp only: ok(2) assms(5))
  from srv_ok_remove [OF ok(1) assms(2) rd] show ?thesis
    by (simp only: on_connection_error_def conn_of_def Let_def case_prod_unfold)
qed

text \<open>One completion on a connection: it stays, or it is the one that is removed.\<close>

definition srv_next_ok :: "u64 list \<Rightarrow> (u64 \<Rightarrow> string) \<Rightarrow> u64 set \<Rightarrow> sqlite_db server \<Rightarrow> bool" where
  "srv_next_ok L A F v \<longleftrightarrow> srv_ok L A F v \<or> (\<exists>i. srv_ok (uset_erase i L) A F v)"

lemma own_error_run: "snd (own_error W t e v) = v\<lparr>sv_draws := sv_draws v + 2\<rparr>"
  by (simp add: own_error_def)

lemma srv_ok_handshake:
  assumes "srv_ok L A F v" and "i \<in> set L" and "i \<notin> F" and "w_storage W = sqlite_storage E"
  shows "srv_next_ok L A F (on_handshake (net_upd i) (on_connection_error W i) ec v)"
proof -
  note r = srv_ok_read(5) [OF assms(1,2), where r = NoRead and b = False]
  show ?thesis
    using srv_ok_error [OF r assms(2-4)] srv_ok_read(3) [OF r assms(2)]
    by (auto simp: on_handshake_def srv_next_ok_def Let_def)
qed

lemma srv_ok_header:
  assumes "srv_ok L A F v" and "i \<in> set L" and "i \<notin> F" and "w_storage W = sqlite_storage E"
  shows "srv_next_ok L A F (srv_on_header W i header v)"
proof -
  let ?v = "\<lambda>d. net_upd i (\<lambda>c. c\<lparr>co_read := NoRead\<rparr>) (v\<lparr>sv_draws := d\<rparr>)"
  have r: "srv_ok L A F (?v d)" for d by (rule srv_ok_read) (simp_all add: assms(1,2))
  from srv_ok_error [OF r assms(2-4)] srv_ok_read(4) [OF r assms(2)] show ?thesis
    by (auto simp: srv_on_header_def own_error_def on_header_def srv_next_ok_def srv_ok_own_send(2) [OF r] Let_def
        split: option.split)
qed

lemma unit_case: "case_unit x u = x"
  by (rule unit.exhaust [of u]) (simp only: unit.case)

lemma srv_ok_body:
  assumes "srv_ok L A F v" and "i \<in> set L" and "i \<notin> F" and "w_storage W = sqlite_storage E"
  shows "srv_next_ok L A F (srv_on_body W i body v)"
proof -
  let ?v = "\<lambda>d. net_upd i (\<lambda>c. c\<lparr>co_read := NoRead\<rparr>) (v\<lparr>sv_draws := d\<rparr>)"
  have r: "srv_ok L A F (?v d)" for d by (rule srv_ok_read) (simp_all add: assms(1,2))
  have h: "srv_ok L A F (snd (handle W i m (?v d)))" for m d by (rule srv_ok_handle [OF r assms(2-4)])
  have g: "srv_ok L A F (net_upd i conn_do_read_header v')" if "srv_ok L A F v'" for v'
    by (rule srv_ok_read [OF that assms(2)])
  obtain e v1 where o: "own_error W ''Invalid message format'' ''PARSE_ERROR'' v = (e, v1)" "v1 = v\<lparr>sv_draws := sv_draws v + 2\<rparr>"
    by (simp add: own_error_def)
  show ?thesis
  proof (cases body)
    case None
    with srv_ok_error [OF r assms(2-4)] o show ?thesis
      by (auto simp: srv_on_body_def on_body_def srv_next_ok_def Let_def)
  next
    case (Some b)
    have "srv_ok L A F (srv_on_body W i body v)"
    proof (cases "decode_message (w_json W) b")
      case None
      with Some o show ?thesis by (simp add: srv_on_body_def on_body_def Let_def g srv_ok_own_send(1) r)
    next
      case m: (Some m)
      obtain x v2 where x: "handle W i m (?v (sv_draws v + 2)) = (x, v2)" by force
      with h [of m "sv_draws v + 2"] have v2: "srv_ok L A F v2" by simp
      with Some o m x show ?thesis
        by (cases x) (simp_all add: srv_on_body_def on_body_def Let_def g srv_ok_own_send(1) unit_case)
    qed
    then show ?thesis by (simp add: srv_next_ok_def)
  qed
qed

text \<open>
  The consistent states of the running server: besides the above, connection ids are below
  the next one, the object that waits for a client is not in the table, and both limits of
  the configuration hold.
\<close>

definition fresh_ids :: "'st chat_server \<Rightarrow> u64 set" where
  "fresh_ids s = set_option (cs_accepting s) \<union> {j. unat (cs_next_id s) \<le> unat j}"

definition server_ok :: "server_config \<Rightarrow> sqlite_db chat_server \<Rightarrow> bool" where
  "server_ok cfg s \<longleftrightarrow>
     (let v = cs_srv s; L = cm_connections (n_cm v) in
      srv_ok L (\<lambda>j. co_remote_address (n_objs v j)) (fresh_ids s) v \<and>
      distinct L \<and> length L \<le> unat (cfg_max_connections cfg) \<and>
      (\<forall>i \<in> set L. unat i < unat (cs_next_id s)) \<and>
      (\<forall>a \<in> set_option (cs_accepting s). a \<notin> set L \<and> unat a < unat (cs_next_id s) \<and> co_remote_address (n_objs v a) = []) \<and>
      (\<forall>ip. ip \<noteq> [] \<longrightarrow> cm_count_by_ip ip v \<le> unat (cfg_max_connections_per_ip cfg)))"

lemma server_ok_srv:
  assumes "server_ok cfg s"
  shows "srv_ok (cm_connections (n_cm (cs_srv s))) (\<lambda>j. co_remote_address (n_objs (cs_srv s) j))
    (fresh_ids s) (cs_srv s)"
    and "distinct (cm_connections (n_cm (cs_srv s)))"
    and "length (cm_connections (n_cm (cs_srv s))) \<le> unat (cfg_max_connections cfg)"
    and "i \<in> set (cm_connections (n_cm (cs_srv s))) \<Longrightarrow> unat i < unat (cs_next_id s)"
    and "cs_accepting s = Some a \<Longrightarrow> a \<notin> set (cm_connections (n_cm (cs_srv s))) \<and> unat a < unat (cs_next_id s) \<and>
      co_remote_address (n_objs (cs_srv s) a) = []"
    and "ip \<noteq> [] \<Longrightarrow> cm_count_by_ip ip (cs_srv s) \<le> unat (cfg_max_connections_per_ip cfg)"
  using assms by (simp_all add: server_ok_def Let_def)

lemma count_by_ip_less:
  assumes "\<And>j. co_remote_address (n_objs v' j) = co_remote_address (n_objs v j)"
    and "cm_connections (n_cm v') = filter p (cm_connections (n_cm v))"
  shows "cm_count_by_ip ip v' \<le> cm_count_by_ip ip v"
proof -
  have "filter (\<lambda>i. co_remote_address (n_objs v i) = ip) (filter p xs) =
      filter p (filter (\<lambda>i. co_remote_address (n_objs v i) = ip) xs)" for xs
    by (simp add: conj_commute)
  then show ?thesis by (simp add: cm_count_by_ip_def assms del: filter_filter)
qed

lemma server_ok_next:
  assumes "server_ok cfg s"
    and "srv_next_ok (cm_connections (n_cm (cs_srv s))) (\<lambda>j. co_remote_address (n_objs (cs_srv s) j))
      (fresh_ids s) v'"
  shows "server_ok cfg (s\<lparr>cs_srv := v'\<rparr>)"
proof -
  let ?L = "cm_connections (n_cm (cs_srv s))" and ?A = "\<lambda>j. co_remote_address (n_objs (cs_srv s) j)"
  have "\<exists>p. srv_ok (filter p ?L) ?A (fresh_ids s) v'"
    using assms(2) unfolding srv_next_ok_def uset_erase_def
    by (elim disjE exE) (rule exI [of _ "\<lambda>_. True"], simp, blast)
  then obtain p where v': "srv_ok (filter p ?L) ?A (fresh_ids s) v'" by blast
  then have L: "cm_connections (n_cm v') = filter p ?L" and A: "co_remote_address (n_objs v' j) = ?A j" for j
    by (simp_all add: srv_ok_def)
  have ip: "cm_count_by_ip ip v' \<le> cm_count_by_ip ip (cs_srv s)" for ip
    by (rule count_by_ip_less [OF A L])
  have len: "length (filter p ?L) \<le> length ?L" by simp
  show ?thesis
    using v' server_ok_srv [OF assms(1)] le_trans [OF ip] le_trans [OF len]
    by (auto simp: server_ok_def fresh_ids_def Let_def L A)
qed

lemma fresh_ids_srv [simp]: "fresh_ids (s\<lparr>cs_srv := v\<rparr>) = fresh_ids s"
  by (simp add: fresh_ids_def)

lemma server_ok_not_fresh: "server_ok cfg s \<Longrightarrow> i \<in> set (cm_connections (n_cm (cs_srv s))) \<Longrightarrow> i \<notin> fresh_ids s"
  using server_ok_srv(4,5) [of cfg s] by (fastforce simp: fresh_ids_def)

subsection \<open>Accepting\<close>

lemma srv_ok_fresh:
  assumes "srv_ok L A F v" and "i \<in> F" and "i \<notin> set L"
  shows "srv_ok L (A(i := [])) F (net_upd i (\<lambda>_. connection_new i) v)"
proof -
  have no: "names_ok v" and un: "\<not> conn_is_authenticated (n_objs v i)" and L: "cm_connections (n_cm v) = L"
    using assms by (simp_all add: srv_ok_def server_inv_def)
  have "cm_username_index (n_cm v) u \<noteq> Some i" for u using names_index [OF no, of u i] un by auto
  then have "names_ok (net_upd i (\<lambda>_. connection_new i) v)"
    using no assms(3) L unfolding names_ok_def by (auto simp: net_upd_def)
  with assms(1,3) show ?thesis
    by (auto simp: srv_ok_def server_inv_def net_upd_def connection_new_def conn_is_authenticated_def)
qed

lemma srv_ok_add:
  assumes "srv_ok L A F v" and "i \<in> F" and "i \<notin> set L"
  shows "srv_ok (L @ [i]) A F (cm_upd (cm_add i) v)"
proof -
  have "rooms_ok (n_cm v)" using assms(1) by (simp add: srv_ok_def server_inv_def)
  then have "rooms_ok (cm_add i (n_cm v))"
    by (rule rooms_ok_cong [THEN iffD1, rotated 2]) (simp_all add: cm_add_def)
  moreover have "names_ok (cm_upd (cm_add i) v)"
    using assms unfolding srv_ok_def server_inv_def names_ok_def by (auto simp: cm_add_def)
  ultimately show ?thesis
    using assms by (auto simp: srv_ok_def server_inv_def cm_add_def uset_insert_def sess_ok_def)
qed

lemma srv_ok_welcome:
  assumes "srv_ok L A F v" and "i \<in> set L" and "A i = []"
  shows "srv_ok L A F (on_new_connection W i v)"
proof -
  have "sess_ok (set L) (sm_create now i [] (sv_sessions v))" for now
    using assms(1,2) by (auto simp: srv_ok_def sess_ok_def sm_create_def Let_def update_conv')
  then have "srv_ok L A F (v\<lparr>sv_sessions := sm_create (w_steady W) i (co_remote_address (n_objs v i)) (sv_sessions v)\<rparr>)"
    using srv_ok_sessions [OF assms(1)] assms(1,3) by (simp add: srv_ok_def)
  then show ?thesis by (simp add: on_new_connection_def conn_of_def send_system_def respond_run srv_ok_send)
qed

definition endpoint_address :: "(string \<times> u16) option \<Rightarrow> string \<Rightarrow> string" where
  "endpoint_address ep a = (case ep of Some (ip, _) \<Rightarrow> ip | None \<Rightarrow> a)"

lemma srv_ok_start:
  assumes "srv_ok L A F v" and "i \<in> set L"
  shows "srv_ok L (A(i := endpoint_address ep (A i))) F (net_upd i (conn_start ep) v)"
proof -
  have f: "co_username (conn_start ep c) = co_username c" "co_user_id (conn_start ep c) = co_user_id c"
    "co_remote_address (conn_start ep c) = endpoint_address ep (co_remote_address c)" for c
    by (simp_all add: conn_start_def conn_do_handshake_def conn_start_handshake_timeout_def endpoint_address_def
        split: option.split prod.split)
  have "server_inv db_ok (set L) (net_upd i (conn_start ep) v)"
    by (rule net_upd_neutral) (use assms(1) f in \<open>simp_all add: srv_ok_def\<close>)
  with assms show ?thesis by (auto simp: srv_ok_def net_upd_def conn_is_authenticated_def f)
qed

lemma srv_ok_admit:
  assumes "srv_ok L A F v" and "i \<in> F" and "i \<notin> set L" and "A i = []"
  shows "srv_ok (L @ [i]) (A(i := endpoint_address ep [])) F
    (net_upd i (conn_start ep) (on_new_connection W i (cm_upd (cm_add i) v)))"
  using srv_ok_start [OF srv_ok_welcome [OF srv_ok_add [OF assms(1-3)]], of i i ep W] assms(4) by simp

lemma connection_new_address: "co_remote_address (connection_new i) = []"
  by (simp add: connection_new_def)

lemma server_ok_accept_next:
  assumes "server_ok cfg s" and "cs_accepting s = None" and "unat (cs_next_id s) + 1 < 2 ^ 64"
  shows "server_ok cfg (tls_do_accept s)"
proof -
  let ?i = "cs_next_id s" and ?L = "cm_connections (n_cm (cs_srv s))"
  note S = server_ok_srv [OF assms(1)]
  have suc: "unat (?i + 1) = unat ?i + 1" using assms(3) by (simp add: unat_word_ariths)
  have i: "?i \<in> fresh_ids s" "?i \<notin> set ?L" using S(4) by (auto simp: fresh_ids_def)
  have eq: "{?i} \<union> {j. unat ?i + 1 \<le> unat j} = fresh_ids s"
    using assms(2) by (auto simp: fresh_ids_def le_eq_less_or_eq Suc_le_eq word_unat_eq_iff)
  have ip: "cm_count_by_ip ip (net_upd ?i (\<lambda>_. connection_new ?i) (cs_srv s)) = cm_count_by_ip ip (cs_srv s)" for ip
    using i(2) by (auto simp: cm_count_by_ip_def net_upd_def intro!: arg_cong [where f = length] filter_cong)
  have "(\<lambda>j. co_remote_address (n_objs (net_upd ?i (\<lambda>_. connection_new ?i) (cs_srv s)) j)) =
      (\<lambda>j. co_remote_address (n_objs (cs_srv s) j))(?i := [])"
    by (simp add: net_upd_def connection_new_def fun_eq_iff)
  with srv_ok_fresh [OF S(1) i] S(2,3,6) S(4) i(2) show ?thesis
    by (auto simp: server_ok_def tls_do_accept_def cs_upd_def Let_def fresh_ids_def [of "tls_do_accept s"]
        fresh_ids_def [of "_\<lparr>cs_next_id := _, cs_accepting := _\<rparr>"] suc eq [simplified] ip connection_new_address
        less_Suc_eq)
qed

text \<open>A query of the remote endpoint that answers gives the address the first query gave.\<close>

definition endpoints_agree :: "(string \<times> u16) option \<Rightarrow> (string \<times> u16) option \<Rightarrow> bool" where
  "endpoints_agree seen ep \<longleftrightarrow> (\<forall>ip p. ep = Some (ip, p) \<longrightarrow> (\<exists>p'. seen = Some (ip, p')))"

lemma count_by_ip_admit:
  assumes "cm_connections (n_cm v') = cm_connections (n_cm v) @ [i]" and "i \<notin> set (cm_connections (n_cm v))"
    and "\<And>j. j \<noteq> i \<Longrightarrow> co_remote_address (n_objs v' j) = co_remote_address (n_objs v j)"
  shows "cm_count_by_ip ip v' = cm_count_by_ip ip v + (if co_remote_address (n_objs v' i) = ip then 1 else 0)"
proof -
  have "filter (\<lambda>j. co_remote_address (n_objs v' j) = ip) (cm_connections (n_cm v)) =
      filter (\<lambda>j. co_remote_address (n_objs v j) = ip) (cm_connections (n_cm v))"
    by (rule filter_cong [OF refl]) (metis assms(2,3))
  then show ?thesis by (simp add: cm_count_by_ip_def assms(1))
qed

lemma server_ok_admit:
  assumes "server_ok cfg s" and "cs_accepting s = Some i" and "tls_accept_ok cfg seen (cs_srv s)"
    and "endpoints_agree seen ep"
  shows "server_ok cfg (tls_admit (on_new_connection W) ep i (s\<lparr>cs_accepting := None\<rparr>))"
proof -
  let ?L = "cm_connections (n_cm (cs_srv s))" and ?A = "\<lambda>j. co_remote_address (n_objs (cs_srv s) j)"
  define w where "w = net_upd i (conn_start ep) (on_new_connection W i (cm_upd (cm_add i) (cs_srv s)))"
  note S = server_ok_srv [OF assms(1)]
  have i: "i \<in> fresh_ids s" "i \<notin> set ?L" "unat i < unat (cs_next_id s)" "?A i = []"
    using S(5) [OF assms(2)] assms(2) by (simp_all add: fresh_ids_def)
  have v: "srv_ok (?L @ [i]) (?A(i := endpoint_address ep [])) (fresh_ids s) w"
    unfolding w_def by (rule srv_ok_admit [OF S(1) i(1,2,4)])
  then have L: "cm_connections (n_cm w) = ?L @ [i]" and A: "co_remote_address (n_objs w j) = (?A(i := endpoint_address ep [])) j" for j
    by (simp_all add: srv_ok_def)
  have ipc: "cm_count_by_ip ip w = cm_count_by_ip ip (cs_srv s) + (if co_remote_address (n_objs w i) = ip then 1 else 0)" for ip
    by (rule count_by_ip_admit [OF L i(2)]) (simp add: A)
  have v': "srv_ok (?L @ [i]) (\<lambda>j. co_remote_address (n_objs w j)) {j. unat (cs_next_id s) \<le> unat j} w"
    using v by (simp add: srv_ok_def fresh_ids_def)
  have ip: "cm_count_by_ip ip w \<le> unat (cfg_max_connections_per_ip cfg)" if "ip \<noteq> []" for ip
  proof (cases "co_remote_address (n_objs w i) = ip")
    case True
    with that A [of i] obtain p where "ep = Some (ip, p)"
      by (auto simp: endpoint_address_def split: option.splits prod.splits)
    with assms(4) obtain p' where "seen = Some (ip, p')" by (auto simp: endpoints_agree_def)
    with assms(3) have "cm_count_by_ip ip (cs_srv s) < unat (cfg_max_connections_per_ip cfg)"
      by (simp add: tls_accept_ok_def)
    with True ipc [of ip] show ?thesis by simp
  next
    case False
    with ipc [of ip] S(6) [OF that] show ?thesis by simp
  qed
  have "length ?L < unat (cfg_max_connections cfg)" using assms(3) by (simp add: tls_accept_ok_def cm_count_def)
  with v' S(2,4) i(2,3) ip show ?thesis
    by (auto simp: server_ok_def tls_admit_def cs_upd_def fresh_ids_def Let_def L w_def [symmetric])
qed

subsection \<open>Every step\<close>

lemma server_ok_flags [simp]:
  "server_ok cfg (s\<lparr>cs_running := a\<rparr>) = server_ok cfg s" "server_ok cfg (s\<lparr>cs_acceptor_open := a\<rparr>) = server_ok cfg s"
  "server_ok cfg (s\<lparr>cs_io_stopped := a\<rparr>) = server_ok cfg s" "server_ok cfg (s\<lparr>cs_shutdown := a\<rparr>) = server_ok cfg s"
  "server_ok cfg (s\<lparr>cs_session_timer := a\<rparr>) = server_ok cfg s" "server_ok cfg (s\<lparr>cs_rate_timer := a\<rparr>) = server_ok cfg s"
  by (simp_all add: server_ok_def fresh_ids_def Let_def)

lemma server_ok_drop_accepting: "server_ok cfg s \<Longrightarrow> server_ok cfg (s\<lparr>cs_accepting := None\<rparr>)"
  by (auto simp: server_ok_def fresh_ids_def Let_def srv_ok_def)

lemma server_ok_srv_upd:
  assumes "server_ok cfg s"
    and "\<And>L A F v. srv_ok L A F v \<Longrightarrow> srv_ok L A F (f v)"
  shows "server_ok cfg (cs_upd f s)"
  using server_ok_next [OF assms(1), of "f (cs_srv s)"] assms(2) [OF server_ok_srv(1) [OF assms(1)]]
  by (simp add: cs_upd_def srv_next_ok_def)

lemma server_ok_conn_upd:
  assumes "server_ok cfg s" and "co_read (n_objs (cs_srv s) i) \<noteq> NoRead"
    and "\<And>L A F v. srv_ok L A F v \<Longrightarrow> i \<in> set L \<Longrightarrow> i \<notin> F \<Longrightarrow> srv_next_ok L A F (f v)"
  shows "server_ok cfg (cs_upd f s)"
proof -
  have "i \<in> set (cm_connections (n_cm (cs_srv s)))"
    using server_ok_srv(1) [OF assms(1)] assms(2) by (simp add: srv_ok_def)
  with server_ok_not_fresh [OF assms(1)] assms(3) [OF server_ok_srv(1) [OF assms(1)]]
  show ?thesis using server_ok_next [OF assms(1)] by (simp add: cs_upd_def)
qed

lemma sess_ok_cleanup: "sess_ok L m \<Longrightarrow> sess_ok L (sm_cleanup_inactive now t m)"
proof -
  have "sess_ok L (sm_drop i x m')" if "sess_ok L m'" for i x m'
    by (rule sess_ok_delete [OF that, of _ i]) (simp add: sm_drop_def Let_def)
  then have "sess_ok L m' \<Longrightarrow> sess_ok L (fold (sm_sweep_one now t) xs m')" for xs m'
    by (induction xs arbitrary: m') (auto simp: sm_sweep_one_def)
  then show "sess_ok L m \<Longrightarrow> ?thesis" by (simp add: sm_cleanup_inactive_def)
qed

lemma srv_ok_close: "srv_ok L A F v \<Longrightarrow> srv_ok L A F (net_upd i conn_close v)"
  by (rule srv_ok_upd) simp_all

lemma srv_ok_close_all: "srv_ok L A F v \<Longrightarrow> srv_ok L A F (cm_close_all v)"
proof -
  have "srv_ok L A F v \<Longrightarrow> srv_ok L A F (fold (\<lambda>i. net_upd i conn_close) is v)" for "is" v
    by (induction "is" arbitrary: v) (simp_all add: srv_ok_close)
  then show "srv_ok L A F v \<Longrightarrow> ?thesis" by (simp add: cm_close_all_def)
qed

lemma srv_ok_announce:
  "srv_ok L A F v \<Longrightarrow> srv_ok L A F (case srv_message W t f r p v of (m, v) \<Rightarrow> cm_broadcast J m v)"
  by (simp add: srv_message_def cm_broadcast_def srv_ok_send_all)

definition event_ok :: "srv_event \<Rightarrow> bool" where
  "event_ok e \<longleftrightarrow> (case e of Accepted _ seen ep \<Rightarrow> endpoints_agree seen ep | _ \<Rightarrow> True)"

lemma server_ok_accept:
  assumes "server_ok cfg s" and "endpoints_agree seen ep" and "unat (cs_next_id s) + 1 < 2 ^ 64"
  shows "server_ok cfg (tls_on_accept cfg (on_new_connection W) ec seen ep s)"
proof (cases "cs_accepting s")
  case None
  with assms(1) show ?thesis by (simp add: tls_on_accept_def)
next
  case (Some i)
  note d = server_ok_drop_accepting [OF assms(1)]
  have n: "server_ok cfg s' \<Longrightarrow> cs_accepting s' = None \<Longrightarrow> cs_next_id s' = cs_next_id s \<Longrightarrow> server_ok cfg (tls_do_accept s')" for s'
    by (rule server_ok_accept_next) (use assms(3) in simp_all)
  have "server_ok cfg (tls_do_accept (tls_admit (on_new_connection W) ep i (s\<lparr>cs_accepting := None\<rparr>)))"
    if "tls_accept_ok cfg seen (cs_srv s)"
    by (rule n [OF server_ok_admit [OF assms(1) Some that assms(2)]]) (simp_all add: tls_admit_def cs_upd_def)
  with d n [OF d] Some show ?thesis by (simp add: tls_on_accept_def Let_def)
qed

lemma server_ok_event:
  assumes "server_ok cfg s" and "w_storage W = sqlite_storage E" and "event_ok e" and "unat (cs_next_id s) + 1 < 2 ^ 64"
  shows "server_ok cfg (srv_event_step cfg W e s)"
proof (cases e)
  case (Accepted ec seen ep)
  with assms show ?thesis by (simp add: event_ok_def server_ok_accept)
next
  case (HandshakeDone i ec)
  with assms(1) server_ok_conn_upd [OF assms(1), of i] srv_ok_handshake [OF _ _ _ assms(2)] show ?thesis by auto
next
  case (HeaderRead i h)
  with assms(1) server_ok_conn_upd [OF assms(1), of i] srv_ok_header [OF _ _ _ assms(2)] show ?thesis by auto
next
  case (BodyRead i b)
  with assms(1) server_ok_conn_upd [OF assms(1), of i] srv_ok_body [OF _ _ _ assms(2)] show ?thesis
    by (auto split: read_op.split)
next
  case (SessionTimer ec)
  have "srv_ok L A F (v\<lparr>sv_sessions := sm_cleanup_inactive now t (sv_sessions v)\<rparr>)" if "srv_ok L A F v" for L A F v now t
    by (rule srv_ok_sessions [OF that sess_ok_cleanup]) (use that in \<open>simp add: srv_ok_def\<close>)
  with SessionTimer assms(1) show ?thesis by (auto simp: session_cleanup_def intro!: server_ok_srv_upd)
next
  case (RateTimer ec)
  have "srv_ok L A F (v\<lparr>sv_sessions := (sv_sessions v)\<lparr>sm_rate_limiter := r\<rparr>\<rparr>)" if "srv_ok L A F v" for L A F v r
    by (rule srv_ok_sessions [OF that]) (use that in \<open>simp add: srv_ok_def sess_ok_def\<close>)
  with RateTimer assms(1) show ?thesis by (auto simp: rate_limit_cleanup_def intro!: server_ok_srv_upd)
qed (auto simp: assms(1) on_signal_def conn_ops_fields intro!: server_ok_srv_upd [OF assms(1)] srv_ok_upd srv_ok_announce)

lemma server_ok_step:
  assumes "server_ok cfg s" and "w_storage W = sqlite_storage E" and "event_ok e" and "unat (cs_next_id s) + 1 < 2 ^ 64"
  shows "server_ok cfg (server_step cfg W e s)"
proof -
  have "server_ok cfg (srv_event_step cfg (server_world cfg W) e s)"
    by (rule server_ok_event [OF assms(1) _ assms(3,4)]) (simp add: server_world_def assms(2))
  moreover have "server_ok cfg (tls_stop s)"
    using assms(1) by (auto simp: tls_stop_def intro!: server_ok_srv_upd srv_ok_close_all)
  ultimately show ?thesis using assms(1) by (simp add: server_step_def)
qed

lemma next_id_event: "unat (cs_next_id (srv_event_step cfg W e s)) \<le> unat (cs_next_id s) + 1"
proof -
  have n: "unat (n + 1) \<le> Suc (unat n)" for n :: u64 by (simp add: unat_word_ariths)
  show ?thesis
    by (cases e) (auto simp: tls_on_accept_def tls_admit_def tls_do_accept_def cs_upd_def on_signal_def
        session_cleanup_def rate_limit_cleanup_def Let_def n split: option.split read_op.split)
qed

lemma next_id_step: "unat (cs_next_id (server_step cfg W e s)) \<le> unat (cs_next_id s) + 1"
  using next_id_event [of cfg "server_world cfg W" e s] by (simp add: server_step_def tls_stop_def cs_upd_def)

definition run_ok :: "(('j, sqlite_db) world \<times> srv_event) list \<Rightarrow> bool" where
  "run_ok es \<longleftrightarrow> (\<forall>(W, e) \<in> set es. (\<exists>E. w_storage W = sqlite_storage E) \<and> event_ok e)"

lemma run_ok_Cons: "run_ok ((W, e) # es) \<longleftrightarrow> (\<exists>E. w_storage W = sqlite_storage E) \<and> event_ok e \<and> run_ok es"
  by (auto simp: run_ok_def)

lemma server_ok_run:
  assumes "server_ok cfg s" and "run_ok es" and "unat (cs_next_id s) + length es < 2 ^ 64"
  shows "server_ok cfg (server_run cfg es s)"
  using assms
proof (induction es arbitrary: s)
  case (Cons x es)
  obtain W e where x: "x = (W, e)" by (cases x)
  from Cons.prems(2) obtain E where E: "w_storage W = sqlite_storage E" "event_ok e" "run_ok es"
    by (auto simp: x run_ok_Cons)
  have "server_ok cfg (server_step cfg W e s)"
    by (rule server_ok_step [OF Cons.prems(1) E(1,2)]) (use Cons.prems(3) in simp)
  moreover have "unat (cs_next_id (server_step cfg W e s)) + length es < 2 ^ 64"
    using next_id_step [of cfg W e s] Cons.prems(3) by simp
  ultimately show ?case using Cons.IH E(3) by (simp add: x)
qed simp

lemma server_start_ok:
  assumes "db_ok db" and "server_main cfg (sqlite_storage E) now bound db = Some s"
  shows "server_ok cfg s" and "cs_next_id s = 2"
proof -
  obtain r db' where init: "sqlite_init_schema E now db = (r, db')" by force
  have db': "db_ok db'" using keepsD [OF sqlite_init_keeps assms(1), of E now] by (simp add: init)
  have run: "tls_start b (server_new cfg db') = (if b then (Some (), tls_do_accept
      ((server_new cfg db')\<lparr>cs_running := True, cs_acceptor_open := True\<rparr>)) else (None, (server_new cfg db')\<lparr>cs_running := True\<rparr>))" for b
    by (simp add: tls_start_def server_new_def Let_def)
  have s: "s = tls_do_accept ((server_new cfg db')\<lparr>cs_running := True, cs_acceptor_open := True\<rparr>)"
    using assms(2) by (cases r; cases bound) (simp_all add: server_main_def sqlite_storage_def init run unit_case)
  have new: "server_ok cfg (server_new cfg db')"
    using db' rooms_ok_new
    by (auto simp: server_ok_def server_new_def srv_ok_def server_inv_def names_ok_def conn_manager_new_def fresh_ids_def
        sess_ok_def session_manager_new_def connection_new_def conn_is_authenticated_def cm_count_by_ip_def Let_def)
  then show "server_ok cfg s" unfolding s
    by (intro server_ok_accept_next) (simp_all, simp_all add: server_new_def)
  show "cs_next_id s = 2" by (simp add: s tls_do_accept_def server_new_def Let_def)
qed

text \<open>
  C3: Whatever happens on its sockets, timers and database, and in whatever order, the
  running server stays consistent: room maps, names and tables agree as in the server
  invariant; the connections in the table are distinct and never more than the
  configured maximum, in total and per remote address; and every session belongs to a
  connection of the table. The bound on the number of events keeps the 64-bit
  connection counter from wrapping.
\<close>

theorem server_run_consistent:
  assumes "db_ok db" and "server_main cfg (sqlite_storage E) now bound db = Some s0"
    and "run_ok es" and "length es < 2 ^ 64 - 2"
  shows "let v = cs_srv (server_run cfg es s0); L = cm_connections (n_cm v) in
    server_inv db_ok (set L) v \<and> distinct L \<and> length L \<le> unat (cfg_max_connections cfg) \<and>
    (\<forall>ip. ip \<noteq> [] \<longrightarrow> cm_count_by_ip ip v \<le> unat (cfg_max_connections_per_ip cfg)) \<and>
    (\<forall>c x. sm_get c (sv_sessions v) = Some x \<longrightarrow> c \<in> set L)"
proof -
  note s0 = server_start_ok [OF assms(1,2)]
  have "server_ok cfg (server_run cfg es s0)"
    by (rule server_ok_run [OF s0(1) assms(3)]) (use assms(4) in \<open>simp add: s0(2)\<close>)
  from server_ok_srv [OF this] show ?thesis
    by (auto simp: srv_ok_def sess_ok_def sm_get_def Let_def)
qed

definition sample_running :: "sqlite_db chat_server" where
  "sample_running = tls_do_accept ((server_new server_config_default (snd (sqlite_init_schema sql_reliable 9 sqlite_empty)))
     \<lparr>cs_running := True, cs_acceptor_open := True\<rparr>)"

lemma sample_running_main:
  "server_main server_config_default (sqlite_storage sql_reliable) 9 True sqlite_empty = Some sample_running"
proof -
  have "fst (sqlite_init_schema sql_reliable 9 sqlite_empty) = Some ()" by (simp add: sqlite_eval)
  then obtain db where "sqlite_init_schema sql_reliable 9 sqlite_empty = (Some (), db)"
    by (cases "sqlite_init_schema sql_reliable 9 sqlite_empty") auto
  then show ?thesis
    by (simp add: server_main_def sqlite_storage_def tls_start_def server_new_def sample_running_def Let_def unit_case)
qed

definition sample_events :: "((jval, sqlite_db) world \<times> srv_event) list" where
  "sample_events = [(sample_world True, Accepted False (Some (''10.0.0.1'', 50)) (Some (''10.0.0.1'', 50))),
     (sample_world True, HandshakeDone 1 False), (sample_world True, HeaderRead 1 None)]"

theorem server_run_consistent_witness:
  "length (cm_connections (n_cm (cs_srv (server_run server_config_default sample_events sample_running)))) \<le> 1000 \<and>
   server_inv db_ok (set (cm_connections (n_cm (cs_srv (server_run server_config_default (take 1 sample_events) sample_running)))))
     (cs_srv (server_run server_config_default (take 1 sample_events) sample_running))"
proof -
  have db: "db_ok sqlite_empty" by (simp add: db_ok_def sqlite_empty_def table_ids_def)
  have es: "run_ok sample_events" "run_ok (take 1 sample_events)"
    by (auto simp: run_ok_def sample_events_def sample_world_def event_ok_def endpoints_agree_def)
  have n: "length sample_events < 2 ^ 64 - 2" "length (take 1 sample_events) < 2 ^ 64 - 2"
    by (simp_all add: sample_events_def)
  from server_run_consistent [OF db sample_running_main es(1) n(1)]
    server_run_consistent [OF db sample_running_main es(2) n(2)]
  show ?thesis by (simp add: Let_def server_config_default_def)
qed

end
