(* ===== verification/Server_Traces.thy ===== *)
theory Server_Traces
  imports Server_Flow
begin

text \<open>
  Facts about every run of the server that go beyond its consistency. The locale \<open>step_frame\<close>
  lists the elementary changes one completion can make to the server; a predicate kept by each of
  them is kept by every event. It has two instances: no frame with a plaintext room message is
  queued while encryption is required, and a connection that closed itself without a pending
  read keeps its name.
\<close>

section \<open>One completion\<close>

text \<open>A change of one connection that neither names it, reopens it nor invents frames.\<close>

definition mild :: "(connection \<Rightarrow> connection) \<Rightarrow> bool" where
  "mild f \<longleftrightarrow> (\<forall>c. co_username (f c) = co_username c \<and> co_user_id (f c) = co_user_id c \<and>
     (co_closed c \<longrightarrow> co_closed (f c)) \<and> set (co_write_queue (f c)) \<subseteq> set (co_write_queue c) \<and>
     set (co_wire (f c)) \<subseteq> set (co_wire c) \<union> set (co_write_queue c))"

lemma set_tlD: "x \<in> set (tl xs) \<Longrightarrow> x \<in> set xs"
  by (cases xs) simp_all

lemma mild_ops:
  "mild (\<lambda>c. c\<lparr>co_read := r\<rparr>)" "mild (\<lambda>c. c\<lparr>co_read := r, co_handshake_timer := b\<rparr>)" "mild conn_do_read_header"
  "mild (\<lambda>c. conn_do_read_header (conn_start_idle_timeout c))" "mild (\<lambda>c. conn_do_read_body len (conn_reset_idle_timeout c))"
  "mild conn_close" "mild (conn_write_done ec)" "mild (conn_handshake_timer_fired ec)" "mild (conn_idle_timer_fired ec)"
  "mild (conn_start ep)"
  by (auto simp: mild_def conn_do_read_header_def conn_do_read_body_def conn_start_idle_timeout_def
      conn_reset_idle_timeout_def conn_close_def conn_write_done_def conn_do_write_def conn_handshake_timer_fired_def
      conn_idle_timer_fired_def conn_start_def conn_do_handshake_def conn_start_handshake_timeout_def Let_def
      intro: set_tlD hd_in_set split: option.splits)

locale step_frame =
  fixes P :: "sqlite_db server \<Rightarrow> bool" and W :: "('j, sqlite_db) world" and live :: "u64 \<Rightarrow> bool"
  assumes p_frame: "P v \<Longrightarrow> n_objs v' = n_objs v \<Longrightarrow> n_cm v' = n_cm v \<Longrightarrow> P v'"
    and p_handler: "P v \<Longrightarrow> live i \<Longrightarrow> srv_ok L A F v \<Longrightarrow> i \<in> set L \<Longrightarrow> i \<notin> F \<Longrightarrow>
      (\<And>Q. handler_frame Q W i \<Longrightarrow> Q v \<Longrightarrow> Q v') \<Longrightarrow> P v'"
    and p_mild: "P v \<Longrightarrow> mild f \<Longrightarrow> live i \<or> (\<forall>c. co_read (f c) = co_read c) \<Longrightarrow> P (net_upd i f v)"
    and p_send: "P v \<Longrightarrow> m_type m \<noteq> MESSAGE \<Longrightarrow> P (net_send (w_json W) j m v)"
    and p_new: "P v \<Longrightarrow> live i \<Longrightarrow> P (net_upd i (\<lambda>_. connection_new i) v)"
    and p_add: "P v \<Longrightarrow> P (cm_upd (cm_add i) v)"
    and p_remove: "P v \<Longrightarrow> live i \<Longrightarrow> srv_ok L A F v \<Longrightarrow> i \<in> set L \<Longrightarrow> P (cm_remove i v)"
begin

lemma p_fields: "P (v\<lparr>sv_draws := d\<rparr>) = P v" "P (v\<lparr>sv_sessions := m\<rparr>) = P v"
  by (rule iffI; erule p_frame; simp)+

lemma p_send_all: "P v \<Longrightarrow> m_type m \<noteq> MESSAGE \<Longrightarrow> P (net_send_all (w_json W) is m v)"
  by (induction "is" arbitrary: v) (simp_all add: p_send)

lemma p_own_send:
  assumes "P v" and "m_type m \<noteq> MESSAGE"
  shows "P (net_upd i (conn_send (w_json W) m) v)"
    and "live i \<Longrightarrow> P (net_upd i (\<lambda>c. conn_close (conn_send (w_json W) m c)) v)"
proof -
  show s: "P (net_upd i (conn_send (w_json W) m) v)" using p_send [OF assms] by (simp add: net_send_def)
  have "net_upd i (\<lambda>c. conn_close (conn_send (w_json W) m c)) v = net_upd i conn_close (net_upd i (conn_send (w_json W) m) v)"
    by (simp add: net_upd_def)
  with p_mild [OF s mild_ops(6)] show "P (net_upd i (\<lambda>c. conn_close (conn_send (w_json W) m c)) v)" by simp
qed

lemma p_error:
  assumes "P v" and "live i" and "srv_ok L A F v" and "i \<in> set L" and "i \<notin> F" and "w_storage W = sqlite_storage E"
  shows "P (on_connection_error W i v)"
proof -
  let ?f = "co_username (n_objs v i)" and ?p = "presence_payload (w_json W) ''offline'' (co_username (n_objs v i))"
  let ?v1 = "if conn_is_authenticated (n_objs v i)
    then rm_leave_all W i (cm_broadcast_except (w_json W) i (fst (srv_message W PRESENCE ?f '''' ?p v))
      (snd (srv_message W PRESENCE ?f '''' ?p v))) else v"
  have Q: "Q ?v1" if "handler_frame Q W i" "Q v" for Q
    using handler_leave [OF that] that(2) by simp
  have "P ?v1" by (rule p_handler [OF assms(1-5)], erule (1) Q)
  moreover have ok: "srv_ok L A F ?v1" by (rule srv_ok_handler [OF assms(3-6)], erule (1) Q)
  moreover have "sess_ok (set L) (sm_remove i (sv_sessions ?v1))"
    using ok sess_ok_drop [of L "sv_sessions ?v1" i] by (simp add: srv_ok_def) (auto simp: sess_ok_def)
  ultimately have "P (cm_remove i (?v1\<lparr>sv_sessions := sm_remove i (sv_sessions ?v1)\<rparr>))"
    using p_remove [OF _ assms(2) srv_ok_sessions [OF ok] assms(4)] p_fields by blast
  then show ?thesis by (simp only: on_connection_error_def conn_of_def Let_def case_prod_unfold)
qed

lemma p_handshake:
  assumes "P v" and "live i" and "srv_ok L A F v" and "i \<in> set L" and "i \<notin> F" and "w_storage W = sqlite_storage E"
  shows "P (on_handshake (net_upd i) (on_connection_error W i) ec v)"
  using p_error [OF p_mild [OF assms(1) mild_ops(2)] assms(2) srv_ok_read(5) [OF assms(3,4)] assms(4-6)]
    p_mild [OF p_mild [OF assms(1) mild_ops(2)] mild_ops(4)] assms(2)
  by (simp add: on_handshake_def Let_def)

lemma p_header:
  assumes "P v" and "live i" and "srv_ok L A F v" and "i \<in> set L" and "i \<notin> F" and "w_storage W = sqlite_storage E"
  shows "P (srv_on_header W i h v)"
proof -
  let ?v = "\<lambda>d. net_upd i (\<lambda>c. c\<lparr>co_read := NoRead\<rparr>) (v\<lparr>sv_draws := d\<rparr>)"
  have p: "P (?v d)" for d by (rule p_mild) (simp_all add: p_fields assms(1,2) mild_ops)
  have r: "srv_ok L A F (?v d)" for d by (rule srv_ok_read) (simp_all add: assms(3,4))
  have e: "m_type (message_error (w_json W) r1 r2 t x y) \<noteq> MESSAGE" for r1 r2 t x y
    by (simp add: message_error_def message_create_def)
  show ?thesis
    using p_error [OF p assms(2) r assms(4-6)] p_own_send(2) [OF p e assms(2)] p_mild [OF p mild_ops(5)] assms(2)
    by (simp add: srv_on_header_def own_error_def on_header_def Let_def split: option.split)
qed

lemma p_body:
  assumes "P v" and "live i" and "srv_ok L A F v" and "i \<in> set L" and "i \<notin> F" and "w_storage W = sqlite_storage E"
  shows "P (srv_on_body W i body v)"
proof -
  let ?v = "\<lambda>d. net_upd i (\<lambda>c. c\<lparr>co_read := NoRead\<rparr>) (v\<lparr>sv_draws := d\<rparr>)"
  have p: "P (?v d)" for d by (rule p_mild) (simp_all add: p_fields assms(1,2) mild_ops)
  have r: "srv_ok L A F (?v d)" for d by (rule srv_ok_read) (simp_all add: assms(3,4))
  have h: "P (snd (handle W i m (?v d)))" for m d
    by (rule p_handler [OF p assms(2) r assms(4,5)]) (rule keepsD [OF handler_frame.handle_keeps])
  have g: "P (net_upd i conn_do_read_header v')" if "P v'" for v'
    by (rule p_mild [OF that mild_ops(3)]) (simp add: assms(2))
  obtain e v1 where o: "own_error W ''Invalid message format'' ''PARSE_ERROR'' v = (e, v1)"
    "v1 = v\<lparr>sv_draws := sv_draws v + 2\<rparr>" "m_type e \<noteq> MESSAGE"
    by (simp add: own_error_def message_error_def message_create_def)
  show ?thesis
  proof (cases body)
    case None
    with p_error [OF p assms(2) r assms(4-6)] o show ?thesis by (simp add: srv_on_body_def on_body_def Let_def)
  next
    case (Some b)
    show ?thesis
    proof (cases "decode_message (w_json W) b")
      case None
      with Some o show ?thesis by (simp add: srv_on_body_def on_body_def Let_def g p_own_send(1) p)
    next
      case m: (Some m)
      obtain x v2 where x: "handle W i m (?v (sv_draws v + 2)) = (x, v2)" by force
      with h [of m "sv_draws v + 2"] have v2: "P v2" by simp
      with Some o m x show ?thesis
        by (cases x) (simp_all add: srv_on_body_def on_body_def Let_def g p_own_send(1) unit_case)
    qed
  qed
qed

lemma p_accept:
  assumes "P (cs_srv s)" and "server_ok cfg s" and "live (cs_next_id s)" and "\<And>a. cs_accepting s = Some a \<Longrightarrow> live a"
  shows "P (cs_srv (tls_on_accept cfg (on_new_connection W) ec seen ep s))"
proof -
  have a: "P (net_upd a (conn_start ep) (on_new_connection W a (cm_upd (cm_add a) v)))" if "P v" "live a" for a v
    using that p_send [OF p_add [OF that(1), of a]]
    by (auto intro!: p_mild p_send simp: mild_ops on_new_connection_def conn_of_def send_system_def respond_run
        srv_message_def message_create_def p_fields p_add)
  have n: "P (cs_srv (tls_do_accept s'))" if "P (cs_srv s')" "cs_next_id s' = cs_next_id s" for s' :: "sqlite_db chat_server"
    using that p_new [OF that(1) assms(3)] by (simp add: tls_do_accept_def cs_upd_def Let_def)
  show ?thesis
    using assms(1,4)
    by (auto simp: tls_on_accept_def tls_admit_def cs_upd_def Let_def split: option.split intro!: n a)
qed

lemma p_close_all: "P v \<Longrightarrow> P (cm_close_all v)"
proof -
  have "P v \<Longrightarrow> P (fold (\<lambda>i. net_upd i conn_close) is v)" for "is" v
    by (induction "is" arbitrary: v) (simp_all add: p_mild mild_ops)
  then show "P v \<Longrightarrow> ?thesis" by (simp add: cm_close_all_def)
qed

lemma p_event:
  assumes "P (cs_srv s)" and "server_ok cfg s" and "w_storage W = sqlite_storage E"
    and "live (cs_next_id s)" and "\<And>a. cs_accepting s = Some a \<Longrightarrow> live a"
    and "\<And>i. co_read (n_objs (cs_srv s) i) \<noteq> NoRead \<Longrightarrow> live i"
  shows "P (cs_srv (srv_event_step cfg W e s))"
proof -
  let ?v = "cs_srv s" and ?L = "cm_connections (n_cm (cs_srv s))"
  note ok = server_ok_srv(1) [OF assms(2)]
  have mem: "i \<in> set ?L" "i \<notin> fresh_ids s" if "co_read (n_objs ?v i) \<noteq> NoRead" for i
    using ok that server_ok_not_fresh [OF assms(2)] by (auto simp: srv_ok_def)
  have up: "P (net_upd i f ?v)" if "mild f" "\<And>c. co_read (f c) = co_read c" for i f
    by (rule p_mild) (simp_all add: assms(1) that)
  show ?thesis
  proof (cases e)
    case (Accepted ec seen ep)
    then show ?thesis by (simp add: p_accept [OF assms(1,2,4,5)])
  next
    case (HandshakeDone i ec)
    with assms(1) p_handshake [OF assms(1) assms(6) ok mem assms(3), of i] show ?thesis by (auto simp: cs_upd_def)
  next
    case (HeaderRead i h)
    with assms(1) p_header [OF assms(1) assms(6) ok mem assms(3), of i] show ?thesis by (auto simp: cs_upd_def)
  next
    case (BodyRead i b)
    with assms(1) p_body [OF assms(1) assms(6) ok mem assms(3), of i] show ?thesis
      by (auto simp: cs_upd_def split: read_op.split)
  next
    case Signalled
    have "P (case srv_message W SYSTEM f r p ?v of (m, v) \<Rightarrow> cm_broadcast (w_json W) m v)" for f r p
      using assms(1) by (auto simp: srv_message_def message_create_def cm_broadcast_def p_fields intro!: p_send_all)
    with Signalled show ?thesis by (simp add: on_signal_def cs_upd_def)
  qed (auto simp: assms(1) cs_upd_def session_cleanup_def rate_limit_cleanup_def p_fields conn_ops_fields mild_ops
      intro!: up)
qed

lemma p_step:
  assumes "P (cs_srv s)" and "server_ok cfg s" and "server_world cfg W0 = W" and "w_storage W = sqlite_storage E"
    and "live (cs_next_id s)" and "\<And>a. cs_accepting s = Some a \<Longrightarrow> live a"
    and "\<And>i. co_read (n_objs (cs_srv s) i) \<noteq> NoRead \<Longrightarrow> live i"
  shows "P (cs_srv (server_step cfg W0 e s))"
  using p_event [OF assms(1,2,4-7), of e] p_close_all [OF assms(1)] assms(1)
  by (simp add: server_step_def assms(3) tls_stop_def cs_upd_def)

end

section \<open>No plaintext\<close>

text \<open>Every frame queued or handed to a socket encodes a message that is not a plaintext room message.\<close>

definition clean :: "'j json_api \<Rightarrow> 'st server \<Rightarrow> bool" where
  "clean J v \<longleftrightarrow> (\<forall>i. \<forall>f \<in> set (co_write_queue (n_objs v i)) \<union> set (co_wire (n_objs v i)).
     \<exists>m. encode J m = Some f \<and> m_type m \<noteq> MESSAGE)"

lemma clean_objs:
  assumes "clean J v"
    and "\<And>i. set (co_write_queue (n_objs v' i)) \<union> set (co_wire (n_objs v' i)) \<subseteq>
      set (co_write_queue (n_objs v i)) \<union> set (co_wire (n_objs v i))"
  shows "clean J v'"
  using assms unfolding clean_def by blast

lemma clean_same:
  "clean J v \<Longrightarrow> (\<And>i. co_write_queue (n_objs v' i) = co_write_queue (n_objs v i)) \<Longrightarrow>
   (\<And>i. co_wire (n_objs v' i) = co_wire (n_objs v i)) \<Longrightarrow> clean J v'"
  by (rule clean_objs) auto

lemma clean_new: "clean J v \<Longrightarrow> clean J (net_upd i (\<lambda>_. connection_new i) v)"
  by (rule clean_objs) (auto simp: net_upd_def connection_new_def)

lemma conn_send_frames:
  assumes "f \<in> set (co_write_queue (conn_send J m c)) \<union> set (co_wire (conn_send J m c))"
  shows "f \<in> set (co_write_queue c) \<union> set (co_wire c) \<or> encode J m = Some f"
  using assms
  by (cases "co_write_queue c")
    (auto simp: conn_send_def conn_send_raw_def conn_do_write_def Let_def split: option.splits if_splits)

lemma clean_send:
  assumes "clean J v" and "m_type m \<noteq> MESSAGE"
  shows "clean J (net_send J j m v)"
  unfolding clean_def
proof (intro allI ballI)
  fix i f
  assume "f \<in> set (co_write_queue (n_objs (net_send J j m v) i)) \<union> set (co_wire (n_objs (net_send J j m v) i))"
  then have "f \<in> set (co_write_queue (n_objs v i)) \<union> set (co_wire (n_objs v i)) \<or> encode J m = Some f"
    using conn_send_frames [of f J m "n_objs v j"] by (cases "i = j") (auto simp: net_send_def)
  with assms show "\<exists>m. encode J m = Some f \<and> m_type m \<noteq> MESSAGE" unfolding clean_def by blast
qed

lemma clean_mild: "clean J v \<Longrightarrow> mild f \<Longrightarrow> clean J (net_upd i f v)"
  by (rule clean_objs) (auto simp: net_upd_def mild_def)

interpretation npx: handler_extra "server_inv db_ok (insert i C)" "W\<lparr>w_storage := sqlite_storage E\<rparr>" i
  "\<lambda>s. w_e2ee W \<longrightarrow> clean (w_json W) s" for W E i C
  by unfold_locales
    (auto simp: login_bind_run rename_bind_run conn_close_def net_upd_def intro: clean_same clean_send)

interpretation np: step_frame "clean (w_json W)" "W\<lparr>w_storage := sqlite_storage E, w_e2ee := True\<rparr>" "\<lambda>_. True" for W E
proof unfold_locales
  fix v v' :: "sqlite_db server" and i L A F
  let ?W = "W\<lparr>w_storage := sqlite_storage E, w_e2ee := True\<rparr>"
  assume c: "clean (w_json W) v" and ok: "srv_ok L A F v" and i: "i \<in> set L"
    and Q: "\<And>Q. handler_frame Q ?W i \<Longrightarrow> Q v \<Longrightarrow> Q v'"
  have W: "?W\<lparr>w_storage := sqlite_storage E\<rparr> = ?W" by simp
  from Q [OF npx.both.handler_frame_axioms [where i = i and C = "set L" and W = ?W and E = E, unfolded W]] c ok i
  show "clean (w_json W) v'" by (simp add: insert_absorb srv_ok_def)
qed (auto simp: cm_remove_def Let_def intro: clean_same clean_send clean_mild clean_new)

lemma clean_run:
  assumes "server_ok cfg s" and "clean J (cs_srv s)" and "run_ok es" and "\<forall>(W, e) \<in> set es. w_json W = J"
    and "cfg_room_e2ee_required cfg" and "unat (cs_next_id s) + length es < 2 ^ 64"
  shows "clean J (cs_srv (server_run cfg es s))"
  using assms(1-4,6)
proof (induction es arbitrary: s)
  case (Cons x es)
  obtain W e where x: "x = (W, e)" by (cases x)
  from Cons.prems(3,4) obtain E where E: "w_storage W = sqlite_storage E" "event_ok e" "run_ok es" "w_json W = J"
    by (auto simp: x run_ok_Cons)
  have ok: "server_ok cfg (server_step cfg W e s)"
    by (rule server_ok_step [OF Cons.prems(1) E(1,2)]) (use Cons.prems(5) in simp)
  have "server_world cfg W = W\<lparr>w_storage := sqlite_storage E, w_e2ee := True\<rparr>"
    using E(1) assms(5) by (simp add: server_world_def)
  from np.p_step [where W = W and E = E, OF _ Cons.prems(1) this] Cons.prems(2) E(4)
  have "clean J (cs_srv (server_step cfg W e s))" by simp
  moreover have "unat (cs_next_id (server_step cfg W e s)) + length es < 2 ^ 64"
    using next_id_step [of cfg W e s] Cons.prems(5) by simp
  ultimately show ?case using Cons.IH [OF ok _ E(3)] Cons.prems(4) by (simp add: x)
qed simp

lemma server_start_clean:
  "server_main cfg (sqlite_storage E) now bound db = Some s \<Longrightarrow> clean J (cs_srv s)"
  by (auto simp: server_main_def tls_start_def tls_do_accept_def cs_upd_def server_new_def net_upd_def clean_def
      connection_new_def Let_def split: prod.splits option.splits unit.splits if_splits)

text \<open>
  C4: A server that requires room encryption never puts a plaintext room message on a socket:
  in every run, every frame that was queued for or written to any connection decodes to a
  message of another type.
\<close>

theorem no_plaintext_sent:
  assumes "db_ok db" and "server_main cfg (sqlite_storage E) now bound db = Some s0" and "run_ok es"
    and "length es < 2 ^ 64 - 2" and "cfg_room_e2ee_required cfg" and "json_ok J"
    and "\<forall>(W, e) \<in> set es. w_json W = J"
    and "f \<in> set (co_write_queue (n_objs (cs_srv (server_run cfg es s0)) i)) \<union>
      set (co_wire (n_objs (cs_srv (server_run cfg es s0)) i))"
  shows "\<exists>m. fst (feed J decoder_init f []) = Inr [m] \<and> m_type m \<noteq> MESSAGE"
proof -
  note s0 = server_start_ok [OF assms(1,2)]
  have "clean J (cs_srv (server_run cfg es s0))"
    by (rule clean_run [OF s0(1) server_start_clean [OF assms(2)] assms(3,7,5)]) (use assms(4) in \<open>simp add: s0(2)\<close>)
  with assms(8) obtain m where m: "encode J m = Some f" "m_type m \<noteq> MESSAGE" unfolding clean_def by blast
  have "between_frames decoder_init" by (simp add: between_frames_def decoder_init_def)
  from feed_encode [OF assms(6) m(1) this, of "[]"] m(2) show ?thesis by auto
qed

definition sample_welcome :: "jval message" where
  "sample_welcome = message_system jval_api 0 0 5 ''Welcome to Chat Server! Please /login or /register to continue.''"

lemma sample_welcome_frame: "\<exists>f. encode jval_api sample_welcome = Some f"
proof -
  have "length (generate_uuid 0 0) = 36" using uuid_shape [of 0 0] by auto
  then have "length (put_jval (message_to_json jval_api sample_welcome)) \<le> MAX_MESSAGE_SIZE"
    by (simp add: message_to_json_def sample_welcome_def message_system_def message_create_def jval_api_def
        message_type_to_json_def message_type_table_def length_put_str nat_to_string.simps MAX_MESSAGE_SIZE_def)
  then show ?thesis by (simp add: encode_def jval_api_def Let_def)
qed

lemma sample_accept_run:
  "n_objs (cs_srv (server_run server_config_default (take 1 sample_events) sample_running)) 1 =
     conn_start (Some (''10.0.0.1'', 50)) (conn_send jval_api sample_welcome (connection_new 1))"
  by (simp add: sample_events_def server_step_def sample_running_def tls_do_accept_def server_new_def cs_upd_def
      tls_on_accept_def tls_accept_ok_def cm_count_def cm_count_by_ip_def conn_manager_new_def server_config_default_def
      tls_admit_def on_new_connection_def send_system_def respond_run srv_message_def message_create_def
      server_world_def sample_world_def net_send_def net_upd_def sample_welcome_def message_system_def conn_of_def Let_def)

theorem no_plaintext_sent_witness:
  "\<exists>f m. f \<in> set (co_write_queue (n_objs (cs_srv (server_run server_config_default (take 1 sample_events) sample_running)) 1)) \<and>
     fst (feed jval_api decoder_init f []) = Inr [m] \<and> m_type m \<noteq> MESSAGE"
proof -
  obtain f where f: "encode jval_api sample_welcome = Some f" using sample_welcome_frame by blast
  let ?c = "n_objs (cs_srv (server_run server_config_default (take 1 sample_events) sample_running)) 1"
  have mem: "f \<in> set (co_write_queue ?c)"
    unfolding sample_accept_run
    by (simp add: conn_start_def conn_do_handshake_def conn_start_handshake_timeout_def conn_send_def f conn_send_raw_def
        conn_do_write_def connection_new_def)
  have db: "db_ok sqlite_empty" by (simp add: db_ok_def sqlite_empty_def table_ids_def)
  have es: "run_ok (take 1 sample_events)" "length (take 1 sample_events) < 2 ^ 64 - 2"
    "\<forall>(W, e) \<in> set (take 1 sample_events). w_json W = jval_api"
    by (auto simp: run_ok_def sample_events_def sample_world_def event_ok_def endpoints_agree_def)
  have "\<exists>m. fst (feed jval_api decoder_init f []) = Inr [m] \<and> m_type m \<noteq> MESSAGE"
    by (rule no_plaintext_sent [OF db sample_running_main es(1,2) _ jval_api_ok es(3)])
      (use mem in \<open>auto simp: server_config_default_def\<close>)
  with mem show ?thesis by blast
qed

section \<open>A closed connection without a pending read\<close>

text \<open>Connection \<open>j\<close> is logged in as \<open>u\<close>, closed, and no completion handler of a read will run for it.\<close>

definition stuck :: "u64 \<Rightarrow> string \<Rightarrow> 'st server \<Rightarrow> bool" where
  "stuck j u v \<longleftrightarrow> j \<in> set (cm_connections (n_cm v)) \<and> co_closed (n_objs v j) \<and> co_read (n_objs v j) = NoRead \<and>
     conn_is_authenticated (n_objs v j) \<and> co_username (n_objs v j) = u \<and> cm_username_index (n_cm v) u = Some j"

lemma stuck_frame:
  assumes "stuck j u v" and "n_cm v' = n_cm v" and "n_objs v' j = n_objs v j"
  shows "stuck j u v'"
  using assms by (simp add: stuck_def)

lemma stuck_send: "stuck j u v \<Longrightarrow> stuck j u (net_send J i m v)"
  by (auto simp: stuck_def net_send_def net_upd_def)

lemma stuck_mild: "stuck j u v \<Longrightarrow> mild f \<Longrightarrow> i \<noteq> j \<or> (\<forall>c. co_read (f c) = co_read c) \<Longrightarrow> stuck j u (net_upd i f v)"
  by (auto simp: stuck_def net_upd_def mild_def conn_is_authenticated_def)

lemma stuck_new: "stuck j u v \<Longrightarrow> i \<noteq> j \<Longrightarrow> stuck j u (net_upd i (\<lambda>_. connection_new i) v)"
  by (simp add: stuck_def)

lemma stuck_add: "stuck j u v \<Longrightarrow> stuck j u (cm_upd (cm_add i) v)"
  by (simp add: stuck_def cm_add_def)

interpretation sx: handler_extra "server_inv db_ok (insert i C)" "W\<lparr>w_storage := sqlite_storage E\<rparr>" i
  "\<lambda>s. i \<noteq> j \<longrightarrow> stuck j u s" for W E i C j u
proof unfold_locales
  fix s :: "sqlite_db server" and n
  assume inv: "server_inv db_ok (insert i C) s" and st: "i \<noteq> j \<longrightarrow> stuck j u s"
    and auth: "conn_is_authenticated (n_objs s i)" and free: "cm_username_index (n_cm s) n = None"
  have idx: "cm_username_index (n_cm s) (co_username (n_objs s i)) = Some i"
    using inv auth names_connection [of s i] by (simp add: server_inv_def)
  show "i \<noteq> j \<longrightarrow> stuck j u (rename_bind i n s)"
  proof
    assume ne: "i \<noteq> j"
    with st have s: "stuck j u s" by simp
    have "co_username (n_objs s i) \<noteq> u" using idx s ne by (auto simp: stuck_def)
    moreover have "n \<noteq> u" using free s by (auto simp: stuck_def)
    ultimately show "stuck j u (rename_bind i n s)" using s ne by (simp add: stuck_def rename_bind_run)
  qed
qed (auto simp: stuck_def login_bind_run net_send_def net_upd_def)

interpretation sp: step_frame "stuck j u" "W\<lparr>w_storage := sqlite_storage E\<rparr>" "\<lambda>i. i \<noteq> j" for W E j u
proof unfold_locales
  fix v v' :: "sqlite_db server" and i L A F
  let ?W = "W\<lparr>w_storage := sqlite_storage E\<rparr>"
  assume st: "stuck j u v" and ok: "srv_ok L A F v" and i: "i \<in> set L" "i \<noteq> j"
  show "stuck j u v'" if Q: "\<And>Q. handler_frame Q ?W i \<Longrightarrow> Q v \<Longrightarrow> Q v'"
    using Q [OF sx.both.handler_frame_axioms [where i = i and C = "set L" and W = W and E = E and j = j and u = u]] st ok i
    by (simp add: insert_absorb srv_ok_def)
  have "co_username (n_objs v i) = [] \<or> cm_username_index (n_cm v) (co_username (n_objs v i)) = Some i"
    using ok i names_connection [of v i] by (auto simp: srv_ok_def server_inv_def)
  then show "stuck j u (cm_remove i v)"
    using st i by (auto simp: stuck_def cm_remove_def Let_def)
qed (auto intro: stuck_frame stuck_send stuck_mild stuck_new stuck_add)

lemma stuck_run:
  assumes "server_ok cfg s" and "stuck j u (cs_srv s)" and "run_ok es" and "unat (cs_next_id s) + length es < 2 ^ 64"
  shows "stuck j u (cs_srv (server_run cfg es s))"
  using assms
proof (induction es arbitrary: s)
  case (Cons x es)
  obtain W e where x: "x = (W, e)" by (cases x)
  from Cons.prems(3) obtain E where E: "w_storage W = sqlite_storage E" "event_ok e" "run_ok es"
    by (auto simp: x run_ok_Cons)
  have ok: "server_ok cfg (server_step cfg W e s)"
    by (rule server_ok_step [OF Cons.prems(1) E(1,2)]) (use Cons.prems(4) in simp)
  have W: "server_world cfg W = (server_world cfg W)\<lparr>w_storage := sqlite_storage E\<rparr>"
    using E(1) by (simp add: server_world_def)
  have j: "j \<in> set (cm_connections (n_cm (cs_srv s)))" "co_read (n_objs (cs_srv s) j) = NoRead"
    using Cons.prems(2) by (simp_all add: stuck_def)
  have "stuck j u (cs_srv (server_step cfg W e s))"
    by (rule sp.p_step [OF Cons.prems(2,1) W])
      (use j server_ok_srv(4,5) [OF Cons.prems(1)] in auto)
  moreover have "unat (cs_next_id (server_step cfg W e s)) + length es < 2 ^ 64"
    using next_id_step [of cfg W e s] Cons.prems(4) by simp
  ultimately show ?case using Cons.IH [OF ok _ E(3)] by (simp add: x)
qed simp

section \<open>Quitting\<close>

definition same_names :: "(u64 \<Rightarrow> string) \<Rightarrow> (u64 \<Rightarrow> u64) \<Rightarrow> 'st server \<Rightarrow> bool" where
  "same_names N U v \<longleftrightarrow> (\<forall>j. co_username (n_objs v j) = N j \<and> co_user_id (n_objs v j) = U j)"

lemma same_names_frame: "same_names N U v \<Longrightarrow> n_objs v' = n_objs v \<Longrightarrow> same_names N U v'"
  by (simp add: same_names_def)

lemma same_names_draws [simp]: "same_names N U (v\<lparr>sv_draws := d\<rparr>) = same_names N U v"
  by (simp add: same_names_def)

lemma same_names_fields [simp]:
  "same_names N U (v\<lparr>sv_storage := st\<rparr>) = same_names N U v" "same_names N U (v\<lparr>sv_current_rooms := r\<rparr>) = same_names N U v"
  "same_names N U (cm_upd f v) = same_names N U v"
  by (simp_all add: same_names_def)

lemma same_names_send: "same_names N U v \<Longrightarrow> same_names N U (net_send J i m v)"
  by (simp add: same_names_def net_send_def net_upd_def)

lemma same_names_send_all: "same_names N U v \<Longrightarrow> same_names N U (net_send_all J is m v)"
  by (induction "is" arbitrary: v) (simp_all add: same_names_send)

lemma same_names_membership: "same_names N U v \<Longrightarrow> same_names N U (rm_broadcast_membership W r a u v)"
  by (simp add: rm_broadcast_membership_def srv_call_eq srv_message_def rm_broadcast_def cm_broadcast_to_room_def
      same_names_send_all Let_def)

lemma same_names_notify: "same_names N U v \<Longrightarrow> same_names N U (rm_notify_leave W u r v)"
  by (simp add: rm_notify_leave_def srv_message_def rm_broadcast_def cm_broadcast_to_room_def
      same_names_membership same_names_send_all)

lemma same_names_leave_all:
  assumes "same_names N U v"
  shows "same_names N U (rm_leave_all W i v)"
proof -
  have "same_names N U v' \<Longrightarrow> same_names N U (fold (rm_notify_leave W u) rs v')" for u rs v'
    by (induction rs arbitrary: v') (simp_all add: same_names_notify)
  with assms show ?thesis by (simp add: rm_leave_all_def Let_def)
qed

lemma same_names_close: "same_names N U v \<Longrightarrow> same_names N U (net_upd i conn_close v)"
  by (simp add: same_names_def net_upd_def)

lemma handle_quit_names: "same_names N U v \<Longrightarrow> same_names N U (snd (handle_quit W i v))"
  by (simp add: handle_quit_def effect_simps send_system_def respond_run srv_message_def cm_broadcast_except_def
      same_names_close same_names_leave_all same_names_send_all same_names_send)

lemma handle_quit_closes: "co_closed (n_objs (snd (handle_quit W i v)) i)"
  by (simp add: handle_quit_def effect_simps send_system_def respond_run)

lemma handle_quit_run:
  assumes "fst (sm_check_rate_limit (w_fl W) (w_steady W) i (sv_sessions v))"
    and "m_type m = COMMAND" and "j_contains (w_json W) (m_payload m) ''command''"
    and "j_at_str (w_json W) (m_payload m) ''command'' = Some ''quit''"
  shows "\<exists>s. handle W i m v = handle_quit W i (v\<lparr>sv_sessions := s\<rparr>)"
  using assms
  by (auto simp: handle_def check_rate_limit_def dispatch_def handle_command_def effect_simps case_prod_unfold Let_def)

lemma quit_sticks:
  assumes "srv_ok L A F v" and "i \<in> set L" and "i \<notin> F" and "w_storage W = sqlite_storage E"
    and "conn_is_authenticated (n_objs v i)"
    and "fst (sm_check_rate_limit (w_fl W) (w_steady W) i (sv_sessions v))"
    and "m_type m = COMMAND" and "j_contains (w_json W) (m_payload m) ''command''"
    and "j_at_str (w_json W) (m_payload m) ''command'' = Some ''quit''"
    and "decode_message (w_json W) b = Some m"
  shows "stuck i (co_username (n_objs v i)) (srv_on_body W i (Some b) v)"
proof -
  let ?v = "net_upd i (\<lambda>c. c\<lparr>co_read := NoRead\<rparr>) (v\<lparr>sv_draws := sv_draws v + 2\<rparr>)"
  have r: "srv_ok L A F ?v" by (rule srv_ok_read) (simp_all add: assms(1,2))
  define v2 where "v2 = snd (handle W i m ?v)"
  have ok: "srv_ok L A F v2" "co_read (n_objs v2 i) = co_read (n_objs ?v i)"
    unfolding v2_def
    by (rule srv_ok_handler [OF r assms(2-4)], rule keepsD [OF handler_frame.handle_keeps], assumption+)+
  obtain s where q: "handle W i m ?v = handle_quit W i (?v\<lparr>sv_sessions := s\<rparr>)"
    using handle_quit_run [of W i ?v m] assms(6-9) by auto
  have "same_names (\<lambda>j. co_username (n_objs v j)) (\<lambda>j. co_user_id (n_objs v j)) (?v\<lparr>sv_sessions := s\<rparr>)"
    by (simp add: same_names_def net_upd_def)
  from handle_quit_names [OF this, of W i] have n: "co_username (n_objs v2 i) = co_username (n_objs v i)"
    "co_user_id (n_objs v2 i) = co_user_id (n_objs v i)"
    by (simp_all only: v2_def q same_names_def)
  have closed: "co_closed (n_objs v2 i)" by (simp only: v2_def q handle_quit_closes)
  have auth: "conn_is_authenticated (n_objs v2 i)" using assms(5) n(2) by (simp add: conn_is_authenticated_def)
  then have "stuck i (co_username (n_objs v i)) v2"
    using ok assms(2) closed n(1) names_connection [of v2 i] by (auto simp: stuck_def srv_ok_def server_inv_def)
  then have "stuck i (co_username (n_objs v i)) (net_upd i conn_do_read_header v2)"
    by (simp add: stuck_def conn_do_read_header_def)
  moreover have "fst (handle W i m ?v) = Some ()"
    unfolding q by (simp add: handle_quit_def effect_simps send_system_def respond_run)
  then have "handle W i m ?v = (Some (), v2)" by (simp only: v2_def) (metis prod.collapse)
  ultimately show ?thesis
    using assms(10) by (simp add: srv_on_body_def own_error_def on_body_def Let_def unit_case)
qed

lemma server_run_append: "server_run cfg (es @ fs) s = server_run cfg fs (server_run cfg es s)"
  by (induction es arbitrary: s) auto

text \<open>
  C36: After \<^verbatim>\<open>/quit\<close> the user cannot log in again while the server runs. The handler closes the
  connection while no read is pending, so the error handler that would remove it never runs: in
  every continuation the connection stays in the table under its name, and every login
  under that name that passes the password check is refused as already logged in.
\<close>

theorem quit_locks_name:
  assumes "server_ok cfg s" and "\<not> cs_io_stopped s" and "w_storage W = sqlite_storage E"
    and "co_read (n_objs (cs_srv s) i) = ReadingBody len" and "length b = unat len"
    and "conn_is_authenticated (n_objs (cs_srv s) i)"
    and "fst (sm_check_rate_limit (w_fl W) (w_steady W) i (sv_sessions (cs_srv s)))"
    and "decode_message (w_json W) b = Some m" and "m_type m = COMMAND"
    and "j_contains (w_json W) (m_payload m) ''command''"
    and "j_at_str (w_json W) (m_payload m) ''command'' = Some ''quit''"
    and "run_ok es" and "unat (cs_next_id s) + length es + 1 < 2 ^ 64"
  shows "let u = co_username (n_objs (cs_srv s) i);
      v = cs_srv (server_run cfg ((W, BodyRead i (Some b)) # es) s)
    in i \<in> set (cm_connections (n_cm v)) \<and> cm_username_index (n_cm v) u = Some i \<and> co_closed (n_objs v i) \<and>
       login_accept W' k uid u v =
         send_error W' k ''User already logged in from another location'' ''ALREADY_LOGGED_IN'' v"
proof -
  let ?W = "server_world cfg W" and ?u = "co_username (n_objs (cs_srv s) i)"
  let ?s = "server_step cfg W (BodyRead i (Some b)) s"
  have W: "w_storage ?W = sqlite_storage E" "w_json ?W = w_json W" "w_fl ?W = w_fl W" "w_steady ?W = w_steady W"
    using assms(3) by (simp_all add: server_world_def)
  note ok = server_ok_srv(1) [OF assms(1)]
  have i: "i \<in> set (cm_connections (n_cm (cs_srv s)))" using ok assms(4) by (simp add: srv_ok_def)
  have st: "?s = cs_upd (srv_on_body ?W i (Some b)) s"
    using assms(2,4,5) by (simp add: server_step_def body_fits_def)
  have "stuck i ?u (cs_srv ?s)"
    unfolding st cs_upd_def
    using quit_sticks [OF ok i server_ok_not_fresh [OF assms(1) i] W(1) assms(6)] assms(7-11) by (simp add: W)
  moreover have "server_ok cfg ?s"
    by (rule server_ok_step [OF assms(1,3)]) (use assms(13) in \<open>simp_all add: event_ok_def\<close>)
  moreover have "unat (cs_next_id ?s) + length es < 2 ^ 64"
    using next_id_step [of cfg W "BodyRead i (Some b)" s] assms(13) by simp
  ultimately have "stuck i ?u (cs_srv (server_run cfg es ?s))"
    using stuck_run assms(12) by blast
  then show ?thesis
    by (simp add: stuck_def login_accept_def effect_simps cm_get_by_username_def Let_def)
qed

definition sample_quit :: "jval message" where
  "sample_quit = \<lparr>m_type = COMMAND, m_id = '''', m_timestamp = 0, m_from = '''', m_room = '''',
     m_payload = JObj [(''command'', JStr ''quit'')]\<rparr>"

definition sample_quit_body :: bytes where
  "sample_quit_body = bytes_of (put_jval (message_to_json jval_api sample_quit))"

definition sample_busy :: "sqlite_db chat_server" where
  "sample_busy = \<lparr>
     cs_srv = (net_upd 1 (\<lambda>c. c\<lparr>co_read := ReadingBody (of_nat (length sample_quit_body))\<rparr>) sample_server)
       \<lparr>sv_sessions := sm_create 0 1 '''' (session_manager_new dual_limiter_default)\<rparr>,
     cs_next_id = 3, cs_accepting = None, cs_running = True, cs_acceptor_open = True, cs_io_stopped = False,
     cs_shutdown = False, cs_session_timer = True, cs_rate_timer = True\<rparr>"

lemma sample_busy_ok: "server_ok server_config_default sample_busy"
proof -
  have L: "cm_connections (n_cm sample_server) = [1, 2]"
    by (simp add: sample_server_def cm_register_username_def cm_add_def conn_manager_new_def uset_insert_def)
  have "server_inv db_ok {1, 2} (cs_srv sample_busy)"
    unfolding sample_busy_def by (simp, rule net_upd_neutral [OF sample_server_inv]) simp_all
  moreover have "co_remote_address (n_objs (cs_srv sample_busy) j) = []" for j
    by (simp add: sample_busy_def sample_server_def net_upd_def connection_new_def)
  moreover have "conn_is_authenticated (n_objs (cs_srv sample_busy) j) \<longleftrightarrow> j = 1"
    "co_read (n_objs (cs_srv sample_busy) j) \<noteq> NoRead \<longleftrightarrow> j = 1"
    "j \<noteq> 1 \<Longrightarrow> co_username (n_objs (cs_srv sample_busy) j) = []" for j
    by (simp_all add: sample_busy_def sample_server_def net_upd_def connection_new_def conn_is_authenticated_def)
  moreover have "cm_connections (n_cm (cs_srv sample_busy)) = [1, 2]" "cs_accepting sample_busy = None" "cs_next_id sample_busy = 3"
    by (simp_all add: sample_busy_def L)
  moreover have "sess_ok {1, 2} (sv_sessions (cs_srv sample_busy))"
    by (simp add: sample_busy_def sess_ok_def sm_create_def session_manager_new_def session_default_def Let_def)
  ultimately show ?thesis
    by (auto simp: server_ok_def srv_ok_def fresh_ids_def server_config_default_def cm_count_by_ip_def Let_def)
qed

lemma sample_quit_decodes: "decode_message jval_api sample_quit_body = Some sample_quit"
proof -
  have "j_dump jval_api (message_to_json jval_api sample_quit) = Some (put_jval (message_to_json jval_api sample_quit))"
    by (simp add: jval_api_def)
  then show ?thesis
    by (simp add: decode_message_def sample_quit_body_def json_ok_parse_dump [OF jval_api_ok] message_json [OF jval_api_ok])
qed

lemma sample_quit_length: "length sample_quit_body = unat (of_nat (length sample_quit_body) :: u32)"
proof -
  have "length sample_quit_body \<le> MAX_MESSAGE_SIZE"
    by (simp add: sample_quit_body_def message_to_json_def sample_quit_def jval_api_def message_type_to_json_def
        message_type_table_def length_put_str nat_to_string.simps MAX_MESSAGE_SIZE_def)
  then show ?thesis by (simp only: unat_frame_length)
qed

theorem quit_locks_name_witness:
  "cm_username_index (n_cm (cs_srv (server_run server_config_default
     [(sample_world True, BodyRead 1 (Some sample_quit_body)), (sample_world True, Accepted False None None)] sample_busy))) ''ann'' = Some 1"
proof -
  have r: "co_read (n_objs (cs_srv sample_busy) 1) = ReadingBody (of_nat (length sample_quit_body))"
    "conn_is_authenticated (n_objs (cs_srv sample_busy) 1)" "co_username (n_objs (cs_srv sample_busy) 1) = ''ann''"
    "\<not> cs_io_stopped sample_busy" "cs_next_id sample_busy = 3"
    by (simp_all add: sample_busy_def sample_server_def net_upd_def conn_is_authenticated_def)
  have rate: "fst (sm_check_rate_limit (w_fl (sample_world True)) (w_steady (sample_world True)) 1 (sv_sessions (cs_srv sample_busy)))"
    by (simp add: sample_busy_def sample_world_def sm_check_rate_limit_def sm_create_def session_manager_new_def
        session_default_def dual_check_def dual_check_ip_def dual_check_user_def dual_limiter_default_def dual_limiter_new_def
        rate_limiter_new_def rl_check_def bucket_init_def bucket_refill_def bucket_take_def new_bucket_def exact_def Let_def)
  have W: "w_storage (sample_world True) = sqlite_storage sql_reliable" "w_json (sample_world True) = jval_api"
    by (simp_all add: sample_world_def)
  have "run_ok [(sample_world True, Accepted False None None)]"
    by (auto simp: run_ok_def W event_ok_def endpoints_agree_def)
  from quit_locks_name [where W' = "sample_world True" and k = 2 and uid = 1, OF sample_busy_ok r(4) W(1) r(1) sample_quit_length r(2) rate, unfolded W(2),
      OF sample_quit_decodes _ _ _ this]
  show ?thesis by (simp add: r sample_quit_def jval_api_simps j_at_str_def Let_def)
qed

end
