(* ===== verification/Sodium_Api.thy ===== *)
theory Sodium_Api
  imports Chat_Prelude
begin

text \<open>
  libsodium is not part of the repository. The functions the program calls are the
  fields of a record that every definition using them takes as an argument; a
  function that reports failure is \<open>option\<close>-valued. \<open>so_box_pk\<close> is the relation between
  the two halves of a key pair that \<^verbatim>\<open>crypto_box_keypair\<close> produces. \<open>sodium_ok\<close> names the
  documented laws: lengths, and that decoding, decryption and verification accept
  what the matching function produced. No secrecy or unforgeability is assumed.
  The last section gives an instance of the laws (with the real base64 code and
  placeholder ciphers) for use in witnesses.
\<close>

section \<open>Constants of \<^verbatim>\<open>sodium.h\<close>\<close>

definition crypto_box_PUBLICKEYBYTES :: nat where "crypto_box_PUBLICKEYBYTES = 32"
definition crypto_box_SECRETKEYBYTES :: nat where "crypto_box_SECRETKEYBYTES = 32"
definition crypto_box_NONCEBYTES :: nat where "crypto_box_NONCEBYTES = 24"
definition crypto_box_MACBYTES :: nat where "crypto_box_MACBYTES = 16"
definition crypto_sign_PUBLICKEYBYTES :: nat where "crypto_sign_PUBLICKEYBYTES = 32"
definition crypto_sign_SECRETKEYBYTES :: nat where "crypto_sign_SECRETKEYBYTES = 64"
definition crypto_sign_BYTES :: nat where "crypto_sign_BYTES = 64"
definition crypto_aead_NPUBBYTES :: nat where "crypto_aead_NPUBBYTES = 24"
definition crypto_aead_ABYTES :: nat where "crypto_aead_ABYTES = 16"

lemmas sodium_sizes [simp] =
  crypto_box_PUBLICKEYBYTES_def crypto_box_SECRETKEYBYTES_def crypto_box_NONCEBYTES_def
  crypto_box_MACBYTES_def crypto_sign_PUBLICKEYBYTES_def crypto_sign_SECRETKEYBYTES_def
  crypto_sign_BYTES_def crypto_aead_NPUBBYTES_def crypto_aead_ABYTES_def

section \<open>The interface\<close>

record sodium_api =
  so_bin2base64 :: "bytes \<Rightarrow> string"
  so_base642bin :: "string \<Rightarrow> bytes option"
  so_bin2hex :: "bytes \<Rightarrow> string"
  so_generichash :: "nat \<Rightarrow> bytes \<Rightarrow> bytes"
  so_aead_encrypt :: "bytes \<Rightarrow> bytes \<Rightarrow> bytes \<Rightarrow> bytes \<Rightarrow> bytes option"
  so_aead_decrypt :: "bytes \<Rightarrow> bytes \<Rightarrow> bytes \<Rightarrow> bytes \<Rightarrow> bytes option"
  so_sign_detached :: "bytes \<Rightarrow> bytes \<Rightarrow> bytes option"
  so_sign_verify_detached :: "bytes \<Rightarrow> bytes \<Rightarrow> bytes \<Rightarrow> bool"
  so_sign_sk_to_pk :: "bytes \<Rightarrow> bytes"
  so_box_easy :: "bytes \<Rightarrow> bytes \<Rightarrow> bytes \<Rightarrow> bytes \<Rightarrow> bytes option"
  so_box_open_easy :: "bytes \<Rightarrow> bytes \<Rightarrow> bytes \<Rightarrow> bytes \<Rightarrow> bytes option"
  so_box_pk :: "bytes \<Rightarrow> bytes"

definition base64_char :: "char \<Rightarrow> bool" where
  "base64_char c \<longleftrightarrow> isupper_c c \<or> islower_c c \<or> isdigit_c c \<or> c = CHR ''+'' \<or> c = CHR ''/'' \<or> c = CHR ''=''"

definition hex_digit :: "char \<Rightarrow> bool" where
  "hex_digit c \<longleftrightarrow> isdigit_c c \<or> 97 \<le> code c \<and> code c \<le> 102"

text \<open>
  Arguments in the order key, nonce, associated data, text for the AEAD; key, message,
  signature for signatures; the peer's public key, own secret key, nonce, text for boxes.
\<close>

definition aead_ok :: "sodium_api \<Rightarrow> bool" where
  "aead_ok S \<longleftrightarrow> (\<forall>k n a m. length k = 32 \<longrightarrow> length n = 24 \<longrightarrow>
     (\<exists>c. so_aead_encrypt S k n a m = Some c \<and> length c = length m + 16 \<and>
          so_aead_decrypt S k n a c = Some m))"

definition sign_ok :: "sodium_api \<Rightarrow> bool" where
  "sign_ok S \<longleftrightarrow> (\<forall>sk m. length sk = 64 \<longrightarrow> length (so_sign_sk_to_pk S sk) = 32 \<and>
     (\<exists>s. so_sign_detached S sk m = Some s \<and> length s = 64 \<and>
          so_sign_verify_detached S (so_sign_sk_to_pk S sk) m s))"

definition box_ok :: "sodium_api \<Rightarrow> bool" where
  "box_ok S \<longleftrightarrow> (\<forall>sk. length sk = 32 \<longrightarrow> length (so_box_pk S sk) = 32) \<and>
     (\<forall>a b n m. length a = 32 \<longrightarrow> length b = 32 \<longrightarrow> length n = 24 \<longrightarrow>
        (\<forall>c. so_box_easy S (so_box_pk S b) a n m = Some c \<longrightarrow>
           length c = length m + 16 \<and> so_box_open_easy S (so_box_pk S a) b n c = Some m))"

definition sodium_ok :: "sodium_api \<Rightarrow> bool" where
  "sodium_ok S \<longleftrightarrow>
     (\<forall>b. so_base642bin S (so_bin2base64 S b) = Some b) \<and>
     (\<forall>b. length (so_bin2base64 S b) = 4 * ((length b + 2) div 3)) \<and>
     (\<forall>b. list_all base64_char (so_bin2base64 S b)) \<and>
     (\<forall>b. length (so_bin2hex S b) = 2 * length b \<and> list_all hex_digit (so_bin2hex S b)) \<and>
     (\<forall>n b. length (so_generichash S n b) = n) \<and>
     aead_ok S \<and> sign_ok S \<and> box_ok S"

lemma sodium_ok_base64:
  assumes "sodium_ok S"
  shows "so_base642bin S (so_bin2base64 S b) = Some b"
    and "length (so_bin2base64 S b) = 4 * ((length b + 2) div 3)"
    and "list_all base64_char (so_bin2base64 S b)"
  using assms by (simp_all add: sodium_ok_def)

lemma sodium_ok_hex:
  assumes "sodium_ok S"
  shows "length (so_bin2hex S b) = 2 * length b" and "list_all hex_digit (so_bin2hex S b)"
  using assms by (simp_all add: sodium_ok_def)

lemma sodium_ok_hash: "sodium_ok S \<Longrightarrow> length (so_generichash S n b) = n"
  by (simp add: sodium_ok_def)

lemma sodium_ok_aead:
  assumes "sodium_ok S" and "length k = 32" and "length n = 24"
  obtains c where "so_aead_encrypt S k n a m = Some c" and "length c = length m + 16"
    and "so_aead_decrypt S k n a c = Some m"
proof -
  from assms(1) have "aead_ok S" by (simp add: sodium_ok_def)
  with assms(2,3) that show thesis unfolding aead_ok_def by metis
qed

lemma sodium_ok_sign:
  assumes "sodium_ok S" and "length sk = 64"
  obtains s where "so_sign_detached S sk m = Some s" and "length s = 64"
    and "so_sign_verify_detached S (so_sign_sk_to_pk S sk) m s"
proof -
  from assms(1) have "sign_ok S" by (simp add: sodium_ok_def)
  with assms(2) that show thesis unfolding sign_ok_def by metis
qed

lemma sodium_ok_pk:
  assumes "sodium_ok S"
  shows "length sk = 64 \<Longrightarrow> length (so_sign_sk_to_pk S sk) = 32"
    and "length xsk = 32 \<Longrightarrow> length (so_box_pk S xsk) = 32"
proof -
  have ok: "sign_ok S" "box_ok S" using assms unfolding sodium_ok_def by blast+
  from ok(1) show "length sk = 64 \<Longrightarrow> length (so_sign_sk_to_pk S sk) = 32"
    unfolding sign_ok_def by blast
  from ok(2) show "length xsk = 32 \<Longrightarrow> length (so_box_pk S xsk) = 32"
    unfolding box_ok_def by blast
qed

lemma sodium_ok_box:
  assumes "sodium_ok S" and "length a = 32" and "length b = 32" and "length n = 24"
    and "so_box_easy S (so_box_pk S b) a n m = Some c"
  shows "length c = length m + 16 \<and> so_box_open_easy S (so_box_pk S a) b n c = Some m"
proof -
  from assms(1) have "box_ok S" by (simp add: sodium_ok_def)
  then have "\<forall>c. so_box_easy S (so_box_pk S b) a n m = Some c \<longrightarrow>
      length c = length m + 16 \<and> so_box_open_easy S (so_box_pk S a) b n c = Some m"
    using assms(2,3,4) unfolding box_ok_def by blast
  with assms(5) show ?thesis by blast
qed

section \<open>An instance\<close>

definition b64_alphabet :: string where
  "b64_alphabet = ''ABCDEFGHIJKLMNOPQRSTUVWXYZabcdefghijklmnopqrstuvwxyz0123456789+/''"

definition b64_enc_digit :: "nat \<Rightarrow> char" where
  "b64_enc_digit d = b64_alphabet ! d"

definition b64_dec_digit :: "char \<Rightarrow> nat option" where
  "b64_dec_digit c = (let n = length (takeWhile (\<lambda>x. x \<noteq> c) b64_alphabet) in
     if n < 64 then Some n else None)"

fun b64_enc :: "nat list \<Rightarrow> string" where
  "b64_enc (a # b # c # r) =
     [b64_enc_digit (a div 4), b64_enc_digit (a mod 4 * 16 + b div 16),
      b64_enc_digit (b mod 16 * 4 + c div 64), b64_enc_digit (c mod 64)] @ b64_enc r"
| "b64_enc [a, b] =
     [b64_enc_digit (a div 4), b64_enc_digit (a mod 4 * 16 + b div 16),
      b64_enc_digit (b mod 16 * 4), CHR ''='']"
| "b64_enc [a] = [b64_enc_digit (a div 4), b64_enc_digit (a mod 4 * 16), CHR ''='', CHR ''='']"
| "b64_enc [] = []"

fun b64_dec :: "string \<Rightarrow> nat list option" where
  "b64_dec (p # q # r # s # t) =
     Option.bind (b64_dec_digit p) (\<lambda>a. Option.bind (b64_dec_digit q) (\<lambda>b.
       if r = CHR ''='' \<and> s = CHR ''='' \<and> t = [] then Some [a * 4 + b div 16]
       else Option.bind (b64_dec_digit r) (\<lambda>c.
         if s = CHR ''='' \<and> t = [] then Some [a * 4 + b div 16, b mod 16 * 16 + c div 4]
         else Option.bind (b64_dec_digit s) (\<lambda>d.
           map_option (\<lambda>x. (a * 4 + b div 16) # (b mod 16 * 16 + c div 4) # (c mod 4 * 64 + d) # x)
             (b64_dec t)))))"
| "b64_dec [] = Some []"
| "b64_dec _ = None"

lemma b64_digit_table:
  "\<forall>d \<in> set [0..<64]. b64_dec_digit (b64_enc_digit d) = Some d \<and> b64_enc_digit d \<noteq> CHR ''='' \<and>
     base64_char (b64_enc_digit d)"
  by code_simp

lemma b64_digit:
  assumes "d < 64"
  shows "b64_dec_digit (b64_enc_digit d) = Some d" and "b64_enc_digit d \<noteq> CHR ''=''"
    and "base64_char (b64_enc_digit d)"
  using b64_digit_table assms by auto

lemma b64_roundtrip: "\<forall>x \<in> set xs. x < 256 \<Longrightarrow> b64_dec (b64_enc xs) = Some xs"
  by (induction xs rule: b64_enc.induct) (auto simp: b64_digit less_mult_imp_div_less)

lemma b64_enc_length: "length (b64_enc xs) = 4 * ((length xs + 2) div 3)"
proof (induction xs rule: b64_enc.induct)
  case (1 a b c r)
  have "(length r + 5) div 3 = (length r + 2) div 3 + 1"
    by (simp add: div_add_self2 [of 3 "length r + 2", symmetric])
  with 1 show ?case by (simp add: add.commute)
qed auto

lemma base64_char_pad [simp]: "base64_char (CHR ''='')"
  by (simp add: base64_char_def)

lemma b64_enc_chars: "\<forall>x \<in> set xs. x < 256 \<Longrightarrow> list_all base64_char (b64_enc xs)"
  by (induction xs rule: b64_enc.induct) (auto simp: b64_digit less_mult_imp_div_less)

text \<open>The remaining functions: a tag that names the key, and no secrecy.\<close>

definition toy_sodium :: sodium_api where
  "toy_sodium = \<lparr>
     so_bin2base64 = (\<lambda>b. b64_enc (map unat b)),
     so_base642bin = (\<lambda>s. map_option (map of_nat) (b64_dec s)),
     so_bin2hex = (\<lambda>b. concat (map (\<lambda>x. [CHR ''0'', CHR ''a'']) b)),
     so_generichash = (\<lambda>n b. take n (b @ replicate n 0)),
     so_aead_encrypt = (\<lambda>k n a m. Some (m @ take 16 (k @ replicate 16 0))),
     so_aead_decrypt = (\<lambda>k n a c.
       if drop (length c - 16) c = take 16 (k @ replicate 16 0) then Some (take (length c - 16) c) else None),
     so_sign_detached = (\<lambda>sk m. Some (take 32 sk @ replicate 32 0)),
     so_sign_verify_detached = (\<lambda>pk m s. s = pk @ replicate 32 0),
     so_sign_sk_to_pk = take 32,
     so_box_easy = (\<lambda>pk sk n m. Some (m @ replicate 16 0)),
     so_box_open_easy = (\<lambda>pk sk n c. Some (take (length c - 16) c)),
     so_box_pk = id \<rparr>"

lemma toy_sodium_ok: "sodium_ok toy_sodium"
proof -
  have b: "\<forall>x \<in> set (map unat (b :: bytes)). x < 256" for b
    using unsigned_less [where 'a = nat and 'b = 8] by auto
  have "map (of_nat \<circ> unat) b = (b :: bytes)" for b
    by (simp add: comp_def)
  moreover have "length (concat (map (\<lambda>x. [CHR ''0'', CHR ''a'']) b)) = 2 * length b \<and>
      list_all hex_digit (concat (map (\<lambda>x. [CHR ''0'', CHR ''a'']) b))" for b :: bytes
    by (induction b) (auto simp: hex_digit_def isdigit_c_def)
  moreover have "min (length b) n + (n - length b) = n" for b :: bytes and n by simp
  ultimately show ?thesis
    by (simp add: sodium_ok_def toy_sodium_def aead_ok_def sign_ok_def box_ok_def
        b64_roundtrip [OF b] b64_enc_length b64_enc_chars [OF b])
qed

end
