(* ===== verification/Ordered_Map.thy ===== *)
theory Ordered_Map
  imports Chat_Prelude
begin

text \<open>
  \<^verbatim>\<open>std::map\<close>: an association list with strictly increasing keys, so that iteration order
  and \<^verbatim>\<open>begin()\<close> are those of the C++ container, and \<^verbatim>\<open>std::unordered_map\<close> where the program
  iterates over it: an association list with distinct keys in insertion order.
\<close>

section \<open>Ordered maps\<close>

fun omap_insert :: "'k::linorder \<Rightarrow> 'v \<Rightarrow> ('k \<times> 'v) list \<Rightarrow> ('k \<times> 'v) list" where
  "omap_insert k v [] = [(k, v)]"
| "omap_insert k v ((k', v') # m) =
     (if k < k' then (k, v) # (k', v') # m
      else if k = k' then (k, v) # m
      else (k', v') # omap_insert k v m)"

definition omap_erase :: "'k \<Rightarrow> ('k \<times> 'v) list \<Rightarrow> ('k \<times> 'v) list" where
  "omap_erase k m = filter (\<lambda>(k', v). k' \<noteq> k) m"

definition omap_ok :: "('k::linorder \<times> 'v) list \<Rightarrow> bool" where
  "omap_ok m \<longleftrightarrow> sorted_wrt (<) (map fst m)"

lemma omap_ok_Nil [simp]: "omap_ok []"
  by (simp add: omap_ok_def)

lemma omap_ok_Cons [simp]: "omap_ok (x # m) \<longleftrightarrow> omap_ok m \<and> (\<forall>y \<in> set m. fst x < fst y)"
  by (auto simp: omap_ok_def)

lemma keys_omap_insert [simp]: "fst ` set (omap_insert k v m) = insert k (fst ` set m)"
  by (induction k v m rule: omap_insert.induct) auto

lemma map_of_omap_insert [simp]: "map_of (omap_insert k v m) = (map_of m)(k \<mapsto> v)"
  by (induction k v m rule: omap_insert.induct) (auto simp: fun_eq_iff)

lemma omap_ok_insert: "omap_ok m \<Longrightarrow> omap_ok (omap_insert k v m)"
proof (induction k v m rule: omap_insert.induct)
  case (2 k v k' v' m)
  show ?case
  proof (cases "k < k' \<or> k = k'")
    case True
    with "2.prems" show ?thesis by (auto simp: less_trans)
  next
    case False
    then have "k' < k" by (metis linorder_cases)
    moreover have "\<forall>x \<in> fst ` set m. k' < x" using "2.prems" by auto
    ultimately have "\<forall>x \<in> fst ` set (omap_insert k v m). k' < x" by simp
    then have "\<forall>y \<in> set (omap_insert k v m). k' < fst y" by blast
    with False "2.prems" "2.IH" show ?thesis by simp
  qed
qed simp

lemma omap_insert_last:
  "\<forall>x \<in> set m. fst x < k \<Longrightarrow> omap_insert k v m = m @ [(k, v)]"
  by (induction k v m rule: omap_insert.induct) (auto simp: less_not_sym)

lemma omap_ok_append_last:
  "omap_ok m \<Longrightarrow> \<forall>x \<in> set m. fst x < k \<Longrightarrow> omap_ok (m @ [(k, v)])"
  by (induction m) auto

lemma set_omap_erase [simp]: "set (omap_erase k m) = {x \<in> set m. fst x \<noteq> k}"
  by (auto simp: omap_erase_def)

lemma omap_ok_erase: "omap_ok m \<Longrightarrow> omap_ok (omap_erase k m)"
  unfolding omap_ok_def omap_erase_def sorted_wrt_map by (rule sorted_wrt_filter)

lemma map_of_omap_erase [simp]: "map_of (omap_erase k m) = (map_of m)(k := None)"
  by (induction m) (auto simp: omap_erase_def fun_eq_iff)

lemma omap_ok_drop: "omap_ok m \<Longrightarrow> omap_ok (drop n m)"
  by (simp add: omap_ok_def drop_map [symmetric] sorted_wrt_drop)

lemma omap_ok_distinct: "omap_ok m \<Longrightarrow> distinct (map fst m)"
  by (simp add: omap_ok_def strict_sorted_iff)

lemma omap_ext:
  assumes "omap_ok m" and "omap_ok m'" and "map_of m = map_of m'"
  shows "m = m'"
proof -
  from assms(3) have d: "fst ` set m = fst ` set m'" by (metis dom_map_of_conv_image_fst)
  have "sorted (map fst m)" "sorted (map fst m')" using assms(1,2) by (simp_all add: omap_ok_def strict_sorted_iff)
  then have k: "map fst m = map fst m'"
    using d assms(1,2) by (intro sorted_distinct_set_unique) (simp_all add: omap_ok_distinct)
  have "map (\<lambda>k. (k, the (map_of x k))) (map fst x) = x" if "omap_ok x" for x :: "('a \<times> 'b) list"
    using omap_ok_distinct [OF that] by (auto intro!: map_idI)
  from this [OF assms(1)] this [OF assms(2)] k assms(3) show ?thesis by metis
qed

end
