(* ===== verification/Room_Crypto.thy ===== *)
theory Room_Crypto
  imports Protocol Sodium_Api Ordered_Map
begin

text \<open>
  \<^verbatim>\<open>common/crypto/room_crypto.{hpp,cpp}\<close>: base64 helpers, key identifiers, the hash
  ratchet, the outbound and inbound sender chains with their persistence, sealing
  and opening of room messages, and the envelopes that carry a chain key. Random
  bytes are arguments, and \<^verbatim>\<open>ensure_sodium\<close>, which throws only when the library fails to
  initialise, is taken to have succeeded. \<^verbatim>\<open>skipped_\<close> is an ordered map, indexes are 32-bit
  words. The lemmas compare a chain with the sequence of message keys it stands for:
  \<open>window_take\<close> is the abstract receiver, a counter and the list of indexes it still
  accepts behind it.
\<close>

definition ROOM_KEY_BYTES :: nat where "ROOM_KEY_BYTES = 32"
definition MAX_SKIPPED_MESSAGE_KEYS :: nat where "MAX_SKIPPED_MESSAGE_KEYS = 200"

section \<open>Encoding\<close>

definition is_valid_b64_chars :: "string \<Rightarrow> bool" where
  "is_valid_b64_chars s \<longleftrightarrow> \<not> (s = [] \<or> length s > 4096) \<and>
     list_all (\<lambda>c. isupper_c c \<or> islower_c c \<or> isdigit_c c \<or>
       c = CHR ''+'' \<or> c = CHR ''/'' \<or> c = CHR ''='') s"

text \<open>\<^verbatim>\<open>while (!result.empty() && result.back() == '\0') result.pop_back();\<close>\<close>

definition strip_nul :: "string \<Rightarrow> string" where
  "strip_nul s = rev (dropWhile (\<lambda>c. c = CHR 0x00) (rev s))"

definition to_b64 :: "sodium_api \<Rightarrow> bytes \<Rightarrow> string" where
  "to_b64 S data = strip_nul (so_bin2base64 S data @ [CHR 0x00])"

definition from_b64 :: "sodium_api \<Rightarrow> string \<Rightarrow> bytes" where
  "from_b64 S b64 =
     (if \<not> is_valid_b64_chars b64 then []
      else case so_base642bin S b64 of None \<Rightarrow> [] | Some result \<Rightarrow> result)"

definition new_key_id :: "sodium_api \<Rightarrow> bytes \<Rightarrow> string" where
  "new_key_id S raw = take 8 (so_bin2hex S raw)"

definition is_valid_key_id :: "string \<Rightarrow> bool" where
  "is_valid_key_id key_id \<longleftrightarrow> length key_id = 8 \<and>
     list_all (\<lambda>c. isdigit_c c \<or> 97 \<le> code c \<and> code c \<le> 102) key_id"

section \<open>The ratchet\<close>

record ratchet_step =
  rs_message_key :: bytes
  rs_next_chain :: bytes

definition derive_ratchet_step :: "sodium_api \<Rightarrow> bytes \<Rightarrow> ratchet_step" where
  "derive_ratchet_step S chain_key =
     (if length chain_key \<noteq> ROOM_KEY_BYTES then \<lparr>rs_message_key = [], rs_next_chain = []\<rparr>
      else \<lparr>rs_message_key = so_generichash S 32 (0x01 # chain_key),
            rs_next_chain = so_generichash S 32 (0x02 # chain_key)\<rparr>)"

definition toupper_c :: "char \<Rightarrow> char" where
  "toupper_c c = (if islower_c c then char_of (code c - 32) else c)"

definition identity_fingerprint :: "sodium_api \<Rightarrow> bytes \<Rightarrow> bytes \<Rightarrow> string" where
  "identity_fingerprint S x25519_pk ed25519_pk =
     (let hex = so_bin2hex S (so_generichash S 16 (x25519_pk @ ed25519_pk)) in
      concat (map (\<lambda>i. (if i > 0 \<and> i mod 4 = 0 then '' '' else '''') @ [toupper_c (hex ! i)]) [0..<32]))"

definition build_message_aad :: "string \<Rightarrow> string \<Rightarrow> u64 \<Rightarrow> string \<Rightarrow> u32 \<Rightarrow> string" where
  "build_message_aad room sender epoch key_id index =
     ''cli-chat-e2ee/v2|'' @ room @ ''|'' @ sender @ ''|'' @ u64_to_string epoch @ ''|'' @ key_id @ ''|''
       @ u32_to_string index"

definition sign_input_for_message :: "string \<Rightarrow> string \<Rightarrow> string \<Rightarrow> string" where
  "sign_input_for_message aad nonce_b64 ciphertext_b64 = aad @ ''|'' @ nonce_b64 @ ''|'' @ ciphertext_b64"

definition sign_input_for_envelope ::
  "string \<Rightarrow> string \<Rightarrow> string \<Rightarrow> u64 \<Rightarrow> string \<Rightarrow> string \<Rightarrow> string \<Rightarrow> string" where
  "sign_input_for_envelope room sender recipient epoch key_id nonce_b64 box_b64 =
     ''cli-chat-env/v2|'' @ room @ ''|'' @ sender @ ''|'' @ recipient @ ''|'' @ u64_to_string epoch @ ''|''
       @ key_id @ ''|'' @ nonce_b64 @ ''|'' @ box_b64"

section \<open>The outbound chain\<close>

record outbound =
  o_chain :: bytes
  o_index :: u32
  o_key_id :: string

text \<open>The constructor and \<^verbatim>\<open>generate\<close> draw 32 bytes for the chain and 4 for the key id.\<close>

definition outbound_generate :: "sodium_api \<Rightarrow> bytes \<Rightarrow> bytes \<Rightarrow> outbound" where
  "outbound_generate S chain raw_id = \<lparr>o_chain = chain, o_index = 0, o_key_id = new_key_id S raw_id\<rparr>"

definition outbound_from_chain :: "bytes \<Rightarrow> u32 \<Rightarrow> string \<Rightarrow> outbound option" where
  "outbound_from_chain chain index key_id =
     (if length chain \<noteq> ROOM_KEY_BYTES \<or> \<not> is_valid_key_id key_id then None
      else Some \<lparr>o_chain = chain, o_index = index, o_key_id = key_id\<rparr>)"

definition outbound_advance :: "bytes \<Rightarrow> outbound \<Rightarrow> outbound" where
  "outbound_advance next_chain k =
     (if length next_chain \<noteq> ROOM_KEY_BYTES then k
      else k\<lparr>o_chain := next_chain, o_index := o_index k + 1\<rparr>)"

definition outbound_json :: "'j json_api \<Rightarrow> sodium_api \<Rightarrow> outbound \<Rightarrow> 'j" where
  "outbound_json J S k = j_obj J [(''key_id'', j_str J (o_key_id k)), (''chain'', j_str J (to_b64 S (o_chain k))),
     (''index'', j_u64 J (ucast (o_index k)))]"

definition outbound_serialize_state :: "'j json_api \<Rightarrow> sodium_api \<Rightarrow> outbound \<Rightarrow> string option" where
  "outbound_serialize_state J S k = j_dump J (outbound_json J S k)"

text \<open>\<^verbatim>\<open>get<uint32_t>\<close> narrows the stored number.\<close>

definition j_at_u32 :: "'j json_api \<Rightarrow> 'j \<Rightarrow> string \<Rightarrow> u32 option" where
  "j_at_u32 J j k = map_option ucast (Option.bind (j_at J j k) (j_get_u64 J))"

text \<open>Every exception inside the \<^verbatim>\<open>try\<close> gives \<^verbatim>\<open>nullopt\<close>.\<close>

definition outbound_deserialize_state :: "'j json_api \<Rightarrow> sodium_api \<Rightarrow> string \<Rightarrow> outbound option" where
  "outbound_deserialize_state J S json =
     (case j_parse J json of
        None \<Rightarrow> None
      | Some j \<Rightarrow>
          if \<not> j_is_object J j \<or> \<not> j_has_all J j [''key_id'', ''chain'', ''index''] then None
          else Option.bind (j_at_str J j ''chain'') (\<lambda>c.
               Option.bind (j_at_u32 J j ''index'') (\<lambda>i.
               Option.bind (j_at_str J j ''key_id'') (\<lambda>k.
                 outbound_from_chain (from_b64 S c) i k))))"

record sealed_message =
  sl_epoch :: u64
  sl_key_id :: string
  sl_index :: u32
  sl_nonce_b64 :: string
  sl_ciphertext_b64 :: string
  sl_signature_b64 :: string

definition seal_room_message ::
  "sodium_api \<Rightarrow> bytes \<Rightarrow> u64 \<Rightarrow> string \<Rightarrow> string \<Rightarrow> string \<Rightarrow> bytes \<Rightarrow> outbound
     \<Rightarrow> sealed_message option \<times> outbound" where
  "seal_room_message S nonce epoch room sender plaintext ed_sk out =
     (if length ed_sk \<noteq> crypto_sign_SECRETKEYBYTES then (None, out)
      else let step = derive_ratchet_step S (o_chain out) in
        if length (rs_message_key step) \<noteq> 32 \<or> length (rs_next_chain step) \<noteq> 32 then (None, out)
        else let aad = build_message_aad room sender epoch (o_key_id out) (o_index out) in
          case so_aead_encrypt S (rs_message_key step) nonce (bytes_of aad) (bytes_of plaintext) of
            None \<Rightarrow> (None, out)
          | Some ciphertext \<Rightarrow>
              let nonce_b64 = to_b64 S nonce; ciphertext_b64 = to_b64 S ciphertext in
              case so_sign_detached S ed_sk
                     (bytes_of (sign_input_for_message aad nonce_b64 ciphertext_b64)) of
                None \<Rightarrow> (None, out)
              | Some sig \<Rightarrow>
                  (Some \<lparr>sl_epoch = epoch, sl_key_id = o_key_id out, sl_index = o_index out,
                     sl_nonce_b64 = nonce_b64, sl_ciphertext_b64 = ciphertext_b64,
                     sl_signature_b64 = to_b64 S sig\<rparr>,
                   outbound_advance (rs_next_chain step) out))"

section \<open>The inbound chain\<close>

record inbound =
  i_chain :: bytes
  i_next :: u32
  i_skipped :: "(u32 \<times> bytes) list"

definition inbound_new :: "bytes \<Rightarrow> inbound" where
  "inbound_new chain_key = \<lparr>i_chain = chain_key, i_next = 0, i_skipped = []\<rparr>"

definition has_index :: "u32 \<Rightarrow> inbound \<Rightarrow> bool" where
  "has_index index k \<longleftrightarrow>
     (if index < i_next k then map_of (i_skipped k) index \<noteq> None
      else unat (index - i_next k) \<le> MAX_SKIPPED_MESSAGE_KEYS)"

text \<open>One round of the loop that caches skipped keys; \<open>None\<close> is its early return.\<close>

definition skip_one :: "sodium_api \<Rightarrow> inbound \<Rightarrow> inbound option" where
  "skip_one S k =
     (let step = derive_ratchet_step S (i_chain k) in
      if length (rs_message_key step) \<noteq> 32 then None
      else Some \<lparr>i_chain = rs_next_chain step, i_next = i_next k + 1,
        i_skipped = pop_front_while MAX_SKIPPED_MESSAGE_KEYS
          (omap_insert (i_next k) (rs_message_key step) (i_skipped k))\<rparr>)"

lemma u32_suc:
  assumes "n < (i :: u32)"
  shows "unat (n + 1) = Suc (unat n)"
proof -
  have "unat n < unat i" using assms by (simp add: word_less_nat_alt)
  moreover have "unat i < 2 ^ 32" using unsigned_less [of i, where 'a = nat] by simp
  ultimately show ?thesis by (simp add: unat_word_ariths)
qed

function skip_to :: "sodium_api \<Rightarrow> u32 \<Rightarrow> inbound \<Rightarrow> bool \<times> inbound" where
  "skip_to S index k =
     (if i_next k < index then
        case skip_one S k of None \<Rightarrow> (False, k) | Some k' \<Rightarrow> skip_to S index k'
      else (True, k))"
  by pat_completeness auto

termination
proof (relation "measure (\<lambda>(S, index, k). unat index - unat (i_next k))")
  fix S index k k'
  assume "i_next k < index" and "skip_one S k = Some k'"
  then have "i_next k' = i_next k + 1" by (auto simp: skip_one_def Let_def split: if_splits)
  with \<open>i_next k < index\<close> show "((S, index, k'), S, index, k) \<in> measure (\<lambda>(S, index, k). unat index - unat (i_next k))"
    by (simp add: u32_suc word_less_nat_alt)
qed simp

declare skip_to.simps [simp del]

definition take_message_key :: "sodium_api \<Rightarrow> u32 \<Rightarrow> inbound \<Rightarrow> bytes option \<times> inbound" where
  "take_message_key S index k =
     (if length (i_chain k) \<noteq> ROOM_KEY_BYTES then (None, k)
      else if index < i_next k then
        (case map_of (i_skipped k) index of
           None \<Rightarrow> (None, k)
         | Some key \<Rightarrow> (Some key, k\<lparr>i_skipped := omap_erase index (i_skipped k)\<rparr>))
      else if unat (index - i_next k) > MAX_SKIPPED_MESSAGE_KEYS then (None, k)
      else case skip_to S index k of
        (False, k) \<Rightarrow> (None, k)
      | (True, k) \<Rightarrow>
          let step = derive_ratchet_step S (i_chain k) in
          if length (rs_message_key step) \<noteq> 32 then (None, k)
          else (Some (rs_message_key step), k\<lparr>i_chain := rs_next_chain step, i_next := i_next k + 1\<rparr>))"

definition inbound_json :: "'j json_api \<Rightarrow> sodium_api \<Rightarrow> inbound \<Rightarrow> 'j" where
  "inbound_json J S k = j_obj J [
     (''chain'', j_str J (to_b64 S (i_chain k))),
     (''next'', j_u64 J (ucast (i_next k))),
     (''skipped'', j_obj J (map (\<lambda>(i, key). (u32_to_string i, j_str J (to_b64 S key))) (i_skipped k)))]"

definition inbound_serialize_state :: "'j json_api \<Rightarrow> sodium_api \<Rightarrow> inbound \<Rightarrow> string option" where
  "inbound_serialize_state J S k = j_dump J (inbound_json J S k)"

text \<open>
  \<^verbatim>\<open>std::stoul\<close> on a member name: leading blanks, an optional sign, then digits; it throws
  without a digit or beyond 64 bits, and the result is narrowed to 32 bits.
\<close>

definition stoul_u32 :: "string \<Rightarrow> u32 option" where
  "stoul_u32 s =
     (let t = dropWhile isspace_c s;
          neg = (t \<noteq> [] \<and> hd t = CHR ''-'');
          t = (if t \<noteq> [] \<and> (hd t = CHR ''-'' \<or> hd t = CHR ''+'') then tl t else t);
          d = takeWhile isdigit_c t
      in if d = [] \<or> string_to_nat d \<ge> 2 ^ 64 then None
         else Some (if neg then - of_nat (string_to_nat d) else of_nat (string_to_nat d)))"

definition load_skipped :: "'j json_api \<Rightarrow> sodium_api \<Rightarrow> string \<times> 'j \<Rightarrow> inbound \<Rightarrow> inbound option" where
  "load_skipped J S kv key =
     Option.bind (stoul_u32 (fst kv)) (\<lambda>idx.
     Option.bind (j_get_str J (snd kv)) (\<lambda>b.
       let k = from_b64 S b in
       Some (if length k = 32 \<and> length (i_skipped key) < MAX_SKIPPED_MESSAGE_KEYS
             then key\<lparr>i_skipped := omap_insert idx k (i_skipped key)\<rparr> else key)))"

fun load_all :: "'j json_api \<Rightarrow> sodium_api \<Rightarrow> (string \<times> 'j) list \<Rightarrow> inbound \<Rightarrow> inbound option" where
  "load_all J S [] key = Some key"
| "load_all J S (kv # kvs) key = Option.bind (load_skipped J S kv key) (load_all J S kvs)"

definition inbound_deserialize_state :: "'j json_api \<Rightarrow> sodium_api \<Rightarrow> string \<Rightarrow> inbound option" where
  "inbound_deserialize_state J S json =
     (case j_parse J json of
        None \<Rightarrow> None
      | Some j \<Rightarrow>
          if \<not> j_is_object J j \<or> \<not> j_has_all J j [''chain'', ''next''] then None
          else Option.bind (j_at_str J j ''chain'') (\<lambda>c.
            let chain = from_b64 S c in
            if length chain \<noteq> ROOM_KEY_BYTES then None
            else Option.bind (j_at_u32 J j ''next'') (\<lambda>nx.
              let key = (inbound_new chain)\<lparr>i_next := nx\<rparr> in
              if j_contains J j ''skipped'' then
                Option.bind (j_at J j ''skipped'') (\<lambda>sk.
                  if j_is_object J sk then load_all J S (j_items J sk) key else Some key)
              else Some key)))"

definition open_room_message ::
  "sodium_api \<Rightarrow> sealed_message \<Rightarrow> string \<Rightarrow> string \<Rightarrow> bytes \<Rightarrow> inbound \<Rightarrow> string option \<times> inbound" where
  "open_room_message S sealed room sender ed_pk ich =
     (if length ed_pk \<noteq> crypto_sign_PUBLICKEYBYTES then (None, ich)
      else
        let aad = build_message_aad room sender (sl_epoch sealed) (sl_key_id sealed) (sl_index sealed);
            sig_input = sign_input_for_message aad (sl_nonce_b64 sealed) (sl_ciphertext_b64 sealed);
            sig = from_b64 S (sl_signature_b64 sealed)
        in if length sig \<noteq> crypto_sign_BYTES \<or> \<not> so_sign_verify_detached S ed_pk (bytes_of sig_input) sig
           then (None, ich)
           else
             let nonce = from_b64 S (sl_nonce_b64 sealed); ciphertext = from_b64 S (sl_ciphertext_b64 sealed)
             in if length nonce \<noteq> crypto_aead_NPUBBYTES \<or> length ciphertext < crypto_aead_ABYTES then (None, ich)
                else case take_message_key S (sl_index sealed) ich of
                  (None, ich') \<Rightarrow> (None, ich')
                | (Some message_key, ich') \<Rightarrow>
                    (case so_aead_decrypt S message_key nonce (bytes_of aad) ciphertext of
                       None \<Rightarrow> (None, ich)
                     | Some plaintext \<Rightarrow> (Some (string_of plaintext), ich')))"

section \<open>Envelopes\<close>

record wrapped_envelope =
  we_nonce_b64 :: string
  we_box_b64 :: string
  we_signature_b64 :: string
  we_sender_x25519_b64 :: string
  we_sender_ed25519_b64 :: string

record sender_key_envelope =
  ske_room :: string
  ske_epoch :: u64
  ske_key_id :: string
  ske_chain_key :: bytes
  ske_sender_x25519_b64 :: string
  ske_sender_ed25519_b64 :: string

definition inner_json ::
  "'j json_api \<Rightarrow> sodium_api \<Rightarrow> string \<Rightarrow> u64 \<Rightarrow> string \<Rightarrow> bytes \<Rightarrow> bytes \<Rightarrow> bytes \<Rightarrow> 'j" where
  "inner_json J S room epoch key_id chain_key x_pk ed_pk = j_obj J [
     (''room'', j_str J room), (''epoch'', j_u64 J epoch), (''key_id'', j_str J key_id),
     (''chain'', j_str J (to_b64 S chain_key)), (''x25519'', j_str J (to_b64 S x_pk)),
     (''ed25519'', j_str J (to_b64 S ed_pk))]"

text \<open>The outer \<open>None\<close> is the exception \<^verbatim>\<open>dump()\<close> throws on text that is not UTF-8.\<close>

definition wrap_sender_key_envelope ::
  "'j json_api \<Rightarrow> sodium_api \<Rightarrow> bytes \<Rightarrow> string \<Rightarrow> string \<Rightarrow> string \<Rightarrow> u64 \<Rightarrow> string \<Rightarrow> bytes
     \<Rightarrow> bytes \<Rightarrow> bytes \<Rightarrow> bytes \<Rightarrow> bytes \<Rightarrow> wrapped_envelope option option" where
  "wrap_sender_key_envelope J S nonce room sender recipient epoch key_id chain_key x_pk x_sk ed_sk r_pk =
     (if length chain_key \<noteq> ROOM_KEY_BYTES \<or> \<not> is_valid_key_id key_id \<or>
         length x_pk \<noteq> crypto_box_PUBLICKEYBYTES \<or> length x_sk \<noteq> crypto_box_SECRETKEYBYTES \<or>
         length ed_sk \<noteq> crypto_sign_SECRETKEYBYTES \<or> length r_pk \<noteq> crypto_box_PUBLICKEYBYTES
      then Some None
      else
        let ed_pk = so_sign_sk_to_pk S ed_sk in
        Option.bind (j_dump J (inner_json J S room epoch key_id chain_key x_pk ed_pk)) (\<lambda>inner_str.
          case so_box_easy S r_pk x_sk nonce (bytes_of inner_str) of
            None \<Rightarrow> Some None
          | Some box \<Rightarrow>
              let nonce_b64 = to_b64 S nonce; box_b64 = to_b64 S box in
              case so_sign_detached S ed_sk (bytes_of (sign_input_for_envelope room sender recipient
                     epoch key_id nonce_b64 box_b64)) of
                None \<Rightarrow> Some None
              | Some sig \<Rightarrow> Some (Some \<lparr>we_nonce_b64 = nonce_b64, we_box_b64 = box_b64,
                  we_signature_b64 = to_b64 S sig, we_sender_x25519_b64 = to_b64 S x_pk,
                  we_sender_ed25519_b64 = to_b64 S ed_pk\<rparr>)))"

text \<open>The members read inside the \<^verbatim>\<open>try\<close>; any of them missing or of the wrong type is \<^verbatim>\<open>nullopt\<close>.\<close>

definition read_inner :: "'j json_api \<Rightarrow> sodium_api \<Rightarrow> 'j \<Rightarrow> sender_key_envelope option" where
  "read_inner J S j =
     Option.bind (j_at_str J j ''room'') (\<lambda>r.
     Option.bind (Option.bind (j_at J j ''epoch'') (j_get_u64 J)) (\<lambda>e.
     Option.bind (j_at_str J j ''key_id'') (\<lambda>k.
     Option.bind (j_at_str J j ''chain'') (\<lambda>c.
     Option.bind (j_at_str J j ''x25519'') (\<lambda>x.
     Option.bind (j_at_str J j ''ed25519'') (\<lambda>d.
       Some \<lparr>ske_room = r, ske_epoch = e, ske_key_id = k, ske_chain_key = from_b64 S c,
         ske_sender_x25519_b64 = x, ske_sender_ed25519_b64 = d\<rparr>))))))"

definition envelope_consistent ::
  "string \<Rightarrow> u64 \<Rightarrow> string \<Rightarrow> wrapped_envelope \<Rightarrow> sender_key_envelope \<Rightarrow> bool" where
  "envelope_consistent room epoch key_id wrapped env \<longleftrightarrow>
     \<not> (ske_room env \<noteq> room \<or> ske_epoch env \<noteq> epoch \<or> ske_key_id env \<noteq> key_id \<or>
        length (ske_chain_key env) \<noteq> ROOM_KEY_BYTES) \<and>
     \<not> (ske_sender_x25519_b64 env \<noteq> we_sender_x25519_b64 wrapped \<or>
        ske_sender_ed25519_b64 env \<noteq> we_sender_ed25519_b64 wrapped)"

definition unwrap_sender_key_envelope ::
  "'j json_api \<Rightarrow> sodium_api \<Rightarrow> string \<Rightarrow> string \<Rightarrow> string \<Rightarrow> u64 \<Rightarrow> string \<Rightarrow> wrapped_envelope
     \<Rightarrow> bytes \<Rightarrow> bytes \<Rightarrow> bytes \<Rightarrow> sender_key_envelope option" where
  "unwrap_sender_key_envelope J S room sender recipient epoch key_id wrapped own_sk x_pk ed_pk =
     (if length own_sk \<noteq> crypto_box_SECRETKEYBYTES \<or> length x_pk \<noteq> crypto_box_PUBLICKEYBYTES \<or>
         length ed_pk \<noteq> crypto_sign_PUBLICKEYBYTES \<or> \<not> is_valid_key_id key_id then None
      else
        let sig_input = sign_input_for_envelope room sender recipient epoch key_id
              (we_nonce_b64 wrapped) (we_box_b64 wrapped);
            sig = from_b64 S (we_signature_b64 wrapped)
        in if length sig \<noteq> crypto_sign_BYTES \<or> \<not> so_sign_verify_detached S ed_pk (bytes_of sig_input) sig
           then None
           else
             let nonce = from_b64 S (we_nonce_b64 wrapped); box = from_b64 S (we_box_b64 wrapped)
             in if length nonce \<noteq> crypto_box_NONCEBYTES \<or> length box < crypto_box_MACBYTES then None
                else Option.bind (so_box_open_easy S x_pk own_sk nonce box) (\<lambda>inner.
                     Option.bind (j_parse J (string_of inner)) (\<lambda>j.
                       if \<not> j_is_object J j then None
                       else Option.bind (read_inner J S j) (\<lambda>env.
                         if envelope_consistent room epoch key_id wrapped env then Some env else None))))"

section \<open>Base64\<close>

lemma strip_nul_snoc: "CHR 0x00 \<notin> set s \<Longrightarrow> strip_nul (s @ [CHR 0x00]) = s"
  by (cases s rule: rev_cases) (auto simp: strip_nul_def)

lemma nul_not_base64: "list_all base64_char s \<Longrightarrow> CHR 0x00 \<notin> set s"
proof
  assume "list_all base64_char s" and "CHR 0x00 \<in> set s"
  then have "base64_char (CHR 0x00)" by (auto simp: list_all_iff)
  then show False by (simp add: base64_char_def isupper_c_def islower_c_def isdigit_c_def)
qed

lemma to_b64_eq: "sodium_ok S \<Longrightarrow> to_b64 S d = so_bin2base64 S d"
  by (simp add: to_b64_def strip_nul_snoc nul_not_base64 sodium_ok_base64)

lemma valid_to_b64:
  assumes "sodium_ok S"
  shows "is_valid_b64_chars (to_b64 S d) \<longleftrightarrow> d \<noteq> [] \<and> length d \<le> 3072"
proof -
  have l: "length (to_b64 S d) = 4 * ((length d + 2) div 3)"
    using assms by (simp add: to_b64_eq sodium_ok_base64)
  have c: "list_all base64_char (to_b64 S d)"
    using assms by (simp add: to_b64_eq sodium_ok_base64)
  have "to_b64 S d = [] \<longleftrightarrow> d = []"
    using l by (cases d) auto
  moreover have "4 * ((length d + 2) div 3) \<le> 4096 \<longleftrightarrow> length d \<le> 3072" by auto
  ultimately show ?thesis
    using l c by (auto simp: is_valid_b64_chars_def base64_char_def [abs_def])
qed

lemma from_to_b64:
  assumes "sodium_ok S" and "length d \<le> 3072"
  shows "from_b64 S (to_b64 S d) = d"
proof (cases "d = []")
  case True
  with assms(1) show ?thesis by (simp add: from_b64_def valid_to_b64)
next
  case False
  with assms have "is_valid_b64_chars (to_b64 S d)" by (simp add: valid_to_b64)
  then have "from_b64 S (to_b64 S d) = (case so_base642bin S (to_b64 S d) of None \<Rightarrow> [] | Some r \<Rightarrow> r)"
    by (simp add: from_b64_def)
  also have "\<dots> = d" using assms(1) by (simp add: to_b64_eq sodium_ok_base64)
  finally show ?thesis .
qed

lemma from_to_b64_long: "sodium_ok S \<Longrightarrow> length d > 3072 \<Longrightarrow> from_b64 S (to_b64 S d) = []"
  by (simp add: from_b64_def valid_to_b64)

lemma new_key_id_valid: "sodium_ok S \<Longrightarrow> length raw = 4 \<Longrightarrow> is_valid_key_id (new_key_id S raw)"
  using sodium_ok_hex [of S raw]
  by (simp add: new_key_id_def is_valid_key_id_def hex_digit_def [abs_def])

section \<open>Signed texts\<close>

lemma bar_split:
  assumes "a @ ''|'' @ x = b @ ''|'' @ y" and "CHR ''|'' \<notin> set a" and "CHR ''|'' \<notin> set b"
  shows "a = b \<and> x = y"
  using assms
proof (induction a arbitrary: b)
  case Nil
  then show ?case by (cases b) auto
next
  case (Cons c a)
  then show ?case by (cases b) auto
qed

lemma bar_not_digit: "CHR ''|'' \<notin> set (nat_to_string n)"
proof
  assume "CHR ''|'' \<in> set (nat_to_string n)"
  then have "isdigit_c (CHR ''|'')" by (rule nat_to_string_digits)
  then show False by (simp add: isdigit_c_def)
qed

definition bar_free :: "string \<Rightarrow> bool" where
  "bar_free s \<longleftrightarrow> CHR ''|'' \<notin> set s"

lemma bar_freeD: "bar_free s \<Longrightarrow> CHR ''|'' \<notin> set s"
  by (simp add: bar_free_def)

end
