(* ===== verification/Ratchet.thy ===== *)
theory Ratchet
  imports Room_Crypto
begin

text \<open>
  Correctness of the sender chains of \<open>Room_Crypto\<close>. A chain key stands for the sequence of
  message keys \<open>mkey_at\<close>. The locale \<open>one_time_keys\<close> is what a consumer of message keys relies
  on (the right key for an index, no index twice, a failed request changes nothing); it
  is interpreted on \<open>take_message_key\<close>. \<open>window_take\<close> is the exact acceptance rule.
\<close>

section \<open>One-time keys\<close>

locale one_time_keys =
  fixes take_key :: "'i \<Rightarrow> 's \<Rightarrow> 'k option \<times> 's"
    and inv :: "'s \<Rightarrow> bool"
    and legal :: "'i \<Rightarrow> bool"
    and open_idx :: "'s \<Rightarrow> 'i \<Rightarrow> bool"
    and key :: "'i \<Rightarrow> 'k"
  assumes taken: "inv s \<Longrightarrow> legal i \<Longrightarrow> take_key i s = (Some k, s') \<Longrightarrow>
      inv s' \<and> k = key i \<and> open_idx s i \<and> \<not> open_idx s' i \<and> (\<forall>j. open_idx s' j \<longrightarrow> open_idx s j)"
    and refused: "inv s \<Longrightarrow> legal i \<Longrightarrow> take_key i s = (None, s') \<Longrightarrow> s' = s"
begin

fun requests :: "'i list \<Rightarrow> 's \<Rightarrow> 'k option list \<times> 's" where
  "requests [] s = ([], s)"
| "requests (i # is) s =
     (let t = take_key i s; u = requests is (snd t) in (fst t # fst u, snd u))"

lemma request_step:
  assumes "inv s" and "legal i" and "take_key i s = (r, s')"
  shows "inv s'" and "r = None \<or> r = Some (key i)" and "open_idx s' j \<Longrightarrow> open_idx s j"
    and "r \<noteq> None \<Longrightarrow> open_idx s i \<and> \<not> open_idx s' i"
  using taken [OF assms(1,2)] refused [OF assms(1,2)] assms by (cases r; auto)+

lemma requests_inv: "inv s \<Longrightarrow> list_all legal is \<Longrightarrow> inv (snd (requests is s))"
proof (induction "is" arbitrary: s)
  case (Cons i "is")
  obtain r s' where t: "take_key i s = (r, s')" by (cases "take_key i s")
  with Cons request_step(1) [OF Cons.prems(1) _ t] show ?case by (simp add: Let_def)
qed simp

lemma requests_length: "length (fst (requests is s)) = length is"
  by (induction "is" arbitrary: s) (simp_all add: Let_def)

lemma requests_open:
  assumes "inv s" and "list_all legal is" and "p < length is" and "fst (requests is s) ! p \<noteq> None"
  shows "open_idx s (is ! p)"
  using assms
proof (induction "is" arbitrary: s p)
  case (Cons i "is")
  obtain r s' where t: "take_key i s = (r, s')" by (cases "take_key i s")
  note step = request_step [OF Cons.prems(1) _ t]
  show ?case
  proof (cases p)
    case 0
    with Cons.prems t step(4) show ?thesis by (simp add: Let_def)
  next
    case (Suc q)
    with Cons.prems t have "open_idx s' (is ! q)"
      by (intro Cons.IH) (simp_all add: Let_def step(1))
    with Suc step(3) Cons.prems show ?thesis by simp
  qed
qed simp

lemma requests_once:
  assumes "inv s" and "list_all legal is" and "p < length is"
    and "fst (requests is s) ! p = Some k"
  shows "k = key (is ! p)"
    and "p < q \<Longrightarrow> q < length is \<Longrightarrow> fst (requests is s) ! q \<noteq> None \<Longrightarrow> is ! p \<noteq> is ! q"
  using assms
proof (induction "is" arbitrary: s p q)
  case (Cons i "is")
  case 1
  obtain r s' where t: "take_key i s = (r, s')" by (cases "take_key i s")
  note step = request_step [OF 1(1) _ t]
  from 1 t step Cons.IH(1) [of s' "p - 1"] show ?case
    by (cases p) (auto simp: Let_def)
next
  case (Cons i "is")
  case 2
  obtain r s' where t: "take_key i s = (r, s')" by (cases "take_key i s")
  note step = request_step [OF 2(4) _ t]
  from 2(1) obtain q' where q: "q = Suc q'" by (cases q) auto
  show ?case
  proof (cases p)
    case 0
    with 2 t step(4) have "\<not> open_idx s' i" by (simp add: Let_def)
    moreover have "open_idx s' (is ! q')"
      using 2 t q step(1) by (intro requests_open) (simp_all add: Let_def)
    ultimately show ?thesis using 0 q by auto
  next
    case (Suc p')
    with 2 q t step(1) Cons.IH(2) [of p' q' s'] show ?thesis by (simp add: Let_def)
  qed
qed simp_all

end

section \<open>The sequence of message keys\<close>

definition chain_at :: "sodium_api \<Rightarrow> bytes \<Rightarrow> nat \<Rightarrow> bytes" where
  "chain_at S c n = ((\<lambda>x. rs_next_chain (derive_ratchet_step S x)) ^^ n) c"

definition mkey_at :: "sodium_api \<Rightarrow> bytes \<Rightarrow> nat \<Rightarrow> bytes" where
  "mkey_at S c n = rs_message_key (derive_ratchet_step S (chain_at S c n))"

lemma chain_at_0 [simp]: "chain_at S c 0 = c"
  by (simp add: chain_at_def)

lemma derive_lengths:
  "sodium_ok S \<Longrightarrow> length c = 32 \<Longrightarrow> length (rs_message_key (derive_ratchet_step S c)) = 32 \<and>
     length (rs_next_chain (derive_ratchet_step S c)) = 32"
  by (simp add: derive_ratchet_step_def ROOM_KEY_BYTES_def sodium_ok_hash)

lemma chain_at_Suc: "chain_at S c (Suc n) = rs_next_chain (derive_ratchet_step S (chain_at S c n))"
  by (simp add: chain_at_def)

lemma length_chain_at: "sodium_ok S \<Longrightarrow> length c = 32 \<Longrightarrow> length (chain_at S c n) = 32"
  by (induction n) (simp_all add: chain_at_Suc derive_lengths)

lemma length_mkey_at: "sodium_ok S \<Longrightarrow> length c = 32 \<Longrightarrow> length (mkey_at S c n) = 32"
  by (simp add: mkey_at_def derive_lengths length_chain_at)

section \<open>The inbound chain against its window\<close>

definition window_take :: "nat \<Rightarrow> nat \<times> nat list \<Rightarrow> (nat \<times> nat list) option" where
  "window_take i w = (case w of (n, ps) \<Rightarrow>
     if i < n then (if i \<in> set ps then Some (n, filter (\<lambda>j. j \<noteq> i) ps) else None)
     else if i - n > MAX_SKIPPED_MESSAGE_KEYS then None
     else Some (Suc i, pop_front_while MAX_SKIPPED_MESSAGE_KEYS (ps @ [n..<i])))"

definition window_of :: "inbound \<Rightarrow> nat \<times> nat list" where
  "window_of k = (unat (i_next k), map (\<lambda>x. unat (fst x)) (i_skipped k))"

definition inbound_tracks :: "sodium_api \<Rightarrow> bytes \<Rightarrow> inbound \<Rightarrow> bool" where
  "inbound_tracks S c k \<longleftrightarrow>
     length c = 32 \<and> i_chain k = chain_at S c (unat (i_next k)) \<and> omap_ok (i_skipped k) \<and>
     (\<forall>x \<in> set (i_skipped k). fst x < i_next k \<and> snd x = mkey_at S c (unat (fst x))) \<and>
     length (i_skipped k) \<le> MAX_SKIPPED_MESSAGE_KEYS"

lemma inbound_new_tracks: "length c = 32 \<Longrightarrow> inbound_tracks S c (inbound_new c)"
  by (simp add: inbound_tracks_def inbound_new_def)

lemma pop_front_while_append:
  "pop_front_while n (pop_front_while n xs @ ys) = pop_front_while n (xs @ ys)"
proof -
  have "drop (length xs - n) xs @ ys = drop (length xs - n) (xs @ ys)" by simp
  moreover have "length (drop (length xs - n) xs @ ys) - n + (length xs - n) = length (xs @ ys) - n"
    by auto
  ultimately show ?thesis by (simp add: pop_front_while_eq del: drop_append)
qed

lemma map_pop_front_while: "map f (pop_front_while n xs) = pop_front_while n (map f xs)"
  by (simp add: pop_front_while_eq drop_map)

lemma skip_one_tracks:
  assumes "sodium_ok S" and "inbound_tracks S c k" and "i_next k < index"
  obtains k' where "skip_one S k = Some k'" and "inbound_tracks S c k'" and "i_next k' = i_next k + 1"
    and "map (\<lambda>x. unat (fst x)) (i_skipped k') = pop_front_while MAX_SKIPPED_MESSAGE_KEYS
      (map (\<lambda>x. unat (fst x)) (i_skipped k) @ [unat (i_next k)])"
proof -
  let ?n = "i_next k" and ?step = "derive_ratchet_step S (i_chain k)"
  let ?sk = "i_skipped k @ [(?n, rs_message_key ?step)]"
  let ?k' = "\<lparr>i_chain = rs_next_chain ?step, i_next = ?n + 1,
    i_skipped = pop_front_while MAX_SKIPPED_MESSAGE_KEYS ?sk\<rparr>"
  have suc: "unat (?n + 1) = Suc (unat ?n)" using u32_suc [OF assms(3)] .
  have c: "length c = 32" "i_chain k = chain_at S c (unat ?n)" and ok: "omap_ok (i_skipped k)"
    and lt: "\<forall>x \<in> set (i_skipped k). fst x < ?n"
    and keys: "\<forall>x \<in> set (i_skipped k). snd x = mkey_at S c (unat (fst x))"
    using assms(2) by (auto simp: inbound_tracks_def)
  have len: "length (rs_message_key ?step) = 32"
    using c assms(1) by (simp add: derive_lengths length_chain_at)
  have "omap_insert ?n (rs_message_key ?step) (i_skipped k) = ?sk" by (rule omap_insert_last [OF lt])
  with len have "skip_one S k = Some ?k'" by (simp add: skip_one_def Let_def)
  moreover have "inbound_tracks S c ?k'"
  proof -
    have "\<forall>x \<in> set ?sk. fst x < ?n + 1 \<and> snd x = mkey_at S c (unat (fst x))"
      using lt keys c suc by (auto simp: word_less_nat_alt mkey_at_def)
    then have "\<forall>x \<in> set (pop_front_while MAX_SKIPPED_MESSAGE_KEYS ?sk).
        fst x < ?n + 1 \<and> snd x = mkey_at S c (unat (fst x))"
      using set_pop_front_while [of MAX_SKIPPED_MESSAGE_KEYS ?sk] by blast
    moreover have "omap_ok (pop_front_while MAX_SKIPPED_MESSAGE_KEYS ?sk)"
      unfolding pop_front_while_eq by (rule omap_ok_drop [OF omap_ok_append_last [OF ok lt]])
    ultimately show ?thesis
      using c suc by (simp add: inbound_tracks_def chain_at_Suc length_pop_front_while)
  qed
  ultimately show thesis by (rule that) (simp_all add: map_pop_front_while)
qed

lemma skip_to_tracks:
  assumes "sodium_ok S" and "inbound_tracks S c k" and "i_next k \<le> index"
  shows "\<exists>k'. skip_to S index k = (True, k') \<and> inbound_tracks S c k' \<and> i_next k' = index \<and>
    map (\<lambda>x. unat (fst x)) (i_skipped k') = pop_front_while MAX_SKIPPED_MESSAGE_KEYS
      (map (\<lambda>x. unat (fst x)) (i_skipped k) @ [unat (i_next k)..<unat index])"
  using assms
proof (induction S index k rule: skip_to.induct)
  case (1 S index k)
  show ?case
  proof (cases "i_next k < index")
    case True
    obtain k' where k': "skip_one S k = Some k'" "inbound_tracks S c k'" "i_next k' = i_next k + 1"
      "map (\<lambda>x. unat (fst x)) (i_skipped k') = pop_front_while MAX_SKIPPED_MESSAGE_KEYS
         (map (\<lambda>x. unat (fst x)) (i_skipped k) @ [unat (i_next k)])"
      using skip_one_tracks [OF "1.prems"(1,2) True] .
    have suc: "unat (i_next k') = Suc (unat (i_next k))" using u32_suc [OF True] k'(3) by simp
    then have "i_next k' \<le> index" using True by (simp add: word_le_nat_alt word_less_nat_alt)
    from "1.IH" [OF True k'(1) "1.prems"(1) k'(2) this] obtain k'' where
      k'': "skip_to S index k' = (True, k'')" "inbound_tracks S c k''" "i_next k'' = index"
      "map (\<lambda>x. unat (fst x)) (i_skipped k'') = pop_front_while MAX_SKIPPED_MESSAGE_KEYS
         (map (\<lambda>x. unat (fst x)) (i_skipped k') @ [unat (i_next k')..<unat index])" by blast
    have "[unat (i_next k)..<unat index] = unat (i_next k) # [Suc (unat (i_next k))..<unat index]"
      using True by (simp add: upt_conv_Cons word_less_nat_alt)
    with k' k'' True suc show ?thesis
      by (simp add: skip_to.simps [of S index k] pop_front_while_append)
  next
    case False
    with "1.prems" have "i_next k = index" by simp
    moreover have "length (i_skipped k) \<le> MAX_SKIPPED_MESSAGE_KEYS"
      using "1.prems" by (simp add: inbound_tracks_def)
    ultimately show ?thesis
      using False "1.prems" by (simp add: skip_to.simps [of S index k] pop_front_while_eq)
  qed
qed

lemma u32_below_max: "i \<noteq> (-1 :: u32) \<Longrightarrow> i < - 1"
  by (metis word_order.not_eq_extremum)

lemma unat_skipped_mem:
  "unat i \<in> set (map (\<lambda>x. unat (fst x)) m) \<longleftrightarrow> map_of m (i :: u32) \<noteq> None"
  by (auto simp: map_of_eq_None_iff word_unat_eq_iff [symmetric] image_iff)

lemma take_refines:
  assumes "sodium_ok S" and "inbound_tracks S c k" and "index \<noteq> - 1"
  shows "case window_take (unat index) (window_of k) of
      None \<Rightarrow> take_message_key S index k = (None, k)
    | Some w \<Rightarrow> \<exists>k'. take_message_key S index k = (Some (mkey_at S c (unat index)), k') \<and>
        inbound_tracks S c k' \<and> window_of k' = w"
proof -
  note tracks = assms(2) [unfolded inbound_tracks_def]
  have len: "length (i_chain k) = ROOM_KEY_BYTES"
    using tracks assms(1) by (simp add: length_chain_at ROOM_KEY_BYTES_def)
  show ?thesis
  proof (cases "index < i_next k")
    case True
    then have lt: "unat index < unat (i_next k)" by (simp add: word_less_nat_alt)
    show ?thesis
    proof (cases "map_of (i_skipped k) index")
      case None
      with True lt len show ?thesis
        by (simp add: window_take_def window_of_def unat_skipped_mem take_message_key_def del: set_map)
    next
      case (Some key)
      then have "(index, key) \<in> set (i_skipped k)" by (rule map_of_SomeD)
      with tracks have key: "key = mkey_at S c (unat index)" by fastforce
      let ?k' = "k\<lparr>i_skipped := omap_erase index (i_skipped k)\<rparr>"
      have "inbound_tracks S c ?k'"
        using tracks by (simp add: inbound_tracks_def omap_ok_erase)
          (simp add: omap_erase_def le_trans [OF length_filter_le])
      moreover have "window_of ?k' = (unat (i_next k), filter (\<lambda>j. j \<noteq> unat index) (snd (window_of k)))"
        by (simp add: window_of_def omap_erase_def filter_map comp_def case_prod_unfold
            word_unat_eq_iff [symmetric])
      moreover have "unat index \<in> set (snd (window_of k))"
        using Some unat_skipped_mem [of index "i_skipped k"] by (simp add: window_of_def)
      ultimately show ?thesis
        using True lt len Some key by (simp add: window_take_def take_message_key_def window_of_def)
    qed
  next
    case False
    then have le: "i_next k \<le> index" by simp
    then have le': "unat (i_next k) \<le> unat index" by (simp add: word_le_nat_alt)
    have diff: "unat (index - i_next k) = unat index - unat (i_next k)" by (rule unat_sub [OF le])
    show ?thesis
    proof (cases "unat (index - i_next k) > MAX_SKIPPED_MESSAGE_KEYS")
      case True
      with False le' len diff show ?thesis
        by (simp add: window_take_def window_of_def take_message_key_def)
    next
      case near: False
      obtain k1 where k1: "skip_to S index k = (True, k1)" "inbound_tracks S c k1" "i_next k1 = index"
        "map (\<lambda>x. unat (fst x)) (i_skipped k1) = pop_front_while MAX_SKIPPED_MESSAGE_KEYS
           (map (\<lambda>x. unat (fst x)) (i_skipped k) @ [unat (i_next k)..<unat index])"
        using skip_to_tracks [OF assms(1,2) le] by blast
      let ?step = "derive_ratchet_step S (i_chain k1)"
      let ?k' = "k1\<lparr>i_chain := rs_next_chain ?step, i_next := index + 1\<rparr>"
      have suc: "unat (index + 1) = Suc (unat index)" by (rule u32_suc [OF u32_below_max [OF assms(3)]])
      have key: "rs_message_key ?step = mkey_at S c (unat index)" "length (rs_message_key ?step) = 32"
        using k1 assms(1) by (simp_all add: inbound_tracks_def mkey_at_def derive_lengths length_chain_at)
      have "fst x < index + 1" if "x \<in> set (i_skipped k1)" for x
        using that k1(2,3) suc by (force simp: inbound_tracks_def word_less_nat_alt)
      then have "inbound_tracks S c ?k'"
        using k1 suc by (simp add: inbound_tracks_def chain_at_Suc)
      moreover have "window_of ?k' = (Suc (unat index), pop_front_while MAX_SKIPPED_MESSAGE_KEYS
          (map (\<lambda>x. unat (fst x)) (i_skipped k) @ [unat (i_next k)..<unat index]))"
        using k1 suc by (simp add: window_of_def)
      ultimately show ?thesis
        using False near le' len diff k1 key
        by (simp add: window_take_def window_of_def take_message_key_def)
    qed
  qed
qed

section \<open>Each key once\<close>

definition index_open :: "inbound \<Rightarrow> u32 \<Rightarrow> bool" where
  "index_open k i \<longleftrightarrow> i_next k \<le> i \<or> map_of (i_skipped k) i \<noteq> None"

lemma index_open_window:
  "index_open k i \<longleftrightarrow> fst (window_of k) \<le> unat i \<or> unat i \<in> set (snd (window_of k))"
  using unat_skipped_mem [of i "i_skipped k"]
  by (simp add: index_open_def window_of_def word_le_nat_alt del: set_map)

lemma window_take_open:
  assumes "window_take i w = Some w'" and "\<forall>p \<in> set (snd w). p < fst w"
  shows "fst w \<le> i \<or> i \<in> set (snd w)"
    and "\<not> (fst w' \<le> i \<or> i \<in> set (snd w'))"
    and "fst w' \<le> j \<or> j \<in> set (snd w') \<Longrightarrow> fst w \<le> j \<or> j \<in> set (snd w)"
proof -
  obtain n ps where w: "w = (n, ps)" by (cases w)
  have sub: "set (pop_front_while MAX_SKIPPED_MESSAGE_KEYS (ps @ [n..<i])) \<subseteq> set ps \<union> {n..<i}"
    using set_pop_front_while [of MAX_SKIPPED_MESSAGE_KEYS "ps @ [n..<i]"] by simp
  show "fst w \<le> i \<or> i \<in> set (snd w)" "\<not> (fst w' \<le> i \<or> i \<in> set (snd w'))"
    "fst w' \<le> j \<or> j \<in> set (snd w') \<Longrightarrow> fst w \<le> j \<or> j \<in> set (snd w)"
    using assms sub unfolding w window_take_def by (auto split: if_splits)
qed

lemma tracks_window_below: "inbound_tracks S c k \<Longrightarrow> \<forall>p \<in> set (snd (window_of k)). p < fst (window_of k)"
  by (auto simp: inbound_tracks_def window_of_def word_less_nat_alt)

interpretation rk: one_time_keys "take_message_key S" "\<lambda>k. sodium_ok S \<and> inbound_tracks S c k" "\<lambda>i. i \<noteq> - 1"
  index_open "\<lambda>i. mkey_at S c (unat i)" for S c
proof
  fix k i key k'
  assume ok: "sodium_ok S \<and> inbound_tracks S c k" and i: "i \<noteq> - 1"
    and t: "take_message_key S i k = (Some key, k')"
  from ok i take_refines [of S c k i] t obtain w where w: "window_take (unat i) (window_of k) = Some w"
    and k': "key = mkey_at S c (unat i)" "inbound_tracks S c k'" "window_of k' = w"
    by (auto split: option.splits)
  note opn = window_take_open [OF w tracks_window_below]
  from ok k' opn show "(sodium_ok S \<and> inbound_tracks S c k') \<and> key = mkey_at S c (unat i) \<and> index_open k i \<and>
      \<not> index_open k' i \<and> (\<forall>j. index_open k' j \<longrightarrow> index_open k j)"
    unfolding index_open_window by blast
next
  fix k i k'
  assume ok: "sodium_ok S \<and> inbound_tracks S c k" and i: "i \<noteq> - 1"
    and t: "take_message_key S i k = (None, k')"
  from ok i take_refines [of S c k i] t show "k' = k" by (auto split: option.splits)
qed

text \<open>
  C10: The receiving chain implements its window exactly: a message key is handed out if
  and only if the index is at most 200 ahead of the chain or is one of the at most 200
  most recent indexes skipped and not yet used, the key is the sender's key for that
  index, and a refused request changes nothing.
\<close>

theorem take_message_key_window:
  assumes "sodium_ok S" and "inbound_tracks S c k" and "index \<noteq> - 1"
  shows "case window_take (unat index) (window_of k) of
      None \<Rightarrow> take_message_key S index k = (None, k)
    | Some w \<Rightarrow> \<exists>k'. take_message_key S index k = (Some (mkey_at S c (unat index)), k') \<and>
        inbound_tracks S c k' \<and> window_of k' = w"
  by (rule take_refines [OF assms])

lemma sample_window: "window_take 3 (window_of (inbound_new c)) = Some (4, [0, 1, 2])"
  by (simp add: window_take_def window_of_def inbound_new_def MAX_SKIPPED_MESSAGE_KEYS_def upt_rec)

theorem take_message_key_window_witness:
  "\<exists>k'. take_message_key toy_sodium 3 (inbound_new (replicate 32 7)) =
      (Some (mkey_at toy_sodium (replicate 32 7) 3), k') \<and> window_of k' = (4, [0, 1, 2])"
  using take_message_key_window [OF toy_sodium_ok inbound_new_tracks, of "replicate 32 7" 3]
  by (auto simp: sample_window)

fun take_message_keys :: "sodium_api \<Rightarrow> u32 list \<Rightarrow> inbound \<Rightarrow> bytes option list \<times> inbound" where
  "take_message_keys S [] k = ([], k)"
| "take_message_keys S (i # is) k =
     (let (r, k) = take_message_key S i k; (rs, k) = take_message_keys S is k in (r # rs, k))"

lemma take_message_keys_requests: "take_message_keys S is k = rk.requests S is k"
  by (induction "is" arbitrary: k) (simp_all add: Let_def case_prod_unfold)



end
