(* ===== verification/Room_Messages.thy ===== *)
theory Room_Messages
  imports Ratchet
begin

text \<open>
  Correctness of sealing and opening room messages, of the envelopes that carry a chain
  key, of the texts that are signed, and of the saved form of a chain (the operations
  are those of \<open>Room_Crypto\<close>).
\<close>

section \<open>Sealing and opening\<close>

definition outbound_tracks :: "sodium_api \<Rightarrow> bytes \<Rightarrow> outbound \<Rightarrow> bool" where
  "outbound_tracks S c k \<longleftrightarrow> length c = 32 \<and> o_chain k = chain_at S c (unat (o_index k))"

lemma outbound_generate_tracks: "length c = 32 \<Longrightarrow> outbound_tracks S c (outbound_generate S c raw)"
  by (simp add: outbound_tracks_def outbound_generate_def)

lemma seal_room_message_eq:
  assumes "sodium_ok S" and "outbound_tracks S c out" and "length ed_sk = 64" and "length nonce = 24"
    and "o_index out \<noteq> - 1"
  obtains ct sig where
    "so_aead_decrypt S (mkey_at S c (unat (o_index out))) nonce
       (bytes_of (build_message_aad room sender epoch (o_key_id out) (o_index out))) ct = Some (bytes_of plaintext)"
    and "length ct = length plaintext + 16" and "length sig = 64"
    and "so_sign_verify_detached S (so_sign_sk_to_pk S ed_sk) (bytes_of (sign_input_for_message
       (build_message_aad room sender epoch (o_key_id out) (o_index out)) (to_b64 S nonce) (to_b64 S ct))) sig"
    and "seal_room_message S nonce epoch room sender plaintext ed_sk out =
       (Some \<lparr>sl_epoch = epoch, sl_key_id = o_key_id out, sl_index = o_index out, sl_nonce_b64 = to_b64 S nonce,
          sl_ciphertext_b64 = to_b64 S ct, sl_signature_b64 = to_b64 S sig\<rparr>,
        out\<lparr>o_chain := chain_at S c (Suc (unat (o_index out))), o_index := o_index out + 1\<rparr>)"
proof -
  let ?i = "unat (o_index out)" and ?aad = "build_message_aad room sender epoch (o_key_id out) (o_index out)"
  let ?step = "derive_ratchet_step S (o_chain out)"
  have c: "length c = 32" "o_chain out = chain_at S c ?i" using assms(2) by (simp_all add: outbound_tracks_def)
  have key: "rs_message_key ?step = mkey_at S c ?i" "rs_next_chain ?step = chain_at S c (Suc ?i)"
    using c by (simp_all add: mkey_at_def chain_at_Suc)
  have len: "length (mkey_at S c ?i) = 32" "length (chain_at S c (Suc ?i)) = 32"
    using c assms(1) by (simp_all add: length_mkey_at length_chain_at)
  obtain ct where ct: "so_aead_encrypt S (mkey_at S c ?i) nonce (bytes_of ?aad) (bytes_of plaintext) = Some ct"
    "length ct = length plaintext + 16"
    "so_aead_decrypt S (mkey_at S c ?i) nonce (bytes_of ?aad) ct = Some (bytes_of plaintext)"
    using sodium_ok_aead [OF assms(1) len(1) assms(4), of "bytes_of ?aad" "bytes_of plaintext"] by auto
  let ?txt = "bytes_of (sign_input_for_message ?aad (to_b64 S nonce) (to_b64 S ct))"
  obtain sig where sig: "so_sign_detached S ed_sk ?txt = Some sig" "length sig = 64"
    "so_sign_verify_detached S (so_sign_sk_to_pk S ed_sk) ?txt sig"
    using sodium_ok_sign [OF assms(1,3), of ?txt] by auto
  show thesis
    by (rule that [OF ct(3,2) sig(2,3)])
      (use assms(3) key len ct(1) sig(1) in
        \<open>simp add: seal_room_message_def Let_def outbound_advance_def ROOM_KEY_BYTES_def\<close>)
qed

lemma open_room_message_eq:
  assumes "sodium_ok S" and "length ed_pk = 32" and "length ct \<le> 3072" and "16 \<le> length ct"
    and "length nonce = 24" and "length sig = 64"
    and "so_sign_verify_detached S ed_pk (bytes_of (sign_input_for_message
       (build_message_aad room sender epoch key_id index) (to_b64 S nonce) (to_b64 S ct))) sig"
    and "take_message_key S index ich = (Some key, ich')"
    and "so_aead_decrypt S key nonce (bytes_of (build_message_aad room sender epoch key_id index)) ct =
      Some (bytes_of plaintext)"
  shows "open_room_message S \<lparr>sl_epoch = epoch, sl_key_id = key_id, sl_index = index,
      sl_nonce_b64 = to_b64 S nonce, sl_ciphertext_b64 = to_b64 S ct, sl_signature_b64 = to_b64 S sig\<rparr>
      room sender ed_pk ich = (Some plaintext, ich')"
  using assms by (simp add: open_room_message_def Let_def from_to_b64)

lemma seal_open_roundtrip_core:
  assumes "sodium_ok S" and "outbound_tracks S c out" and "inbound_tracks S c ich"
    and "length ed_sk = 64" and "length nonce = 24" and "o_index out \<noteq> - 1"
    and "window_take (unat (o_index out)) (window_of ich) = Some w"
    and "length plaintext \<le> 3056"
  shows "\<exists>sealed out' ich'.
    seal_room_message S nonce epoch room sender plaintext ed_sk out = (Some sealed, out') \<and>
    outbound_tracks S c out' \<and> o_index out' = o_index out + 1 \<and>
    open_room_message S sealed room sender (so_sign_sk_to_pk S ed_sk) ich = (Some plaintext, ich') \<and>
    inbound_tracks S c ich' \<and> window_of ich' = w"
proof -
  obtain ct sig where s:
    "so_aead_decrypt S (mkey_at S c (unat (o_index out))) nonce
       (bytes_of (build_message_aad room sender epoch (o_key_id out) (o_index out))) ct = Some (bytes_of plaintext)"
    "length ct = length plaintext + 16" "length sig = 64"
    "so_sign_verify_detached S (so_sign_sk_to_pk S ed_sk) (bytes_of (sign_input_for_message
       (build_message_aad room sender epoch (o_key_id out) (o_index out)) (to_b64 S nonce) (to_b64 S ct))) sig"
    "seal_room_message S nonce epoch room sender plaintext ed_sk out =
       (Some \<lparr>sl_epoch = epoch, sl_key_id = o_key_id out, sl_index = o_index out, sl_nonce_b64 = to_b64 S nonce,
          sl_ciphertext_b64 = to_b64 S ct, sl_signature_b64 = to_b64 S sig\<rparr>,
        out\<lparr>o_chain := chain_at S c (Suc (unat (o_index out))), o_index := o_index out + 1\<rparr>)"
    by (rule seal_room_message_eq [OF assms(1,2,4,5,6)])
  from take_refines [OF assms(1,3,6)] assms(7) obtain ich' where t:
    "take_message_key S (o_index out) ich = (Some (mkey_at S c (unat (o_index out))), ich')"
    "inbound_tracks S c ich'" "window_of ich' = w" by auto
  have "unat (o_index out + 1) = Suc (unat (o_index out))"
    by (rule u32_suc [OF u32_below_max [OF assms(6)]])
  with assms(2) have "outbound_tracks S c (out\<lparr>o_chain := chain_at S c (Suc (unat (o_index out))), o_index := o_index out + 1\<rparr>)"
    by (simp add: outbound_tracks_def)
  with s t open_room_message_eq [OF assms(1) sodium_ok_pk(1) [OF assms(1,4)] _ _ assms(5) s(3,4) t(1) s(1)] assms(8)
  show ?thesis by (auto simp del: sodium_sizes)
qed

text \<open>
  C9: Sealing always succeeds with well-formed keys, moves the sender's chain on by one
  step, and every receiver that holds the same chain and whose window admits the index
  opens the message to the original text, provided the text has at most 3056 bytes.
\<close>

theorem seal_open_roundtrip:
  assumes "sodium_ok S" and "outbound_tracks S c out" and "inbound_tracks S c ich"
    and "length ed_sk = 64" and "length nonce = 24" and "o_index out \<noteq> - 1"
    and "window_take (unat (o_index out)) (window_of ich) = Some w"
    and "length plaintext \<le> 3056"
  shows "\<exists>sealed out' ich'.
    seal_room_message S nonce epoch room sender plaintext ed_sk out = (Some sealed, out') \<and>
    outbound_tracks S c out' \<and> o_index out' = o_index out + 1 \<and>
    open_room_message S sealed room sender (so_sign_sk_to_pk S ed_sk) ich = (Some plaintext, ich') \<and>
    inbound_tracks S c ich' \<and> window_of ich' = w"
  by (rule seal_open_roundtrip_core [OF assms])

theorem seal_open_roundtrip_witness:
  "\<exists>sealed out' ich'.
    seal_room_message toy_sodium (replicate 24 9) 1 ''general'' ''al'' ''hi'' (replicate 64 5)
      (outbound_generate toy_sodium (replicate 32 7) (replicate 4 1)) = (Some sealed, out') \<and>
    open_room_message toy_sodium sealed ''general'' ''al'' (so_sign_sk_to_pk toy_sodium (replicate 64 5))
      (inbound_new (replicate 32 7)) = (Some ''hi'', ich') \<and> window_of ich' = (1, [])"
proof -
  let ?out = "outbound_generate toy_sodium (replicate 32 7) (replicate 4 1)"
  have w: "window_take (unat (o_index ?out)) (window_of (inbound_new (replicate 32 7))) = Some (1, [])"
    by (simp add: window_take_def window_of_def inbound_new_def outbound_generate_def MAX_SKIPPED_MESSAGE_KEYS_def)
  show ?thesis
    using seal_open_roundtrip [OF toy_sodium_ok outbound_generate_tracks inbound_new_tracks _ _ _ w,
        of "replicate 64 5" "replicate 24 9" "''hi''" 1 "''general''" "''al''"]
    by (auto simp: outbound_generate_def)
qed

text \<open>
  C39: A text of more than 3056 bytes is sealed like any other, but what was sealed is
  refused by every receiver, whatever its chain: the ciphertext's base64 form exceeds
  the 4096 characters that the decoder accepts.
\<close>

theorem long_message_never_opens:
  assumes "sodium_ok S" and "outbound_tracks S c out" and "length ed_sk = 64" and "length nonce = 24"
    and "o_index out \<noteq> - 1" and "length plaintext > 3056"
  shows "\<exists>sealed out'. seal_room_message S nonce epoch room sender plaintext ed_sk out = (Some sealed, out') \<and>
    (\<forall>room' sender' pk ich. open_room_message S sealed room' sender' pk ich = (None, ich))"
proof -
  obtain ct sig where s: "length ct = length plaintext + 16"
    "seal_room_message S nonce epoch room sender plaintext ed_sk out =
       (Some \<lparr>sl_epoch = epoch, sl_key_id = o_key_id out, sl_index = o_index out, sl_nonce_b64 = to_b64 S nonce,
          sl_ciphertext_b64 = to_b64 S ct, sl_signature_b64 = to_b64 S sig\<rparr>,
        out\<lparr>o_chain := chain_at S c (Suc (unat (o_index out))), o_index := o_index out + 1\<rparr>)"
    by (rule seal_room_message_eq [OF assms(1-5)])
  from s(1) assms(1,6) have "from_b64 S (to_b64 S ct) = []" by (simp add: from_to_b64_long)
  with s(2) show ?thesis by (auto simp: open_room_message_def Let_def)
qed

theorem long_message_never_opens_witness:
  "\<exists>sealed out'. seal_room_message toy_sodium (replicate 24 9) 1 ''general'' ''al'' (replicate 3057 CHR ''x'')
      (replicate 64 5) (outbound_generate toy_sodium (replicate 32 7) (replicate 4 1)) = (Some sealed, out') \<and>
    (\<forall>ich. open_room_message toy_sodium sealed ''general'' ''al'' (replicate 32 5) ich = (None, ich))"
  using long_message_never_opens [OF toy_sodium_ok outbound_generate_tracks, of "replicate 32 7"
      "replicate 64 5" "replicate 24 9" "replicate 4 1" "replicate 3057 CHR ''x''" 1 "''general''" "''al''"]
  by (fastforce simp: outbound_generate_def)

lemma skip_to_total:
  assumes "sodium_ok S" and "length (i_chain k) = 32"
  shows "\<exists>k'. skip_to S i k = (True, k') \<and> length (i_chain k') = 32"
  using assms
proof (induction S i k rule: skip_to.induct)
  case (1 S i k)
  have "\<exists>k'. skip_one S k = Some k' \<and> length (i_chain k') = 32"
    using derive_lengths [OF "1.prems"] by (simp add: skip_one_def Let_def)
  then obtain k' where k': "skip_one S k = Some k'" "length (i_chain k') = 32" by blast
  show ?case
  proof (cases "i_next k < i")
    case True
    with "1.IH" [OF True k'(1) "1.prems"(1) k'(2)] k' show ?thesis by (simp add: skip_to.simps [of S i k])
  qed (use "1.prems" in \<open>simp add: skip_to.simps [of S i k]\<close>)
qed

lemma take_refused_unchanged:
  assumes "sodium_ok S" and "take_message_key S i k = (None, k')"
  shows "k' = k"
proof (cases "length (i_chain k) = 32")
  case True
  obtain k1 where k1: "skip_to S i k = (True, k1)" "length (i_chain k1) = 32"
    using skip_to_total [OF assms(1) True] by blast
  with derive_lengths [OF assms(1) k1(2)] assms(2) True show ?thesis
    by (auto simp: take_message_key_def ROOM_KEY_BYTES_def Let_def split: option.splits if_splits)
qed (use assms in \<open>simp add: take_message_key_def ROOM_KEY_BYTES_def\<close>)

text \<open>
  C12: A message that is not opened leaves the receiving chain as it was. A message that
  is opened carries a signature that verifies under the given key over room, sender,
  epoch, key id, index, nonce and ciphertext, and its text is the decryption, under the
  one-time key of its index, of the ciphertext bound to the same data.
\<close>

theorem open_authentic:
  assumes "sodium_ok S" and "open_room_message S sealed room sender pk ich = (r, ich')"
  shows "case r of
      None \<Rightarrow> ich' = ich
    | Some plaintext \<Rightarrow> (let aad = build_message_aad room sender (sl_epoch sealed) (sl_key_id sealed) (sl_index sealed) in
        so_sign_verify_detached S pk
          (bytes_of (sign_input_for_message aad (sl_nonce_b64 sealed) (sl_ciphertext_b64 sealed)))
          (from_b64 S (sl_signature_b64 sealed)) \<and>
        (\<exists>key. take_message_key S (sl_index sealed) ich = (Some key, ich') \<and>
           so_aead_decrypt S key (from_b64 S (sl_nonce_b64 sealed)) (bytes_of aad)
             (from_b64 S (sl_ciphertext_b64 sealed)) = Some (bytes_of plaintext)))"
  using assms(2) take_refused_unchanged [OF assms(1), of "sl_index sealed" ich]
  by (auto simp: open_room_message_def Let_def split: if_splits prod.splits option.splits)

theorem open_authentic_witness:
  "open_room_message toy_sodium \<lparr>sl_epoch = 1, sl_key_id = ''0a0a0a0a'', sl_index = 0, sl_nonce_b64 = ''AA=='',
     sl_ciphertext_b64 = ''AA=='', sl_signature_b64 = ''AA==''\<rparr> ''general'' ''al'' (replicate 32 5)
     (inbound_new (replicate 32 7)) = (None, inbound_new (replicate 32 7))"
  (is "?m = _")
proof -
  have "from_b64 toy_sodium ''AA=='' = [0]"
    by (simp add: from_b64_def is_valid_b64_chars_def isupper_c_def toy_sodium_def b64_dec_digit_def
        b64_alphabet_def)
  then have "fst ?m = None" by (simp add: open_room_message_def Let_def)
  then obtain ich' where m: "?m = (None, ich')" by (cases ?m) simp
  with open_authentic [OF toy_sodium_ok m] show ?thesis by simp
qed

section \<open>What is signed\<close>

lemma bar_free_numbers [simp]: "bar_free (u64_to_string e)" "bar_free (u32_to_string i)"
  by (simp_all add: bar_free_def u64_to_string_def u32_to_string_def bar_not_digit)

lemma bar_cancel:
  "bar_free a \<Longrightarrow> bar_free b \<Longrightarrow> a @ CHR ''|'' # x = b @ CHR ''|'' # y \<longleftrightarrow> a = b \<and> x = y"
  using bar_split [of a x b y] by (auto simp: bar_free_def)

lemma number_strings_inject [simp]:
  "u64_to_string e = u64_to_string e' \<longleftrightarrow> e = e'" "u32_to_string i = u32_to_string i' \<longleftrightarrow> i = i'"
  by (simp_all add: u64_to_string_def u32_to_string_def word_unat_eq_iff [symmetric])

text \<open>
  The signed texts are unambiguous: for names without a bar, two room messages with
  the same signed text agree in room, sender, epoch, key id, index, nonce and
  ciphertext, two envelopes agree in all their fields, and no text is both the signed
  text of a message and of an envelope.
\<close>

theorem signed_texts_unambiguous:
  assumes "list_all bar_free [room, sender, key_id, n, room', sender', key_id', n', recipient, recipient']"
  shows "(sign_input_for_message (build_message_aad room sender epoch key_id index) n c =
       sign_input_for_message (build_message_aad room' sender' epoch' key_id' index') n' c' \<longleftrightarrow>
       room = room' \<and> sender = sender' \<and> epoch = epoch' \<and> key_id = key_id' \<and> index = index' \<and> n = n' \<and> c = c') \<and>
    (sign_input_for_envelope room sender recipient epoch key_id n c =
       sign_input_for_envelope room' sender' recipient' epoch' key_id' n' c' \<longleftrightarrow>
       room = room' \<and> sender = sender' \<and> recipient = recipient' \<and> epoch = epoch' \<and> key_id = key_id' \<and>
       n = n' \<and> c = c') \<and>
    sign_input_for_message (build_message_aad room sender epoch key_id index) n c \<noteq>
      sign_input_for_envelope room' sender' recipient' epoch' key_id' n' c'"
  using assms by (simp add: sign_input_for_message_def build_message_aad_def sign_input_for_envelope_def bar_cancel)

theorem signed_texts_unambiguous_witness:
  "sign_input_for_message (build_message_aad ''general'' ''al'' 1 ''0a0a0a0a'' 2) ''AA'' ''BB'' \<noteq>
   sign_input_for_message (build_message_aad ''general'' ''al'' 1 ''0a0a0a0a'' 3) ''AA'' ''BB''"
  using signed_texts_unambiguous [of "''general''" "''al''" "''0a0a0a0a''" "''AA''" "''general''" "''al''"
      "''0a0a0a0a''" "''AA''" "[]" "[]" 1 2 "''BB''" 1 3 "''BB''"]
  by (simp add: bar_free_def)

section \<open>Envelopes\<close>

lemma read_inner_json:
  assumes "json_ok J" and "sodium_ok S" and "length chain_key = 32"
  shows "read_inner J S (inner_json J S room epoch key_id chain_key x_pk ed_pk) =
    Some \<lparr>ske_room = room, ske_epoch = epoch, ske_key_id = key_id, ske_chain_key = chain_key,
      ske_sender_x25519_b64 = to_b64 S x_pk, ske_sender_ed25519_b64 = to_b64 S ed_pk\<rparr>"
  using assms by (simp add: read_inner_def inner_json_def json_obj_simps from_to_b64)

lemma b64_bound:
  assumes "sodium_ok S" and "length (to_b64 S d) \<le> 4096"
  shows "length d \<le> 3072"
  using assms by (auto simp: to_b64_eq sodium_ok_base64)

lemma wrap_sender_key_envelope_Some:
  assumes "wrap_sender_key_envelope J S nonce room sender recipient epoch key_id chain_key x_pk x_sk ed_sk r_pk
      = Some (Some w)"
  obtains inner box sig where
    "length chain_key = 32" "is_valid_key_id key_id" "length x_pk = 32" "length x_sk = 32" "length ed_sk = 64"
    "j_dump J (inner_json J S room epoch key_id chain_key x_pk (so_sign_sk_to_pk S ed_sk)) = Some inner"
    "so_box_easy S r_pk x_sk nonce (bytes_of inner) = Some box"
    "so_sign_detached S ed_sk (bytes_of (sign_input_for_envelope room sender recipient epoch key_id
       (to_b64 S nonce) (to_b64 S box))) = Some sig"
    "w = \<lparr>we_nonce_b64 = to_b64 S nonce, we_box_b64 = to_b64 S box, we_signature_b64 = to_b64 S sig,
       we_sender_x25519_b64 = to_b64 S x_pk, we_sender_ed25519_b64 = to_b64 S (so_sign_sk_to_pk S ed_sk)\<rparr>"
  using assms
  by (auto simp: wrap_sender_key_envelope_def Let_def ROOM_KEY_BYTES_def bind_eq_Some_conv
      split: if_splits option.splits)

lemma envelope_roundtrip_core:
  assumes "json_ok J" and "sodium_ok S" and "length nonce = 24" and "length r_sk = 32"
    and "wrap_sender_key_envelope J S nonce room sender recipient epoch key_id chain_key
      (so_box_pk S x_sk) x_sk ed_sk (so_box_pk S r_sk) = Some (Some w)"
    and "length (we_box_b64 w) \<le> MAX_ROOM_KEY_B64_LENGTH"
  shows "unwrap_sender_key_envelope J S room sender recipient epoch key_id w r_sk
      (so_box_pk S x_sk) (so_sign_sk_to_pk S ed_sk) =
    Some \<lparr>ske_room = room, ske_epoch = epoch, ske_key_id = key_id, ske_chain_key = chain_key,
      ske_sender_x25519_b64 = to_b64 S (so_box_pk S x_sk),
      ske_sender_ed25519_b64 = to_b64 S (so_sign_sk_to_pk S ed_sk)\<rparr>"
proof -
  obtain inner box sig where w:
    "length chain_key = 32" "is_valid_key_id key_id" "length (so_box_pk S x_sk) = 32" "length x_sk = 32"
    "length ed_sk = 64"
    "j_dump J (inner_json J S room epoch key_id chain_key (so_box_pk S x_sk) (so_sign_sk_to_pk S ed_sk)) = Some inner"
    "so_box_easy S (so_box_pk S r_sk) x_sk nonce (bytes_of inner) = Some box"
    "so_sign_detached S ed_sk (bytes_of (sign_input_for_envelope room sender recipient epoch key_id
       (to_b64 S nonce) (to_b64 S box))) = Some sig"
    "w = \<lparr>we_nonce_b64 = to_b64 S nonce, we_box_b64 = to_b64 S box, we_signature_b64 = to_b64 S sig,
       we_sender_x25519_b64 = to_b64 S (so_box_pk S x_sk), we_sender_ed25519_b64 = to_b64 S (so_sign_sk_to_pk S ed_sk)\<rparr>"
    by (rule wrap_sender_key_envelope_Some [OF assms(5)])
  let ?txt = "bytes_of (sign_input_for_envelope room sender recipient epoch key_id (to_b64 S nonce) (to_b64 S box))"
  from sodium_ok_sign [OF assms(2) w(5), of ?txt] w(8)
  have sig: "length sig = 64" "so_sign_verify_detached S (so_sign_sk_to_pk S ed_sk) ?txt sig" by auto
  from sodium_ok_box [OF assms(2) w(4) assms(4,3) w(7)]
  have box: "length box = length inner + 16"
    "so_box_open_easy S (so_box_pk S x_sk) r_sk nonce box = Some (bytes_of inner)" by simp_all
  have "length box \<le> 3072"
    using b64_bound [OF assms(2), of box] assms(6) w(9) by (simp add: MAX_ROOM_KEY_B64_LENGTH_def)
  moreover have "j_is_object J (inner_json J S room epoch key_id chain_key (so_box_pk S x_sk) (so_sign_sk_to_pk S ed_sk))"
    using assms(1) by (simp add: inner_json_def json_ok_obj)
  ultimately show ?thesis
    using w sig box assms(1-4) sodium_ok_pk(1) [OF assms(2) w(5)]
    by (simp add: unwrap_sender_key_envelope_def Let_def from_to_b64 json_ok_parse_dump read_inner_json
        envelope_consistent_def ROOM_KEY_BYTES_def)
qed

text \<open>
  C13: An envelope that the server's size limit lets through is unwrapped by the recipient
  it was made for, with the sender's public keys, to the room, epoch, key id and chain
  key that were wrapped.
\<close>

theorem envelope_roundtrip:
  assumes "json_ok J" and "sodium_ok S" and "length nonce = 24" and "length r_sk = 32"
    and "wrap_sender_key_envelope J S nonce room sender recipient epoch key_id chain_key
      (so_box_pk S x_sk) x_sk ed_sk (so_box_pk S r_sk) = Some (Some w)"
    and "length (we_box_b64 w) \<le> MAX_ROOM_KEY_B64_LENGTH"
  shows "unwrap_sender_key_envelope J S room sender recipient epoch key_id w r_sk
      (so_box_pk S x_sk) (so_sign_sk_to_pk S ed_sk) =
    Some \<lparr>ske_room = room, ske_epoch = epoch, ske_key_id = key_id, ske_chain_key = chain_key,
      ske_sender_x25519_b64 = to_b64 S (so_box_pk S x_sk),
      ske_sender_ed25519_b64 = to_b64 S (so_sign_sk_to_pk S ed_sk)\<rparr>"
  by (rule envelope_roundtrip_core [OF assms])

lemma length_to_b64: "sodium_ok S \<Longrightarrow> length (to_b64 S d) = 4 * ((length d + 2) div 3)"
  by (simp add: to_b64_eq sodium_ok_base64)

lemma sample_envelope:
  "\<exists>w. wrap_sender_key_envelope jval_api toy_sodium nonce ''general'' ''al'' ''bo'' 1 ''0a0a0a0a''
      (replicate 32 7) (so_box_pk toy_sodium (replicate 32 3)) (replicate 32 3) (replicate 64 q)
      (so_box_pk toy_sodium (replicate 32 4)) = Some (Some w) \<and> length (we_box_b64 w) \<le> MAX_ROOM_KEY_B64_LENGTH"
proof -
  let ?inner = "inner_json jval_api toy_sodium ''general'' 1 ''0a0a0a0a'' (replicate 32 7)
    (so_box_pk toy_sodium (replicate 32 3)) (so_sign_sk_to_pk toy_sodium (replicate 64 q))"
  have pk: "length (so_box_pk toy_sodium (replicate 32 n)) = 32"
    "length (so_sign_sk_to_pk toy_sodium (replicate 64 n)) = 32" for n
    using sodium_ok_pk [OF toy_sodium_ok] by simp_all
  have "length (put_jval ?inner) \<le> 1000"
    by (simp add: inner_json_def jval_api_def length_put_str length_to_b64 [OF toy_sodium_ok] pk nat_to_string.simps)
  then have "length (to_b64 toy_sodium (bytes_of (put_jval ?inner) @ replicate 16 0)) \<le> MAX_ROOM_KEY_B64_LENGTH"
    by (simp add: length_to_b64 [OF toy_sodium_ok] MAX_ROOM_KEY_B64_LENGTH_def)
  moreover have "j_dump jval_api j = Some (put_jval j)" "so_box_easy toy_sodium pk' sk n m = Some (m @ replicate 16 0)"
    "so_sign_detached toy_sodium sk m = Some (take 32 sk @ replicate 32 0)" for j pk' sk n m
    by (simp_all add: jval_api_def toy_sodium_def)
  moreover have "is_valid_key_id ''0a0a0a0a''" by (simp add: is_valid_key_id_def isdigit_c_def)
  ultimately show ?thesis
    by (simp add: wrap_sender_key_envelope_def Let_def ROOM_KEY_BYTES_def pk)
qed

theorem envelope_roundtrip_witness:
  "\<exists>w env. unwrap_sender_key_envelope jval_api toy_sodium ''general'' ''al'' ''bo'' 1 ''0a0a0a0a'' w (replicate 32 4)
      (so_box_pk toy_sodium (replicate 32 3)) (so_sign_sk_to_pk toy_sodium (replicate 64 5)) = Some env \<and>
    ske_chain_key env = replicate 32 7"
proof -
  from sample_envelope obtain w where
    "wrap_sender_key_envelope jval_api toy_sodium (replicate 24 9) ''general'' ''al'' ''bo'' 1 ''0a0a0a0a''
      (replicate 32 7) (so_box_pk toy_sodium (replicate 32 3)) (replicate 32 3) (replicate 64 5)
      (so_box_pk toy_sodium (replicate 32 4)) = Some (Some w)" "length (we_box_b64 w) \<le> MAX_ROOM_KEY_B64_LENGTH"
    by blast
  from envelope_roundtrip [OF jval_api_ok toy_sodium_ok _ _ this] show ?thesis
    by (intro exI [of _ w]) simp
qed

section \<open>Saved chains\<close>

lemma ucast_u32_u64 [simp]: "(ucast (ucast (i :: u32) :: u64) :: u32) = i"
  by (rule bit_word_eqI) (auto simp: bit_simps)

lemma outbound_state_roundtrip:
  assumes "json_ok J" and "sodium_ok S" and "length (o_chain k) = 32" and "is_valid_key_id (o_key_id k)"
    and "outbound_serialize_state J S k = Some s"
  shows "outbound_deserialize_state J S s = Some k"
proof -
  have "j_parse J s = Some (outbound_json J S k)"
    using assms(1,5) by (simp add: outbound_serialize_state_def json_ok_parse_dump)
  then show ?thesis
    using assms(1-4)
    by (simp add: outbound_deserialize_state_def outbound_json_def json_obj_simps j_at_u32_def from_to_b64
        outbound_from_chain_def ROOM_KEY_BYTES_def)
qed

lemma stoul_u32_to_string [simp]: "stoul_u32 (u32_to_string i) = Some i"
proof -
  obtain c t where s: "nat_to_string (unat i) = c # t" by (cases "nat_to_string (unat i)") simp_all
  have d: "\<forall>x \<in> set (c # t). isdigit_c x" using nat_to_string_digits [of _ "unat i"] s by auto
  then have c: "isdigit_c c" by simp
  then have "\<not> isspace_c c" "c \<noteq> CHR ''-''" "c \<noteq> CHR ''+''"
    by (auto simp: isdigit_c_def isspace_c_def)
  moreover have tw: "takeWhile isdigit_c t = t" using d unfolding takeWhile_eq_all_conv by simp
  moreover have "string_to_nat (c # t) = unat i"
    using string_to_nat_nat_to_string [of "unat i"] s by simp
  moreover have "unat i < 2 ^ 64" using unsigned_less [of i, where 'a = nat] by simp
  ultimately show ?thesis using c by (simp add: stoul_u32_def u32_to_string_def s Let_def tw)
qed

definition skipped_item :: "'j json_api \<Rightarrow> sodium_api \<Rightarrow> u32 \<times> bytes \<Rightarrow> string \<times> 'j" where
  "skipped_item J S x = (u32_to_string (fst x), j_str J (to_b64 S (snd x)))"

lemma length_omap_insert: "length (omap_insert k v m) \<le> Suc (length m)"
  by (induction k v m rule: omap_insert.induct) auto

lemma load_all_items:
  assumes "json_ok J" and "sodium_ok S" and "\<forall>x \<in> set xs. length (snd x) = 32"
    and "length (i_skipped key) + length xs \<le> MAX_SKIPPED_MESSAGE_KEYS"
  shows "load_all J S (map (skipped_item J S) xs) key =
    Some (key\<lparr>i_skipped := fold (\<lambda>x. omap_insert (fst x) (snd x)) xs (i_skipped key)\<rparr>)"
  using assms(3,4)
proof (induction xs arbitrary: key)
  case (Cons x xs)
  let ?k = "key\<lparr>i_skipped := omap_insert (fst x) (snd x) (i_skipped key)\<rparr>"
  have "load_skipped J S (skipped_item J S x) key = Some ?k"
    using assms(1,2) Cons.prems
    by (simp add: load_skipped_def skipped_item_def json_ok_get from_to_b64 Let_def)
  moreover have "length (i_skipped ?k) + length xs \<le> MAX_SKIPPED_MESSAGE_KEYS"
    using Cons.prems(2) length_omap_insert [of "fst x" "snd x" "i_skipped key"] by simp
  ultimately show ?case using Cons by simp
qed simp

lemma fold_omap_insert:
  assumes "omap_ok m" and "distinct (map fst xs)"
  shows "omap_ok (fold (\<lambda>x. omap_insert (fst x) (snd x)) xs m)"
    and "map_of (fold (\<lambda>x. omap_insert (fst x) (snd x)) xs m) = map_of m ++ map_of xs"
  using assms
proof (induction xs arbitrary: m)
  case (Cons x xs)
  { case 1 then show ?case using Cons.IH(1) by (simp add: omap_ok_insert) }
  { case 2
    then have "map_of xs (fst x) = None" by (simp add: map_of_eq_None_iff)
    then have "map_of (omap_insert (fst x) (snd x) m) ++ map_of xs = map_of m ++ map_of (x # xs)"
      by (auto simp: fun_eq_iff map_add_def split: option.split)
    with 2 Cons.IH(2) [of "omap_insert (fst x) (snd x) m"] omap_ok_insert [of m "fst x" "snd x"]
    show ?case by (simp del: map_of.simps map_of_omap_insert) }
qed simp_all

lemma items_of_skipped:
  assumes "json_ok J" and "sodium_ok S" and "omap_ok m" and "\<forall>x \<in> set m. length (snd x) = 32"
  obtains xs where "j_items J (j_obj J (map (skipped_item J S) m)) = map (skipped_item J S) xs"
    and "set xs = set m" and "distinct (map fst xs)"
proof -
  let ?its = "j_items J (j_obj J (map (skipped_item J S) m))"
  define dec where "dec = (\<lambda>(k, v). (the (stoul_u32 k), from_b64 S (the (j_get_str J v))))"
  have dec: "dec (skipped_item J S x) = x" if "x \<in> set m" for x
    using that assms by (simp add: dec_def skipped_item_def json_ok_get from_to_b64)
  have d: "distinct (map fst (map (skipped_item J S) m))"
    using omap_ok_distinct [OF assms(3)]
    by (simp add: distinct_map comp_inj_on_iff [symmetric] skipped_item_def comp_def)
      (auto simp: inj_on_def distinct_map)
  have its: "distinct (map fst ?its)" "set ?its = skipped_item J S ` set m"
    using json_ok_items [OF assms(1) d] by simp_all
  have enc: "map (skipped_item J S) (map dec ?its) = ?its"
    unfolding map_map by (rule map_idI) (use its(2) dec in auto)
  have "set (map dec ?its) = set m" using its(2) dec by force
  moreover have "distinct (map fst (map dec ?its))"
  proof -
    have "distinct (map fst (map (skipped_item J S) (map dec ?its)))" using its(1) enc by simp
    then have "distinct (map u32_to_string (map fst (map dec ?its)))"
      by (simp add: skipped_item_def comp_def)
    then show ?thesis using distinct_map by blast
  qed
  ultimately show thesis using that [of "map dec ?its"] enc by simp
qed

lemma inbound_state_roundtrip:
  assumes "json_ok J" and "sodium_ok S" and "inbound_tracks S c k" and "inbound_serialize_state J S k = Some s"
  shows "inbound_deserialize_state J S s = Some k"
proof -
  have len: "length (i_chain k) = 32" "\<forall>x \<in> set (i_skipped k). length (snd x) = 32"
    using assms(2,3) by (auto simp: inbound_tracks_def length_chain_at length_mkey_at)
  obtain xs where xs: "j_items J (j_obj J (map (skipped_item J S) (i_skipped k))) = map (skipped_item J S) xs"
    "set xs = set (i_skipped k)" "distinct (map fst xs)"
    using items_of_skipped [OF assms(1,2) _ len(2)] assms(3) by (auto simp: inbound_tracks_def)
  have ok: "omap_ok (i_skipped k)" using assms(3) by (simp add: inbound_tracks_def)
  have "length xs = length (i_skipped k)"
    using xs(2,3) omap_ok_distinct [OF ok] by (metis distinct_card distinct_map)
  then have load: "load_all J S (map (skipped_item J S) xs) ((inbound_new (i_chain k))\<lparr>i_next := i_next k\<rparr>) =
      Some ((inbound_new (i_chain k))\<lparr>i_next := i_next k, i_skipped := fold (\<lambda>x. omap_insert (fst x) (snd x)) xs []\<rparr>)"
    using assms(3) xs(2) len(2) load_all_items [OF assms(1,2), of xs "(inbound_new (i_chain k))\<lparr>i_next := i_next k\<rparr>"]
    by (simp add: inbound_new_def inbound_tracks_def)
  have "map_of xs = map_of (i_skipped k)"
    using xs(2,3) omap_ok_distinct [OF ok] by (simp add: map_of_inject_set)
  then have "fold (\<lambda>x. omap_insert (fst x) (snd x)) xs [] = i_skipped k"
    using fold_omap_insert [of "[]" xs] xs(3) ok by (intro omap_ext) simp_all
  moreover have "j_parse J s = Some (inbound_json J S k)"
    using assms(1,4) by (simp add: inbound_serialize_state_def json_ok_parse_dump)
  moreover have "map (\<lambda>(i, key). (u32_to_string i, j_str J (to_b64 S key))) (i_skipped k) =
      map (skipped_item J S) (i_skipped k)"
    by (simp add: skipped_item_def case_prod_unfold)
  ultimately show ?thesis
    using assms(1,2) len(1) load xs(1)
    by (simp add: inbound_deserialize_state_def inbound_json_def json_obj_simps j_at_u32_def from_to_b64
        ROOM_KEY_BYTES_def Let_def inbound_new_def)
qed

text \<open>
  C14: Saving a chain and loading it again gives back the same chain: key id, chain key
  and index of an outbound chain, and chain key, counter and every skipped message key
  of an inbound chain.
\<close>

theorem chain_state_roundtrip:
  assumes "json_ok J" and "sodium_ok S"
    and "outbound_tracks S c out" and "is_valid_key_id (o_key_id out)" and "inbound_tracks S c' ich"
    and "outbound_serialize_state J S out = Some s" and "inbound_serialize_state J S ich = Some s'"
  shows "outbound_deserialize_state J S s = Some out \<and> inbound_deserialize_state J S s' = Some ich"
proof -
  have "length (o_chain out) = 32" using assms(2,3) by (simp add: outbound_tracks_def length_chain_at)
  with outbound_state_roundtrip [OF assms(1,2) _ assms(4,6)] inbound_state_roundtrip [OF assms(1,2,5,7)]
  show ?thesis by simp
qed

theorem chain_state_roundtrip_witness:
  "\<exists>s s'. outbound_deserialize_state jval_api toy_sodium s =
      Some (outbound_generate toy_sodium (replicate 32 7) (replicate 4 1)) \<and>
    inbound_deserialize_state jval_api toy_sodium s' = Some (inbound_new (replicate 32 7))"
proof -
  let ?out = "outbound_generate toy_sodium (replicate 32 7) (replicate 4 1)"
  have k: "is_valid_key_id (o_key_id ?out)"
    using new_key_id_valid [OF toy_sodium_ok, of "replicate 4 1"] by (simp add: outbound_generate_def)
  obtain s s' where s: "outbound_serialize_state jval_api toy_sodium ?out = Some s"
    "inbound_serialize_state jval_api toy_sodium (inbound_new (replicate 32 7)) = Some s'"
    by (simp add: outbound_serialize_state_def inbound_serialize_state_def jval_api_def)
  from chain_state_roundtrip [OF jval_api_ok toy_sodium_ok outbound_generate_tracks k inbound_new_tracks s]
  show ?thesis by auto
qed

end
