(* ===== verification/Trust_Store.thy ===== *)
theory Trust_Store
  imports Json_Api Ordered_Map
begin

text \<open>
  \<^verbatim>\<open>common/crypto/trust_store.{hpp,cpp}\<close>: trust on first use. The pinned identities are an
  association list (\<^verbatim>\<open>save\<close> iterates over them), the users with an unaccepted change a
  duplicate-free list. \<^verbatim>\<open>load\<close> and \<^verbatim>\<open>save\<close> work on the text of the file: \<open>None\<close> stands for a file
  that cannot be opened. The theorem follows a pin through any sequence of operations.
\<close>

record trusted_identity =
  ti_x25519 :: string
  ti_ed25519 :: string
  ti_verified :: bool

datatype trust_status = KNOWN | NEWLY_PINNED | CHANGED

record trust_store =
  ts_users :: "(string \<times> trusted_identity) list"
  ts_pending :: "string list"

definition trust_store_new :: trust_store where
  "trust_store_new = \<lparr>ts_users = [], ts_pending = []\<rparr>"

definition ts_put :: "string \<Rightarrow> trusted_identity \<Rightarrow> trust_store \<Rightarrow> trust_store" where
  "ts_put user identity ts = ts\<lparr>ts_users := AList.update user identity (ts_users ts)\<rparr>"

definition ts_mark_pending :: "string \<Rightarrow> trust_store \<Rightarrow> trust_store" where
  "ts_mark_pending user ts = ts\<lparr>ts_pending := uset_insert user (ts_pending ts)\<rparr>"

definition check_and_pin :: "string \<Rightarrow> string \<Rightarrow> string \<Rightarrow> trust_store \<Rightarrow> trust_status \<times> trust_store" where
  "check_and_pin user x25519 ed25519 ts =
     (if user = [] \<or> x25519 = [] then (CHANGED, ts)
      else case map_of (ts_users ts) user of
        None \<Rightarrow> (NEWLY_PINNED, ts_put user \<lparr>ti_x25519 = x25519, ti_ed25519 = ed25519, ti_verified = False\<rparr> ts)
      | Some pinned \<Rightarrow>
          if ti_x25519 pinned \<noteq> x25519 then (CHANGED, ts_mark_pending user ts)
          else if ed25519 \<noteq> [] then
            (if ti_ed25519 pinned = [] then (KNOWN, ts_put user (pinned\<lparr>ti_ed25519 := ed25519\<rparr>) ts)
             else if ti_ed25519 pinned \<noteq> ed25519 then (CHANGED, ts_mark_pending user ts)
             else (KNOWN, ts))
          else (KNOWN, ts))"

definition ts_get :: "string \<Rightarrow> trust_store \<Rightarrow> trusted_identity option" where
  "ts_get user ts = map_of (ts_users ts) user"

definition accept_new_key :: "string \<Rightarrow> string \<Rightarrow> string \<Rightarrow> trust_store \<Rightarrow> bool \<times> trust_store" where
  "accept_new_key user x25519 ed25519 ts =
     (if user = [] \<or> x25519 = [] then (False, ts)
      else (True, (ts_put user \<lparr>ti_x25519 = x25519, ti_ed25519 = ed25519, ti_verified = False\<rparr> ts)
                    \<lparr>ts_pending := uset_erase user (ts_pending ts)\<rparr>))"

definition mark_verified :: "string \<Rightarrow> bool \<Rightarrow> trust_store \<Rightarrow> bool \<times> trust_store" where
  "mark_verified user verified ts =
     (case map_of (ts_users ts) user of
        None \<Rightarrow> (False, ts)
      | Some pinned \<Rightarrow> (True, ts_put user (pinned\<lparr>ti_verified := verified\<rparr>) ts))"

definition pending_changes :: "trust_store \<Rightarrow> string list" where
  "pending_changes ts = ts_pending ts"

definition clear_pending_change :: "string \<Rightarrow> trust_store \<Rightarrow> trust_store" where
  "clear_pending_change user ts = ts\<lparr>ts_pending := uset_erase user (ts_pending ts)\<rparr>"

definition has_pending_change :: "string \<Rightarrow> trust_store \<Rightarrow> bool" where
  "has_pending_change user ts \<longleftrightarrow> user \<in> set (ts_pending ts)"

definition known_users :: "trust_store \<Rightarrow> string list" where
  "known_users ts = map fst (ts_users ts)"

section \<open>The trust file\<close>

definition TRUST_STORE_VERSION :: u64 where "TRUST_STORE_VERSION = 1"

definition read_identity :: "'j json_api \<Rightarrow> 'j \<Rightarrow> trusted_identity option" where
  "read_identity J v =
     Option.bind (j_value_str J v ''x25519'' '''') (\<lambda>x.
     Option.bind (j_value_str J v ''ed25519'' '''') (\<lambda>e.
     Option.bind (j_value_bool J v ''verified'' False) (\<lambda>b.
       Some \<lparr>ti_x25519 = x, ti_ed25519 = e, ti_verified = b\<rparr>)))"

text \<open>The loop over the members; an exception ends it and keeps what was read so far.\<close>

fun load_users :: "'j json_api \<Rightarrow> (string \<times> 'j) list \<Rightarrow> trust_store \<Rightarrow> bool \<times> trust_store" where
  "load_users J [] ts = (True, ts)"
| "load_users J ((name, v) # kvs) ts =
     (case read_identity J v of
        None \<Rightarrow> (False, ts)
      | Some identity \<Rightarrow>
          load_users J kvs (if ti_x25519 identity \<noteq> [] then ts_put name identity ts else ts))"

definition ts_load :: "'j json_api \<Rightarrow> string option \<Rightarrow> trust_store \<Rightarrow> bool \<times> trust_store" where
  "ts_load J file ts =
     (case Option.bind file (j_parse J) of
        None \<Rightarrow> (False, ts)
      | Some j \<Rightarrow>
          if \<not> j_is_object J j then (False, ts)
          else let ts = ts\<lparr>ts_users := []\<rparr> in
            if \<not> j_contains J j ''users'' then (True, ts)
            else case j_at J j ''users'' of
              None \<Rightarrow> (False, ts)
            | Some us \<Rightarrow> if \<not> j_is_object J us then (True, ts) else load_users J (j_items J us) ts)"

definition identity_json :: "'j json_api \<Rightarrow> trusted_identity \<Rightarrow> 'j" where
  "identity_json J t = j_obj J [(''x25519'', j_str J (ti_x25519 t)), (''ed25519'', j_str J (ti_ed25519 t)),
     (''verified'', j_bool J (ti_verified t))]"

text \<open>The text written by \<^verbatim>\<open>save\<close>; \<open>None\<close> is the exception of \<^verbatim>\<open>dump\<close>.\<close>

definition ts_save_text :: "'j json_api \<Rightarrow> trust_store \<Rightarrow> string option" where
  "ts_save_text J ts = j_dump2 J (j_obj J [(''version'', j_u64 J TRUST_STORE_VERSION),
     (''users'', j_obj J (map (\<lambda>(name, t). (name, identity_json J t)) (ts_users ts)))])"

section \<open>Pins do not move\<close>

datatype trust_op = Check string string string | Accept string string string | Verify string bool | Clear string

fun apply_trust_op :: "trust_op \<Rightarrow> trust_store \<Rightarrow> trust_store" where
  "apply_trust_op (Check u x e) ts = snd (check_and_pin u x e ts)"
| "apply_trust_op (Accept u x e) ts = snd (accept_new_key u x e ts)"
| "apply_trust_op (Verify u b) ts = snd (mark_verified u b ts)"
| "apply_trust_op (Clear u) ts = clear_pending_change u ts"

fun accepts :: "string \<Rightarrow> trust_op \<Rightarrow> bool" where
  "accepts u (Accept v x e) = (u = v)"
| "accepts u _ = False"

lemma ts_get_put: "ts_get u (ts_put v t ts) = (if u = v then Some t else ts_get u ts)"
  by (simp add: ts_get_def ts_put_def update_conv')

lemma ts_get_pending [simp]:
  "ts_get u (ts_mark_pending v ts) = ts_get u ts" "ts_get u (ts\<lparr>ts_pending := p\<rparr>) = ts_get u ts"
  by (simp_all add: ts_get_def ts_mark_pending_def)

lemma check_and_pin_get:
  "ts_get v (snd (check_and_pin u x e ts)) =
     (if v \<noteq> u \<or> u = [] \<or> x = [] then ts_get v ts
      else case ts_get u ts of
        None \<Rightarrow> Some \<lparr>ti_x25519 = x, ti_ed25519 = e, ti_verified = False\<rparr>
      | Some t \<Rightarrow> Some (if ti_x25519 t = x \<and> ti_ed25519 t = [] then t\<lparr>ti_ed25519 := e\<rparr> else t))"
  by (auto simp: check_and_pin_def ts_get_put ts_get_def [symmetric] split: option.splits)

lemma check_and_pin_status:
  "fst (check_and_pin u x e ts) =
     (if u = [] \<or> x = [] then CHANGED
      else case ts_get u ts of
        None \<Rightarrow> NEWLY_PINNED
      | Some t \<Rightarrow> if ti_x25519 t = x \<and> (e = [] \<or> ti_ed25519 t = [] \<or> ti_ed25519 t = e) then KNOWN else CHANGED)"
  by (auto simp: check_and_pin_def ts_get_def split: option.splits)

definition pin_extends :: "trusted_identity \<Rightarrow> trusted_identity \<Rightarrow> bool" where
  "pin_extends t t' \<longleftrightarrow> ti_x25519 t' = ti_x25519 t \<and> (ti_ed25519 t \<noteq> [] \<longrightarrow> ti_ed25519 t' = ti_ed25519 t)"

lemma pin_extends_refl [simp]: "pin_extends t t"
  by (simp add: pin_extends_def)

lemma pin_extends_trans: "pin_extends t t' \<Longrightarrow> pin_extends t' t'' \<Longrightarrow> pin_extends t t''"
  by (auto simp: pin_extends_def)

lemma apply_trust_op_pin:
  assumes "ts_get u ts = Some t" and "\<not> accepts u op"
  shows "\<exists>t'. ts_get u (apply_trust_op op ts) = Some t' \<and> pin_extends t t'"
  using assms
  by (cases op) (auto simp: check_and_pin_get accept_new_key_def mark_verified_def clear_pending_change_def
      ts_get_put ts_get_def [symmetric] pin_extends_def split: option.splits)

text \<open>
  A pinned identity stays pinned: whatever keys are presented for a user, and whatever
  is verified, cleared or accepted for others, the encryption key pinned for the user is
  the same afterwards, and so is the signing key once it is known; a check reports a
  match exactly when what is presented agrees with the pin.
\<close>

theorem tofu_pin_stable:
  assumes "ts_get u ts = Some t" and "list_all (\<lambda>op. \<not> accepts u op) ops"
  shows "\<exists>t'. ts_get u (fold apply_trust_op ops ts) = Some t' \<and> pin_extends t t' \<and>
    (\<forall>x e. u \<noteq> [] \<longrightarrow> x \<noteq> [] \<longrightarrow>
      fst (check_and_pin u x e (fold apply_trust_op ops ts)) =
        (if x = ti_x25519 t \<and> (e = [] \<or> ti_ed25519 t' = [] \<or> ti_ed25519 t' = e) then KNOWN else CHANGED))"
proof -
  have "\<exists>t'. ts_get u (fold apply_trust_op ops ts) = Some t' \<and> pin_extends t t'"
    using assms
  proof (induction ops arbitrary: ts t)
    case (Cons op ops)
    then obtain t1 where t1: "ts_get u (apply_trust_op op ts) = Some t1" "pin_extends t t1"
      using apply_trust_op_pin by fastforce
    with Cons.IH [OF t1(1)] Cons.prems(2) show ?case by (auto intro: pin_extends_trans)
  qed simp
  then show ?thesis by (auto simp: check_and_pin_status pin_extends_def)
qed

theorem tofu_pin_stable_witness:
  "\<exists>t'. ts_get ''bo'' (fold apply_trust_op [Check ''bo'' ''KEY2'' '''', Accept ''al'' ''K'' '''', Check ''bo'' ''KEY1'' ''SIG1'']
      (snd (check_and_pin ''bo'' ''KEY1'' '''' trust_store_new))) = Some t' \<and> ti_x25519 t' = ''KEY1''"
proof -
  have g: "ts_get ''bo'' (snd (check_and_pin ''bo'' ''KEY1'' '''' trust_store_new)) =
      Some \<lparr>ti_x25519 = ''KEY1'', ti_ed25519 = '''', ti_verified = False\<rparr>"
    by (simp add: check_and_pin_get) (simp add: ts_get_def trust_store_new_def)
  show ?thesis
    using tofu_pin_stable [OF g, of "[Check ''bo'' ''KEY2'' '''', Accept ''al'' ''K'' '''', Check ''bo'' ''KEY1'' ''SIG1'']"]
    by (auto simp: pin_extends_def simp del: fold.simps apply_trust_op.simps)
qed

end
