(* ===== verification/Key_Manager.thy ===== *)
theory Key_Manager
  imports Room_Crypto
begin

text \<open>
  \<^verbatim>\<open>client/crypto.{hpp,cpp}\<close>: the client's two long-term key pairs, their files, direct-message
  encryption and the cache of peers' public keys. A directory is a map from file names
  to contents; which files can be opened for writing and whether the directory and the
  permissions can be set are arguments (\<open>disk\<close>). Fresh key pairs and nonces are arguments.
\<close>

record key_manager =
  km_public_key :: bytes
  km_secret_key :: bytes
  km_signing_public_key :: bytes
  km_signing_secret_key :: bytes
  km_initialized :: bool
  km_cache :: "string \<Rightarrow> string option"

record disk =
  d_mkdir :: bool
  d_writable :: "string \<Rightarrow> bool"
  d_chmod :: bool

type_synonym files = "string \<Rightarrow> bytes option"

definition key_manager_new :: key_manager where
  "key_manager_new = \<lparr>km_public_key = replicate 32 0, km_secret_key = replicate 32 0,
     km_signing_public_key = replicate 32 0, km_signing_secret_key = replicate 64 0,
     km_initialized = False, km_cache = (\<lambda>_. None)\<rparr>"

section \<open>Base64\<close>

definition km_to_base64 :: "sodium_api \<Rightarrow> bytes \<Rightarrow> string" where
  "km_to_base64 S data = strip_nul (so_bin2base64 S data @ [CHR 0x00])"

definition km_from_base64 :: "sodium_api \<Rightarrow> string \<Rightarrow> bytes" where
  "km_from_base64 S b64 = (case so_base642bin S b64 of None \<Rightarrow> [] | Some result \<Rightarrow> result)"

section \<open>Key files\<close>

text \<open>\<^verbatim>\<open>file.read(buf, n)\<close> overwrites as much of the buffer as the file provides.\<close>

definition read_into :: "bytes \<Rightarrow> bytes \<Rightarrow> bytes" where
  "read_into buf content = take (length buf) content @ drop (length content) buf"

text \<open>
  Both pairs are stored by the same steps: \<^verbatim>\<open>save_keypair\<close> writes \<^verbatim>\<open>public.key\<close> and
  \<^verbatim>\<open>secret.key\<close>, \<^verbatim>\<open>save_signing_keypair\<close> \<^verbatim>\<open>signing.pub\<close> and \<^verbatim>\<open>signing.key\<close>.
\<close>

definition save_pair :: "disk \<Rightarrow> string \<Rightarrow> string \<Rightarrow> bytes \<Rightarrow> bytes \<Rightarrow> files \<Rightarrow> bool \<times> files" where
  "save_pair D pk_path sk_path pk sk fs =
     (if \<not> d_mkdir D then (False, fs)
      else if \<not> d_writable D pk_path then (False, fs)
      else let fs = fs(pk_path \<mapsto> pk) in
        if \<not> d_writable D sk_path then (False, fs)
        else (d_chmod D, fs(sk_path \<mapsto> sk)))"

definition load_pair :: "string \<Rightarrow> string \<Rightarrow> files \<Rightarrow> bytes \<Rightarrow> bytes \<Rightarrow> bool \<times> bytes \<times> bytes" where
  "load_pair pk_path sk_path fs pk sk =
     (case (fs pk_path, fs sk_path) of
        (Some pk_file, Some sk_file) \<Rightarrow>
          let pk' = read_into pk pk_file in
          if length pk_file < length pk then (False, pk', sk)
          else (length sk_file \<ge> length sk, pk', read_into sk sk_file)
      | _ \<Rightarrow> (False, pk, sk))"

definition save_keypair :: "disk \<Rightarrow> key_manager \<Rightarrow> files \<Rightarrow> bool \<times> files" where
  "save_keypair D k = save_pair D ''/public.key'' ''/secret.key'' (km_public_key k) (km_secret_key k)"

definition save_signing_keypair :: "disk \<Rightarrow> key_manager \<Rightarrow> files \<Rightarrow> bool \<times> files" where
  "save_signing_keypair D k =
     save_pair D ''/signing.pub'' ''/signing.key'' (km_signing_public_key k) (km_signing_secret_key k)"

definition load_keypair :: "files \<Rightarrow> key_manager \<Rightarrow> bool \<times> key_manager" where
  "load_keypair fs k =
     (let (ok, pk, sk) = load_pair ''/public.key'' ''/secret.key'' fs (km_public_key k) (km_secret_key k)
      in (ok, k\<lparr>km_public_key := pk, km_secret_key := sk\<rparr>))"

definition load_signing_keypair :: "files \<Rightarrow> key_manager \<Rightarrow> bool \<times> key_manager" where
  "load_signing_keypair fs k =
     (let (ok, pk, sk) = load_pair ''/signing.pub'' ''/signing.key'' fs (km_signing_public_key k)
        (km_signing_secret_key k)
      in (ok, k\<lparr>km_signing_public_key := pk, km_signing_secret_key := sk\<rparr>))"

text \<open>\<^verbatim>\<open>box_pair\<close> and \<^verbatim>\<open>sign_pair\<close> are what the key generators would return.\<close>

definition load_or_create ::
  "disk \<Rightarrow> bytes \<times> bytes \<Rightarrow> bytes \<times> bytes \<Rightarrow> files \<Rightarrow> key_manager \<Rightarrow> bool \<times> files \<times> key_manager" where
  "load_or_create D box_pair sign_pair fs k =
     (let (box_ok, k) = load_keypair fs k;
          k = (if box_ok then k else k\<lparr>km_public_key := fst box_pair, km_secret_key := snd box_pair\<rparr>);
          fs = (if box_ok then fs else snd (save_keypair D k fs));
          (sign_ok, k) = load_signing_keypair fs k;
          k = (if sign_ok then k
               else k\<lparr>km_signing_public_key := fst sign_pair, km_signing_secret_key := snd sign_pair\<rparr>);
          fs = (if sign_ok then fs else snd (save_signing_keypair D k fs))
      in (True, fs, k\<lparr>km_initialized := True\<rparr>))"

section \<open>Public keys and fingerprints\<close>

definition get_public_key :: "sodium_api \<Rightarrow> key_manager \<Rightarrow> string" where
  "get_public_key S k = km_to_base64 S (km_public_key k)"

definition get_signing_public_key :: "sodium_api \<Rightarrow> key_manager \<Rightarrow> string" where
  "get_signing_public_key S k = km_to_base64 S (km_signing_public_key k)"

definition get_fingerprint :: "sodium_api \<Rightarrow> key_manager \<Rightarrow> string" where
  "get_fingerprint S k =
     (let b64 = get_public_key S k in if length b64 > 8 then take 8 b64 @ ''...'' else b64)"

definition get_identity_fingerprint :: "sodium_api \<Rightarrow> key_manager \<Rightarrow> string" where
  "get_identity_fingerprint S k = identity_fingerprint S (km_public_key k) (km_signing_public_key k)"

section \<open>Direct messages\<close>

record encrypted_message =
  em_ciphertext :: string
  em_nonce :: string

definition km_encrypt :: "sodium_api \<Rightarrow> bytes \<Rightarrow> string \<Rightarrow> string \<Rightarrow> key_manager \<Rightarrow> encrypted_message option" where
  "km_encrypt S nonce plaintext recipient_b64 k =
     (if \<not> km_initialized k then None
      else let pk = km_from_base64 S recipient_b64 in
        if length pk \<noteq> crypto_box_PUBLICKEYBYTES then None
        else case so_box_easy S pk (km_secret_key k) nonce (bytes_of plaintext) of
          None \<Rightarrow> None
        | Some ciphertext \<Rightarrow> Some \<lparr>em_ciphertext = km_to_base64 S ciphertext, em_nonce = km_to_base64 S nonce\<rparr>)"

definition km_decrypt :: "sodium_api \<Rightarrow> string \<Rightarrow> string \<Rightarrow> string \<Rightarrow> key_manager \<Rightarrow> string option" where
  "km_decrypt S ciphertext_b64 nonce_b64 sender_b64 k =
     (if \<not> km_initialized k then None
      else
        let ciphertext = km_from_base64 S ciphertext_b64; nonce = km_from_base64 S nonce_b64;
            pk = km_from_base64 S sender_b64
        in if length nonce \<noteq> crypto_box_NONCEBYTES \<or> length pk \<noteq> crypto_box_PUBLICKEYBYTES \<or>
              length ciphertext < crypto_box_MACBYTES then None
           else map_option string_of (so_box_open_easy S pk (km_secret_key k) nonce ciphertext))"

section \<open>The key cache\<close>

definition cache_key :: "string \<Rightarrow> string \<Rightarrow> key_manager \<Rightarrow> key_manager" where
  "cache_key username key_b64 k = k\<lparr>km_cache := (km_cache k)(username \<mapsto> key_b64)\<rparr>"

definition get_cached_key :: "string \<Rightarrow> key_manager \<Rightarrow> string option" where
  "get_cached_key username k = km_cache k username"

definition has_cached_key :: "string \<Rightarrow> key_manager \<Rightarrow> bool" where
  "has_cached_key username k \<longleftrightarrow> km_cache k username \<noteq> None"

section \<open>Properties\<close>

lemma km_base64:
  assumes "sodium_ok S"
  shows "km_to_base64 S d = to_b64 S d" and "km_from_base64 S (to_b64 S d) = d"
  using assms by (simp_all add: km_to_base64_def to_b64_def km_from_base64_def strip_nul_snoc nul_not_base64
      sodium_ok_base64)

definition box_keys :: "sodium_api \<Rightarrow> key_manager \<Rightarrow> bool" where
  "box_keys S k \<longleftrightarrow> km_initialized k \<and> length (km_secret_key k) = 32 \<and> km_public_key k = so_box_pk S (km_secret_key k)"

text \<open>
  A direct message encrypted for a peer's published key decrypts at the peer, with
  the sender's published key, to the text that was sent, whatever its length.
\<close>

theorem dm_roundtrip:
  assumes "sodium_ok S" and "box_keys S alice" and "box_keys S bob" and "length nonce = 24"
    and "km_encrypt S nonce plaintext (get_public_key S bob) alice = Some em"
  shows "km_decrypt S (em_ciphertext em) (em_nonce em) (get_public_key S alice) bob = Some plaintext"
proof -
  have keys: "length (km_secret_key alice) = 32" "length (km_secret_key bob) = 32"
    "length (km_public_key alice) = 32" "length (km_public_key bob) = 32"
    using assms(1-3) sodium_ok_pk(2) [OF assms(1)] by (simp_all add: box_keys_def)
  obtain ct where ct: "so_box_easy S (so_box_pk S (km_secret_key bob)) (km_secret_key alice) nonce
      (bytes_of plaintext) = Some ct" and em: "em = \<lparr>em_ciphertext = to_b64 S ct, em_nonce = to_b64 S nonce\<rparr>"
    using assms keys by (auto simp: km_encrypt_def get_public_key_def km_base64 box_keys_def split: option.splits)
  from sodium_ok_box [OF assms(1) keys(1,2) assms(4) ct] em keys assms show ?thesis
    by (simp add: km_decrypt_def get_public_key_def km_base64 box_keys_def)
qed

definition toy_key_manager :: "u8 \<Rightarrow> key_manager" where
  "toy_key_manager n = key_manager_new\<lparr>km_public_key := replicate 32 n, km_secret_key := replicate 32 n,
     km_signing_public_key := replicate 32 n, km_signing_secret_key := replicate 64 n, km_initialized := True\<rparr>"

lemma toy_key_manager_box: "box_keys toy_sodium (toy_key_manager n)"
  by (simp add: box_keys_def toy_key_manager_def toy_sodium_def)

theorem dm_roundtrip_witness:
  "\<exists>em :: encrypted_message. km_decrypt toy_sodium (em_ciphertext em) (em_nonce em) (get_public_key toy_sodium (toy_key_manager 3))
     (toy_key_manager 4) = Some ''hello''"
proof -
  have "\<exists>em. km_encrypt toy_sodium (replicate 24 1) ''hello'' (get_public_key toy_sodium (toy_key_manager 4))
      (toy_key_manager 3) = Some em"
    by (simp add: km_encrypt_def get_public_key_def km_base64 [OF toy_sodium_ok])
      (simp add: toy_key_manager_def key_manager_new_def toy_sodium_def)
  then obtain em where "km_encrypt toy_sodium (replicate 24 1) ''hello''
      (get_public_key toy_sodium (toy_key_manager 4)) (toy_key_manager 3) = Some em" by blast
  from dm_roundtrip [OF toy_sodium_ok toy_key_manager_box toy_key_manager_box _ this]
  have "km_decrypt toy_sodium (em_ciphertext em) (em_nonce em) (get_public_key toy_sodium (toy_key_manager 3))
     (toy_key_manager 4) = Some ''hello''" by simp
  then show ?thesis by (rule exI)
qed

definition stored :: "string \<Rightarrow> string \<Rightarrow> files \<Rightarrow> bytes \<Rightarrow> bytes \<Rightarrow> bool" where
  "stored p q fs pk sk \<longleftrightarrow> (\<exists>a b. fs p = Some a \<and> fs q = Some b \<and> length pk \<le> length a \<and> length sk \<le> length b \<and>
     take (length pk) a = pk \<and> take (length sk) b = sk)"

lemma stored_cong: "fs p = fs' p \<Longrightarrow> fs q = fs' q \<Longrightarrow> stored p q fs pk sk = stored p q fs' pk sk"
  by (simp add: stored_def)

lemma load_pair_stored:
  assumes "stored p q fs pk sk" and "length pk0 = length pk" and "length sk0 = length sk"
  shows "load_pair p q fs pk0 sk0 = (True, pk, sk)"
  using assms by (auto simp: stored_def load_pair_def read_into_def Let_def)

lemma load_pair_ok:
  assumes "load_pair p q fs pk0 sk0 = (True, pk, sk)"
  shows "stored p q fs pk sk" and "length pk = length pk0" and "length sk = length sk0"
  using assms by (auto simp: stored_def load_pair_def read_into_def Let_def split: option.splits if_splits)

lemma save_pair_stored:
  "d_mkdir D \<Longrightarrow> (\<And>p. d_writable D p) \<Longrightarrow> p \<noteq> q \<Longrightarrow> stored p q (snd (save_pair D p q pk sk fs)) pk sk"
  by (simp add: save_pair_def stored_def Let_def)

lemma save_pair_other:
  "r \<noteq> p \<Longrightarrow> r \<noteq> q \<Longrightarrow> snd (save_pair D p q pk sk fs) r = fs r"
  by (simp add: save_pair_def Let_def)

text \<open>One of the two steps of \<^verbatim>\<open>load_or_create\<close>: load a pair, or generate it and save it.\<close>

lemma pair_step_stored:
  assumes "d_mkdir D" and "\<And>p. d_writable D p" and "p \<noteq> q"
    and "length (fst pair) = length pk0" and "length (snd pair) = length sk0"
    and "load_pair p q fs pk0 sk0 = (ok, pk, sk)"
    and "(pk1, sk1) = (if ok then (pk, sk) else pair)"
    and "fs1 = (if ok then fs else snd (save_pair D p q pk1 sk1 fs))"
  shows "stored p q fs1 pk1 sk1 \<and> length pk1 = length pk0 \<and> length sk1 = length sk0"
proof (cases ok)
  case True
  with assms load_pair_ok [of p q fs pk0 sk0 pk sk] show ?thesis by simp
next
  case False
  with assms(7) have "pair = (pk1, sk1)" by simp
  moreover have "fs1 = snd (save_pair D p q pk1 sk1 fs)" using False assms(8) by simp
  ultimately show ?thesis using save_pair_stored [OF assms(1-3)] assms(4,5) by simp
qed

lemma load_or_create_stored:
  assumes "d_mkdir D" and "\<And>p. d_writable D p"
    and "length (fst bp) = 32" and "length (snd bp) = 32" and "length (fst sp) = 32" and "length (snd sp) = 64"
    and "load_or_create D bp sp fs key_manager_new = (ok, fs', k)"
  shows "stored ''/public.key'' ''/secret.key'' fs' (km_public_key k) (km_secret_key k)"
    and "stored ''/signing.pub'' ''/signing.key'' fs' (km_signing_public_key k) (km_signing_secret_key k)"
    and "length (km_public_key k) = 32 \<and> length (km_secret_key k) = 32 \<and>
      length (km_signing_public_key k) = 32 \<and> length (km_signing_secret_key k) = 64"
proof -
  obtain b pk sk where b: "load_pair ''/public.key'' ''/secret.key'' fs (replicate 32 0) (replicate 32 0) = (b, pk, sk)"
    using prod_cases3 by blast
  define pk1 sk1 where "pk1 = (if b then pk else fst bp)" and "sk1 = (if b then sk else snd bp)"
  define fs1 where "fs1 = (if b then fs else snd (save_pair D ''/public.key'' ''/secret.key'' pk1 sk1 fs))"
  have box: "stored ''/public.key'' ''/secret.key'' fs1 pk1 sk1 \<and> length pk1 = 32 \<and> length sk1 = 32"
    using pair_step_stored [OF assms(1,2) _ _ _ b, of bp pk1 sk1 fs1] assms(3,4)
    by (simp add: pk1_def sk1_def fs1_def)
  obtain c spk ssk where c: "load_pair ''/signing.pub'' ''/signing.key'' fs1 (replicate 32 0) (replicate 64 0) = (c, spk, ssk)"
    using prod_cases3 by blast
  define spk1 ssk1 where "spk1 = (if c then spk else fst sp)" and "ssk1 = (if c then ssk else snd sp)"
  define fs2 where "fs2 = (if c then fs1 else snd (save_pair D ''/signing.pub'' ''/signing.key'' spk1 ssk1 fs1))"
  have sign: "stored ''/signing.pub'' ''/signing.key'' fs2 spk1 ssk1 \<and> length spk1 = 32 \<and> length ssk1 = 64"
    using pair_step_stored [OF assms(1,2) _ _ _ c, of sp spk1 ssk1 fs2] assms(5,6)
    by (simp add: spk1_def ssk1_def fs2_def)
  have "fs2 ''/public.key'' = fs1 ''/public.key''" "fs2 ''/secret.key'' = fs1 ''/secret.key''"
    by (simp_all add: fs2_def save_pair_other)
  then have box2: "stored ''/public.key'' ''/secret.key'' fs2 pk1 sk1"
    using box stored_cong [of fs2 "''/public.key''" fs1 "''/secret.key''" pk1 sk1] by blast
  have "(fs', k) = (fs2, key_manager_new\<lparr>km_public_key := pk1, km_secret_key := sk1, km_signing_public_key := spk1,
      km_signing_secret_key := ssk1, km_initialized := True\<rparr>)"
    using assms(7) b c
    by (cases b; cases c) (simp_all add: load_or_create_def load_keypair_def load_signing_keypair_def
        save_keypair_def save_signing_keypair_def key_manager_new_def pk1_def sk1_def fs1_def spk1_def ssk1_def fs2_def Let_def)
  with box box2 sign show "stored ''/public.key'' ''/secret.key'' fs' (km_public_key k) (km_secret_key k)"
    "stored ''/signing.pub'' ''/signing.key'' fs' (km_signing_public_key k) (km_signing_secret_key k)"
    "length (km_public_key k) = 32 \<and> length (km_secret_key k) = 32 \<and>
      length (km_signing_public_key k) = 32 \<and> length (km_signing_secret_key k) = 64"
    by simp_all
qed

text \<open>
  The identity survives a restart: when the first run could write its key files, the
  next run, starting from empty buffers, loads exactly the keys of the first, whatever
  new key pairs the generators would offer.
\<close>

theorem identity_survives_restart:
  assumes "d_mkdir D" and "\<And>p. d_writable D p"
    and "length (fst bp) = 32" and "length (snd bp) = 32" and "length (fst sp) = 32" and "length (snd sp) = 64"
    and "load_or_create D bp sp fs key_manager_new = (ok, fs', k)"
    and "load_or_create D' bp' sp' fs' key_manager_new = (ok', fs'', k')"
  shows "km_public_key k' = km_public_key k \<and> km_secret_key k' = km_secret_key k \<and>
    km_signing_public_key k' = km_signing_public_key k \<and> km_signing_secret_key k' = km_signing_secret_key k"
proof -
  note st = load_or_create_stored [OF assms(1-7)]
  have "load_pair ''/public.key'' ''/secret.key'' fs' (replicate 32 0) (replicate 32 0) =
      (True, km_public_key k, km_secret_key k)"
    by (rule load_pair_stored [OF st(1)]) (use st(3) in simp_all)
  moreover have "load_pair ''/signing.pub'' ''/signing.key'' fs' (replicate 32 0) (replicate 64 0) =
      (True, km_signing_public_key k, km_signing_secret_key k)"
    by (rule load_pair_stored [OF st(2)]) (use st(3) in simp_all)
  ultimately show ?thesis
    using assms(8)
    by (auto simp: load_or_create_def load_keypair_def load_signing_keypair_def key_manager_new_def)
qed

theorem identity_survives_restart_witness:
  "\<exists>fs' k k'. load_or_create \<lparr>d_mkdir = True, d_writable = (\<lambda>_. True), d_chmod = True\<rparr>
      (replicate 32 1, replicate 32 2) (replicate 32 3, replicate 64 4) (\<lambda>_. None) key_manager_new = (True, fs', k) \<and>
    snd (snd (load_or_create \<lparr>d_mkdir = False, d_writable = (\<lambda>_. False), d_chmod = False\<rparr>
      (replicate 32 5, replicate 32 6) (replicate 32 7, replicate 64 8) fs' key_manager_new)) = k' \<and>
    km_secret_key k' = km_secret_key k"
proof -
  let ?D = "\<lparr>d_mkdir = True, d_writable = (\<lambda>_. True), d_chmod = True\<rparr>"
  let ?D' = "\<lparr>d_mkdir = False, d_writable = (\<lambda>_. False), d_chmod = False\<rparr>"
  obtain ok fs' k where 1: "load_or_create ?D (replicate 32 1, replicate 32 2) (replicate 32 3, replicate 64 4)
      (\<lambda>_. None) key_manager_new = (ok, fs', k)" using prod_cases3 by blast
  then have ok: "ok = True" by (auto simp: load_or_create_def Let_def split: prod.splits)
  obtain ok' fs'' k' where 2: "load_or_create ?D' (replicate 32 5, replicate 32 6) (replicate 32 7, replicate 64 8)
      fs' key_manager_new = (ok', fs'', k')" using prod_cases3 by blast
  from identity_survives_restart [OF _ _ _ _ _ _ 1 2] have "km_secret_key k' = km_secret_key k" by simp
  with 1 2 ok show ?thesis by simp
qed

end
