(* ===== verification/Echo_Cache.thy ===== *)
theory Echo_Cache
  imports Chat_Prelude
begin

text \<open>
  The server echoes what a client sends, but as ciphertext. The client therefore remembers the
  plaintext of its recent messages until the echo arrives, in two places with the same
  discipline: \<^verbatim>\<open>GroupManager\<close> for room messages and \<^verbatim>\<open>InputHandler\<close> for direct messages. The
  locale states what the two operations do to the table and to the queue of keys, and shows
  that an entry is given out exactly once while fewer than \<open>cap\<close> newer ones were made.
\<close>

datatype ('k, 'v) echo_event = Remember 'k 'v | Take 'k

fun echo_run :: "('k \<Rightarrow> 'v \<Rightarrow> 's \<Rightarrow> 's) \<Rightarrow> ('k \<Rightarrow> 's \<Rightarrow> 'v option \<times> 's) \<Rightarrow> ('k, 'v) echo_event list \<Rightarrow> 's \<Rightarrow> 's" where
  "echo_run rem out [] s = s"
| "echo_run rem out (Remember k v # es) s = echo_run rem out es (rem k v s)"
| "echo_run rem out (Take k # es) s = echo_run rem out es (snd (out k s))"

fun echo_keys :: "('k, 'v) echo_event list \<Rightarrow> 'k list" where
  "echo_keys [] = []"
| "echo_keys (Remember k v # es) = k # echo_keys es"
| "echo_keys (Take k # es) = echo_keys es"

fun echo_taken :: "('k, 'v) echo_event list \<Rightarrow> 'k list" where
  "echo_taken [] = []"
| "echo_taken (Remember k v # es) = echo_taken es"
| "echo_taken (Take k # es) = k # echo_taken es"

locale echo_cache =
  fixes rem :: "'k \<Rightarrow> 'v \<Rightarrow> 's \<Rightarrow> 's" and out :: "'k \<Rightarrow> 's \<Rightarrow> 'v option \<times> 's"
    and look :: "'s \<Rightarrow> 'k \<Rightarrow> 'v option" and order :: "'s \<Rightarrow> 'k list" and cap :: nat
  assumes rem_order: "order (rem k v s) = drop (Suc (length (order s)) - cap) (order s @ [k])"
    and rem_look: "look (rem k v s) m =
      (if m \<in> set (take (Suc (length (order s)) - cap) (order s @ [k])) then None else ((look s)(k \<mapsto> v)) m)"
    and out_result: "fst (out k s) = look s k"
    and out_look: "look (snd (out k s)) = (look s)(k := None)"
    and out_order: "order (snd (out k s)) = order s"
    and cap_pos: "0 < cap"
begin

definition sound :: "'s \<Rightarrow> bool" where
  "sound s \<longleftrightarrow> dom (look s) \<subseteq> set (order s) \<and> length (order s) \<le> cap"

lemma sound_rem: "sound s \<Longrightarrow> sound (rem k v s)"
proof -
  assume s: "sound s"
  have "set (order s @ [k]) \<subseteq> set (take (Suc (length (order s)) - cap) (order s @ [k])) \<union>
      set (drop (Suc (length (order s)) - cap) (order s @ [k]))"
    by (metis append_take_drop_id set_append subset_refl)
  with s show ?thesis by (auto simp: sound_def rem_order rem_look dom_def split: if_splits)
qed

lemma sound_out: "sound s \<Longrightarrow> sound (snd (out k s))"
  by (auto simp: sound_def out_look out_order)

lemma sound_run: "sound s \<Longrightarrow> sound (echo_run rem out es s)"
  by (induction es arbitrary: s rule: echo_keys.induct) (simp_all add: sound_rem sound_out)

lemma sound_card: "sound s \<Longrightarrow> card (dom (look s)) \<le> cap"
  by (meson List.finite_set card_length card_mono le_trans sound_def)

text \<open>The entry of \<open>k\<close> has \<open>n\<close> newer ones behind it.\<close>

definition waiting :: "'k \<Rightarrow> 'v \<Rightarrow> nat \<Rightarrow> 's \<Rightarrow> bool" where
  "waiting k v n s \<longleftrightarrow> look s k = Some v \<and>
     (\<exists>pre post. order s = pre @ k # post \<and> k \<notin> set pre \<union> set post \<and> length post = n)"

lemma waiting_rem:
  assumes "waiting k v n s" and "k' \<noteq> k" and "Suc n < cap"
  shows "waiting k v (Suc n) (rem k' v' s)"
proof -
  obtain pre post where o: "look s k = Some v" "order s = pre @ k # post" "k \<notin> set pre \<union> set post" "length post = n"
    using assms(1) by (auto simp: waiting_def)
  let ?d = "Suc (length (order s)) - cap"
  have d: "?d \<le> length pre" using o(2,4) assms(3) by simp
  then have "take ?d (order s @ [k']) = take ?d pre"
    "drop ?d (order s @ [k']) = drop ?d pre @ k # (post @ [k'])" using o(2) by simp_all
  moreover have "k \<notin> set (take ?d pre)" "k \<notin> set (drop ?d pre)" "length (post @ [k']) = Suc n"
    using o(3,4) by (auto dest: in_set_takeD in_set_dropD)
  moreover have "k \<notin> set (post @ [k'])" using o(3) assms(2) by simp
  ultimately show ?thesis
    unfolding waiting_def rem_look rem_order using o(1) assms(2)
    by (intro conjI exI [of _ "drop ?d pre"] exI [of _ "post @ [k']"]) auto
qed

lemma waiting_out: "waiting k v n s \<Longrightarrow> k' \<noteq> k \<Longrightarrow> waiting k v n (snd (out k' s))"
  by (simp add: waiting_def out_look out_order)

lemma waiting_new:
  assumes "k \<notin> set (order s)"
  shows "waiting k v 0 (rem k v s)"
proof -
  let ?d = "Suc (length (order s)) - cap"
  have d: "?d \<le> length (order s)" using cap_pos by simp
  then have "drop ?d (order s @ [k]) = drop ?d (order s) @ k # []" "take ?d (order s @ [k]) = take ?d (order s)"
    by simp_all
  moreover have "k \<notin> set (drop ?d (order s))" "k \<notin> set (take ?d (order s))"
    using assms by (auto dest: in_set_takeD in_set_dropD)
  ultimately show ?thesis unfolding waiting_def rem_look rem_order by auto
qed

lemma waiting_run:
  "waiting k v n s \<Longrightarrow> k \<notin> set (echo_keys es) \<Longrightarrow> k \<notin> set (echo_taken es) \<Longrightarrow> n + length (echo_keys es) < cap \<Longrightarrow>
   waiting k v (n + length (echo_keys es)) (echo_run rem out es s)"
proof (induction es arbitrary: s n rule: echo_keys.induct)
  case (2 k' v' es)
  from 2(1) [OF waiting_rem [OF 2(2)], of k' v'] 2(3-) show ?case by auto
next
  case (3 k' es)
  from 3(1) [OF waiting_out [OF 3(2)], of k'] 3(3-) show ?case by auto
qed simp

lemma echo_once:
  assumes "k \<notin> set (order s)" and "k \<notin> set (echo_keys es)" and "k \<notin> set (echo_taken es)"
    and "length (echo_keys es) < cap"
  shows "fst (out k (echo_run rem out es (rem k v s))) = Some v"
    and "fst (out k (snd (out k (echo_run rem out es (rem k v s))))) = None"
proof -
  have "waiting k v (0 + length (echo_keys es)) (echo_run rem out es (rem k v s))"
    using assms by (intro waiting_run waiting_new) simp_all
  then show "fst (out k (echo_run rem out es (rem k v s))) = Some v" by (simp add: out_result waiting_def)
qed (simp add: out_result out_look)

end

end
