(* ===== verification/Group_Manager.thy ===== *)
theory Group_Manager
  imports Room_Messages Trust_Store Key_Manager Echo_Cache "HOL-Library.List_Lexorder" "HOL-Library.Char_ord"
begin

text \<open>
  \<^verbatim>\<open>client/group_manager.{hpp,cpp}\<close>: the client's room encryption state. \<open>group_manager\<close> holds the
  key manager it refers to, the trust store, the rooms with our chain and the peers'
  chains, key request counts (an absent entry counts as 0), changed keys waiting for
  acceptance and the texts of our own messages. \<open>client_world\<close> holds the JSON and libsodium
  interfaces, the random source (indexed by the number of draws, \<open>gm_draws\<close>) and the clock.
  A call that can leave by an exception is an \<open>act\<close>; output parameters are returned.
\<close>

record 'j client_world =
  cw_json :: "'j json_api"
  cw_sodium :: sodium_api
  cw_bytes :: "nat \<Rightarrow> nat \<Rightarrow> bytes"
  cw_rand :: "nat \<Rightarrow> u64"
  cw_now :: i64

record peer_chain =
  pc_epoch :: u64
  pc_key_id :: string
  pc_chain :: inbound

record room_state =
  ro_epoch :: u64
  ro_members :: "string list"
  ro_own :: "outbound option"
  ro_own_epoch :: u64
  ro_distributed :: "string list"
  ro_peers :: "(string \<times> peer_chain list) list"

record group_manager =
  gm_keys :: key_manager
  gm_trust :: trust_store
  gm_username :: string
  gm_rooms :: "(string \<times> room_state) list"
  gm_attempts :: "string \<Rightarrow> string \<Rightarrow> nat"
  gm_changed :: "string \<Rightarrow> (string \<times> string) option"
  gm_echo :: "string \<Rightarrow> string option"
  gm_echo_order :: "string list"
  gm_draws :: nat

definition MAX_OWN_ECHO :: nat where "MAX_OWN_ECHO = 200"
definition MAX_CHAINS_PER_PEER :: nat where "MAX_CHAINS_PER_PEER = 6"

definition room_state_new :: room_state where
  "room_state_new = \<lparr>ro_epoch = 0, ro_members = [], ro_own = None, ro_own_epoch = 0, ro_distributed = [], ro_peers = []\<rparr>"

definition group_manager_new :: "key_manager \<Rightarrow> group_manager" where
  "group_manager_new keys = \<lparr>gm_keys = keys, gm_trust = trust_store_new, gm_username = '''', gm_rooms = [],
     gm_attempts = (\<lambda>_ _. 0), gm_changed = (\<lambda>_. None), gm_echo = (\<lambda>_. None), gm_echo_order = [], gm_draws = 0\<rparr>"

definition set_username :: "string \<Rightarrow> group_manager \<Rightarrow> group_manager" where
  "set_username username g = g\<lparr>gm_username := username\<rparr>"

section \<open>Rooms and random draws\<close>

text \<open>\<^verbatim>\<open>rooms_[room]\<close> and \<^verbatim>\<open>peers[user]\<close> start from an empty entry.\<close>

definition gm_room :: "string \<Rightarrow> group_manager \<Rightarrow> room_state" where
  "gm_room room g = (case map_of (gm_rooms g) room of Some st \<Rightarrow> st | None \<Rightarrow> room_state_new)"

definition gm_put_room :: "string \<Rightarrow> room_state \<Rightarrow> group_manager \<Rightarrow> group_manager" where
  "gm_put_room room st g = g\<lparr>gm_rooms := AList.update room st (gm_rooms g)\<rparr>"

definition peer_chains :: "string \<Rightarrow> room_state \<Rightarrow> peer_chain list" where
  "peer_chains user st = (case map_of (ro_peers st) user of Some cs \<Rightarrow> cs | None \<Rightarrow> [])"

definition gm_random :: "'j client_world \<Rightarrow> nat \<Rightarrow> group_manager \<Rightarrow> bytes \<times> group_manager" where
  "gm_random W n g = (cw_bytes W (gm_draws g) n, g\<lparr>gm_draws := Suc (gm_draws g)\<rparr>)"

definition gm_message ::
  "'j client_world \<Rightarrow> message_type \<Rightarrow> string \<Rightarrow> 'j \<Rightarrow> group_manager \<Rightarrow> 'j message \<times> group_manager" where
  "gm_message W t room payload g =
     ((message_create (cw_json W) (cw_rand W (gm_draws g)) (cw_rand W (Suc (gm_draws g))) (cw_now W) t
         (gm_username g) room)\<lparr>m_payload := payload\<rparr>,
      g\<lparr>gm_draws := gm_draws g + 2\<rparr>)"

definition gm_generate :: "'j client_world \<Rightarrow> group_manager \<Rightarrow> outbound \<times> group_manager" where
  "gm_generate W g =
     (let (chain, g) = gm_random W ROOM_KEY_BYTES g; (raw, g) = gm_random W 4 g
      in (outbound_generate (cw_sodium W) chain raw, g))"

section \<open>Distribution of our chain\<close>

definition room_key_payload ::
  "'j json_api \<Rightarrow> string \<Rightarrow> u64 \<Rightarrow> string \<Rightarrow> wrapped_envelope \<Rightarrow> 'j" where
  "room_key_payload J recipient epoch key_id w = j_obj J [
     (''recipient'', j_str J recipient), (''epoch'', j_u64 J epoch), (''key_id'', j_str J key_id),
     (''nonce'', j_str J (we_nonce_b64 w)), (''box'', j_str J (we_box_b64 w)),
     (''signature'', j_str J (we_signature_b64 w)), (''sender_x25519'', j_str J (we_sender_x25519_b64 w)),
     (''sender_ed25519'', j_str J (we_sender_ed25519_b64 w))]"

definition wrap_for ::
  "'j client_world \<Rightarrow> string \<Rightarrow> string \<Rightarrow> room_state \<Rightarrow> outbound \<Rightarrow> bytes
     \<Rightarrow> (group_manager, 'j message option) act" where
  "wrap_for W room recipient st own recipient_pk g =
     (let (nonce, g) = gm_random W crypto_box_NONCEBYTES g; k = gm_keys g in
      case wrap_sender_key_envelope (cw_json W) (cw_sodium W) nonce room (gm_username g) recipient
             (ro_own_epoch st) (o_key_id own) (o_chain own) (km_public_key k) (km_secret_key k)
             (km_signing_secret_key k) recipient_pk of
        None \<Rightarrow> (None, g)
      | Some None \<Rightarrow> (Some None, g)
      | Some (Some w) \<Rightarrow>
          let (m, g) = gm_message W ROOM_KEY room
                (room_key_payload (cw_json W) recipient (ro_own_epoch st) (o_key_id own) w) g
          in (Some (Some m), g))"

definition make_envelope_for ::
  "'j client_world \<Rightarrow> string \<Rightarrow> string \<Rightarrow> (group_manager, 'j message option) act" where
  "make_envelope_for W room recipient g =
     (case map_of (gm_rooms g) room of
        None \<Rightarrow> (Some None, g)
      | Some st \<Rightarrow> (case ro_own st of
          None \<Rightarrow> (Some None, g)
        | Some own \<Rightarrow> (case get_cached_key recipient (gm_keys g) of
            None \<Rightarrow> (Some None, g)
          | Some b64 \<Rightarrow>
              let pk = from_b64 (cw_sodium W) b64 in
              if length pk \<noteq> crypto_box_PUBLICKEYBYTES then (Some None, g)
              else wrap_for W room recipient st own pk g)))"

definition mark_distributed :: "string \<Rightarrow> string \<Rightarrow> group_manager \<Rightarrow> group_manager" where
  "mark_distributed room member g =
     (let st = gm_room room g
      in gm_put_room room (st\<lparr>ro_distributed := uset_insert member (ro_distributed st)\<rparr>) g)"

fun pending_envelopes ::
  "'j client_world \<Rightarrow> string \<Rightarrow> string list \<Rightarrow> (group_manager, 'j message list) act" where
  "pending_envelopes W room [] = eret []"
| "pending_envelopes W room (member # ms) =
     ebind (eread (\<lambda>g. member = gm_username g \<or> member \<in> set (ro_distributed (gm_room room g)))) (\<lambda>skip.
       if skip then pending_envelopes W room ms
       else ebind (make_envelope_for W room member) (\<lambda>env. case env of
         None \<Rightarrow> pending_envelopes W room ms
       | Some m \<Rightarrow>
           eseq (emodify (mark_distributed room member))
             (ebind (pending_envelopes W room ms) (\<lambda>out. eret (m # out)))))"

definition prune_peer_chains :: "room_state \<Rightarrow> room_state" where
  "prune_peer_chains st = st\<lparr>ro_peers := filter (\<lambda>(user, cs). cs \<noteq> [])
     (map (\<lambda>(user, cs). (user, pop_front_while MAX_CHAINS_PER_PEER
        (filter (\<lambda>c. \<not> ro_epoch st > pc_epoch c + 2) cs))) (ro_peers st))\<rparr>"

text \<open>The state part of \<^verbatim>\<open>sync_room\<close>: the flags \<^verbatim>\<open>rotated\<close> and \<^verbatim>\<open>membership_changed\<close>, and the new room.\<close>

definition sync_state ::
  "'j client_world \<Rightarrow> string \<Rightarrow> u64 \<Rightarrow> string list \<Rightarrow> group_manager \<Rightarrow> bool \<times> bool \<times> group_manager" where
  "sync_state W room epoch members g =
     (let st = gm_room room g;
          rotated = (ro_own st = None \<or> ro_own_epoch st \<noteq> epoch);
          (st, g) = (if rotated then
              (let (own, g) = gm_generate W g
               in (st\<lparr>ro_own := Some own, ro_own_epoch := epoch, ro_distributed := []\<rparr>, g))
            else (st, g));
          changed = (ro_members st \<noteq> members);
          st = (if changed then st\<lparr>ro_members := members,
                  ro_distributed := (if rotated then ro_distributed st else [])\<rparr> else st);
          st = prune_peer_chains (st\<lparr>ro_epoch := epoch\<rparr>)
      in (rotated, changed, gm_put_room room st g))"

definition sync_room ::
  "'j client_world \<Rightarrow> string \<Rightarrow> u64 \<Rightarrow> string list \<Rightarrow> (group_manager, 'j message list) act" where
  "sync_room W room epoch members =
     ebind (elift (\<lambda>g. let (rotated, changed, g) = sync_state W room epoch members g in ((rotated, changed), g)))
       (\<lambda>(rotated, changed).
          if \<not> rotated \<and> \<not> changed then eret [] else pending_envelopes W room members)"

definition missing_keys :: "string \<Rightarrow> group_manager \<Rightarrow> string list" where
  "missing_keys room g =
     (case map_of (gm_rooms g) room of
        None \<Rightarrow> []
      | Some st \<Rightarrow> filter (\<lambda>m. m \<noteq> gm_username g \<and> \<not> has_cached_key m (gm_keys g)) (ro_members st))"

definition outstanding_key_requests :: "nat \<Rightarrow> group_manager \<Rightarrow> (string \<times> string) list" where
  "outstanding_key_requests max_attempts g =
     concat (map (\<lambda>(room, st).
       if ro_own st = None then []
       else map (\<lambda>m. (room, m)) (filter (\<lambda>m. m \<noteq> gm_username g \<and> \<not> has_cached_key m (gm_keys g) \<and>
              \<not> gm_attempts g room m \<ge> max_attempts) (ro_members st))) (gm_rooms g))"

definition note_key_request_sent :: "string \<Rightarrow> string \<Rightarrow> group_manager \<Rightarrow> group_manager" where
  "note_key_request_sent room user g =
     g\<lparr>gm_attempts := (gm_attempts g)(room := (gm_attempts g room)(user := Suc (gm_attempts g room user)))\<rparr>"

definition note_key_available :: "string \<Rightarrow> group_manager \<Rightarrow> group_manager" where
  "note_key_available user g = g\<lparr>gm_attempts := (\<lambda>room. (gm_attempts g room)(user := 0))\<rparr>"

fun distribute_rooms :: "'j client_world \<Rightarrow> string list \<Rightarrow> (group_manager, 'j message list) act" where
  "distribute_rooms W [] = eret []"
| "distribute_rooms W (room # rooms) =
     ebind (eread (gm_room room)) (\<lambda>st.
       if ro_own st = None then distribute_rooms W rooms
       else ebind (pending_envelopes W room (ro_members st)) (\<lambda>envs.
            ebind (distribute_rooms W rooms) (\<lambda>out. eret (envs @ out))))"

definition distribute_new_keys :: "'j client_world \<Rightarrow> (group_manager, 'j message list) act" where
  "distribute_new_keys W = ebind (eread (\<lambda>g. map fst (gm_rooms g))) (distribute_rooms W)"

definition leave_room :: "string \<Rightarrow> group_manager \<Rightarrow> group_manager" where
  "leave_room room g = g\<lparr>gm_rooms := AList.delete room (gm_rooms g), gm_attempts := (gm_attempts g)(room := (\<lambda>_. 0))\<rparr>"

fun envelopes_for_user :: "'j client_world \<Rightarrow> string \<Rightarrow> string list \<Rightarrow> (group_manager, 'j message list) act" where
  "envelopes_for_user W user [] = eret []"
| "envelopes_for_user W user (room # rooms) =
     ebind (eread (gm_room room)) (\<lambda>st.
       if ro_own st = None \<or> user \<notin> set (ro_members st) \<or> user \<in> set (ro_distributed st)
       then envelopes_for_user W user rooms
       else ebind (make_envelope_for W room user) (\<lambda>env. case env of
         None \<Rightarrow> envelopes_for_user W user rooms
       | Some m \<Rightarrow>
           eseq (emodify (mark_distributed room user))
             (ebind (envelopes_for_user W user rooms) (\<lambda>out. eret (m # out)))))"

definition on_key_available :: "'j client_world \<Rightarrow> string \<Rightarrow> (group_manager, 'j message list) act" where
  "on_key_available W user = ebind (eread (\<lambda>g. map fst (gm_rooms g))) (envelopes_for_user W user)"

section \<open>Inbound envelopes\<close>

datatype envelope_status = ENV_OK | KEY_CHANGED | TRUST_REJECTED | ENV_INVALID

record envelope_fields =
  ef_epoch :: u64
  ef_key_id :: string
  ef_nonce :: string
  ef_box :: string
  ef_sig :: string
  ef_sx :: string
  ef_se :: string

definition read_envelope_fields :: "'j json_api \<Rightarrow> 'j \<Rightarrow> envelope_fields option" where
  "read_envelope_fields J p =
     Option.bind (j_value_u64 J p ''epoch'' 0) (\<lambda>epoch.
     Option.bind (j_value_str J p ''key_id'' '''') (\<lambda>key_id.
     Option.bind (j_value_str J p ''nonce'' '''') (\<lambda>nonce.
     Option.bind (j_value_str J p ''box'' '''') (\<lambda>box.
     Option.bind (j_value_str J p ''signature'' '''') (\<lambda>sig.
     Option.bind (j_value_str J p ''sender_x25519'' '''') (\<lambda>sx.
     Option.bind (j_value_str J p ''sender_ed25519'' '''') (\<lambda>se.
       Some \<lparr>ef_epoch = epoch, ef_key_id = key_id, ef_nonce = nonce, ef_box = box, ef_sig = sig,
         ef_sx = sx, ef_se = se\<rparr>)))))))"

definition same_chain :: "u64 \<Rightarrow> string \<Rightarrow> peer_chain \<Rightarrow> bool" where
  "same_chain epoch key_id c \<longleftrightarrow> pc_epoch c = epoch \<and> pc_key_id c = key_id"

definition store_chain ::
  "string \<Rightarrow> string \<Rightarrow> envelope_fields \<Rightarrow> bytes \<Rightarrow> group_manager \<Rightarrow> (envelope_status \<times> string) \<times> group_manager" where
  "store_chain room sender f chain_key g =
     (let st = gm_room room g; cs = peer_chains sender st in
      if list_ex (same_chain (ef_epoch f) (ef_key_id f)) cs then ((ENV_OK, ''duplicate envelope''), g)
      else
        let cs = pop_front_while (MAX_CHAINS_PER_PEER - 1) cs @
              [\<lparr>pc_epoch = ef_epoch f, pc_key_id = ef_key_id f, pc_chain = inbound_new chain_key\<rparr>];
            g = gm_put_room room (st\<lparr>ro_peers := AList.update sender cs (ro_peers st)\<rparr>) g
        in ((ENV_OK, ''''), g\<lparr>gm_keys := cache_key sender (ef_sx f) (gm_keys g)\<rparr>))"

definition accept_envelope ::
  "'j client_world \<Rightarrow> string \<Rightarrow> string \<Rightarrow> envelope_fields \<Rightarrow> group_manager
     \<Rightarrow> (envelope_status \<times> string) \<times> group_manager" where
  "accept_envelope W room sender f g =
     (let S = cw_sodium W;
          (status, ts) = check_and_pin sender (ef_sx f) (ef_se f) (gm_trust g);
          g = g\<lparr>gm_trust := ts\<rparr>
      in if status = CHANGED then
           ((KEY_CHANGED, ''identity key changed for '' @ sender),
            g\<lparr>gm_changed := (gm_changed g)(sender \<mapsto> (ef_sx f, ef_se f))\<rparr>)
         else
           let x_pk = from_b64 S (ef_sx f); ed_pk = from_b64 S (ef_se f) in
           if length x_pk \<noteq> crypto_box_PUBLICKEYBYTES \<or> length ed_pk \<noteq> crypto_sign_PUBLICKEYBYTES
           then ((ENV_INVALID, ''invalid sender keys''), g)
           else case unwrap_sender_key_envelope (cw_json W) S room sender (gm_username g) (ef_epoch f) (ef_key_id f)
                  \<lparr>we_nonce_b64 = ef_nonce f, we_box_b64 = ef_box f, we_signature_b64 = ef_sig f,
                   we_sender_x25519_b64 = ef_sx f, we_sender_ed25519_b64 = ef_se f\<rparr>
                  (km_secret_key (gm_keys g)) x_pk ed_pk of
             None \<Rightarrow> ((ENV_INVALID, ''envelope signature or decryption failed''), g)
           | Some env \<Rightarrow> store_chain room sender f (ske_chain_key env) g)"

definition process_envelope ::
  "'j client_world \<Rightarrow> 'j message \<Rightarrow> (group_manager, envelope_status \<times> string) act" where
  "process_envelope W msg =
     (let J = cw_json W; p = m_payload msg; sender = m_from msg in
      if \<not> j_is_object J p \<or> \<not> j_has_all J p [''recipient'', ''epoch'', ''key_id'', ''nonce'', ''box'',
           ''signature'', ''sender_x25519'', ''sender_ed25519'']
      then eret (ENV_INVALID, ''malformed envelope'')
      else ebind (eread gm_username) (\<lambda>me.
        if sender = [] \<or> sender = me then eret (ENV_INVALID, ''invalid sender'')
        else ebind (eopt (j_value_str J p ''recipient'' '''')) (\<lambda>recipient.
          if recipient \<noteq> me then eret (ENV_INVALID, ''envelope not addressed to us'')
          else ebind (eopt (read_envelope_fields J p)) (\<lambda>f.
            if ef_epoch f = 0 \<or> \<not> is_valid_key_id (ef_key_id f) \<or> ef_nonce f = [] \<or> ef_box f = [] \<or>
               ef_sig f = [] \<or> ef_sx f = [] \<or> ef_se f = []
            then eret (ENV_INVALID, ''invalid envelope fields'')
            else elift (accept_envelope W (m_room msg) sender f)))))"

section \<open>Sealing and opening\<close>

definition remember_echo :: "string \<Rightarrow> string \<Rightarrow> group_manager \<Rightarrow> group_manager" where
  "remember_echo message_id plaintext g =
     (let order = gm_echo_order g @ [message_id];
          dropped = take (length order - MAX_OWN_ECHO) order
      in g\<lparr>gm_echo := (\<lambda>m. if m \<in> set dropped then None else ((gm_echo g)(message_id \<mapsto> plaintext)) m),
          gm_echo_order := pop_front_while MAX_OWN_ECHO order\<rparr>)"

definition sealed_payload :: "'j json_api \<Rightarrow> sealed_message \<Rightarrow> 'j" where
  "sealed_payload J s = j_obj J [(''epoch'', j_u64 J (sl_epoch s)), (''key_id'', j_str J (sl_key_id s)),
     (''index'', j_u64 J (ucast (sl_index s))), (''nonce'', j_str J (sl_nonce_b64 s)),
     (''ciphertext'', j_str J (sl_ciphertext_b64 s)), (''signature'', j_str J (sl_signature_b64 s))]"

text \<open>The left alternative is \<^verbatim>\<open>nullopt\<close> with the text put into \<^verbatim>\<open>err\<close>.\<close>

definition gm_seal ::
  "'j client_world \<Rightarrow> string \<Rightarrow> string \<Rightarrow> string \<Rightarrow> group_manager \<Rightarrow> (string + 'j) \<times> group_manager" where
  "gm_seal W room message_id plaintext g =
     (case map_of (gm_rooms g) room of
        None \<Rightarrow> (Inl ''no room key yet'', g)
      | Some st \<Rightarrow> (case ro_own st of
          None \<Rightarrow> (Inl ''no room key yet'', g)
        | Some own \<Rightarrow>
            if ro_own_epoch st \<noteq> ro_epoch st then (Inl ''room key out of date'', g)
            else
              let (nonce, g) = gm_random W crypto_aead_NPUBBYTES g;
                  (sealed, own') = seal_room_message (cw_sodium W) nonce (ro_epoch st) room (gm_username g)
                     plaintext (km_signing_secret_key (gm_keys g)) own;
                  g = gm_put_room room (st\<lparr>ro_own := Some own'\<rparr>) g
              in (case sealed of
                    None \<Rightarrow> (Inl ''encryption failed'', g)
                  | Some s \<Rightarrow>
                      (Inr (sealed_payload (cw_json W) s),
                       if message_id \<noteq> [] then remember_echo message_id plaintext g else g))))"

fun open_in_chains ::
  "sodium_api \<Rightarrow> sealed_message \<Rightarrow> string \<Rightarrow> string \<Rightarrow> bytes \<Rightarrow> peer_chain list \<Rightarrow> string option \<times> peer_chain list" where
  "open_in_chains S sealed room sender pk [] = (None, [])"
| "open_in_chains S sealed room sender pk (c # cs) =
     (if same_chain (sl_epoch sealed) (sl_key_id sealed) c then
        (let (r, k) = open_room_message S sealed room sender pk (pc_chain c) in (r, c\<lparr>pc_chain := k\<rparr> # cs))
      else let (r, cs) = open_in_chains S sealed room sender pk cs in (r, c # cs))"

text \<open>The three text members are read after every check but before the chain is touched.\<close>

definition read_sealed :: "'j json_api \<Rightarrow> u64 \<Rightarrow> string \<Rightarrow> i64 \<Rightarrow> 'j \<Rightarrow> sealed_message option" where
  "read_sealed J epoch key_id index p =
     Option.bind (j_value_str J p ''nonce'' '''') (\<lambda>n.
     Option.bind (j_value_str J p ''ciphertext'' '''') (\<lambda>c.
     Option.bind (j_value_str J p ''signature'' '''') (\<lambda>s.
       Some \<lparr>sl_epoch = epoch, sl_key_id = key_id, sl_index = ucast index, sl_nonce_b64 = n,
         sl_ciphertext_b64 = c, sl_signature_b64 = s\<rparr>)))"

definition open_with_chain ::
  "'j client_world \<Rightarrow> string \<Rightarrow> string \<Rightarrow> u64 \<Rightarrow> string \<Rightarrow> i64 \<Rightarrow> 'j \<Rightarrow> room_state \<Rightarrow> peer_chain list
     \<Rightarrow> (group_manager, string + string) act" where
  "open_with_chain W room sender epoch key_id index p st cs g =
     (case ts_get sender (gm_trust g) of
        None \<Rightarrow> (Some (Inl ''sender identity not pinned''), g)
      | Some pin \<Rightarrow>
          if ti_ed25519 pin = [] then (Some (Inl ''sender identity not pinned''), g)
          else let pk = from_b64 (cw_sodium W) (ti_ed25519 pin) in
            if length pk \<noteq> crypto_sign_PUBLICKEYBYTES then (Some (Inl ''bad sender identity''), g)
            else case read_sealed (cw_json W) epoch key_id index p of
              None \<Rightarrow> (None, g)
            | Some sealed \<Rightarrow>
                let (r, cs) = open_in_chains (cw_sodium W) sealed room sender pk cs;
                    g = gm_put_room room (st\<lparr>ro_peers := AList.update sender cs (ro_peers st)\<rparr>) g
                in (Some (case r of None \<Rightarrow> Inl ''decryption failed'' | Some t \<Rightarrow> Inr t), g))"

definition gm_open ::
  "'j client_world \<Rightarrow> string \<Rightarrow> string \<Rightarrow> 'j \<Rightarrow> (group_manager, string + string) act" where
  "gm_open W room sender p =
     (let J = cw_json W in
      if \<not> j_is_object J p \<or>
         \<not> j_has_all J p [''epoch'', ''key_id'', ''index'', ''nonce'', ''ciphertext'', ''signature'']
      then eret (Inl ''malformed message'')
      else ebind (eopt (j_value_u64 J p ''epoch'' 0)) (\<lambda>epoch.
        ebind (eopt (j_value_str J p ''key_id'' '''')) (\<lambda>key_id.
        ebind (eopt (j_value_i64 J p ''index'' (- 1))) (\<lambda>index.
          if epoch = 0 \<or> sint index < 0 \<or> \<not> is_valid_key_id key_id then eret (Inl ''malformed message metadata'')
          else ebind (eread (\<lambda>g. map_of (gm_rooms g) room)) (\<lambda>r. case r of
            None \<Rightarrow> eret (Inl ''no room key'')
          | Some st \<Rightarrow> (case map_of (ro_peers st) sender of
              None \<Rightarrow> eret (Inl ''no sender key'')
            | Some cs \<Rightarrow>
                if \<not> list_ex (same_chain epoch key_id) cs then eret (Inl ''no sender key for this epoch'')
                else open_with_chain W room sender epoch key_id index p st cs))))))"

definition take_own_message :: "string \<Rightarrow> group_manager \<Rightarrow> string option \<times> group_manager" where
  "take_own_message message_id g =
     (case gm_echo g message_id of
        None \<Rightarrow> (None, g)
      | Some t \<Rightarrow> (Some t, g\<lparr>gm_echo := (gm_echo g)(message_id := None)\<rparr>))"

section \<open>Trust and summaries\<close>

definition check_dm_key :: "string \<Rightarrow> string \<Rightarrow> group_manager \<Rightarrow> trust_status \<times> group_manager" where
  "check_dm_key user x25519 g =
     (let (status, ts) = check_and_pin user x25519 '''' (gm_trust g); g = g\<lparr>gm_trust := ts\<rparr>
      in (status, if status = CHANGED then g\<lparr>gm_changed := (gm_changed g)(user \<mapsto> (x25519, ''''))\<rparr> else g))"

record peer_info_rec =
  pi_user :: string
  pi_fingerprint :: string
  pi_x25519 :: string
  pi_ed25519 :: string
  pi_pin_known :: bool
  pi_verified :: bool
  pi_pending_change :: bool

definition peer_info :: "sodium_api \<Rightarrow> string \<Rightarrow> group_manager \<Rightarrow> peer_info_rec" where
  "peer_info S user g =
     (let info = \<lparr>pi_user = user, pi_fingerprint = '''', pi_x25519 = '''', pi_ed25519 = '''', pi_pin_known = False,
            pi_verified = False, pi_pending_change = has_pending_change user (gm_trust g)\<rparr>
      in case ts_get user (gm_trust g) of
           None \<Rightarrow> info
         | Some pin \<Rightarrow>
             let x_pk = from_b64 S (ti_x25519 pin); ed_pk = from_b64 S (ti_ed25519 pin) in
             info\<lparr>pi_pin_known := True, pi_x25519 := ti_x25519 pin, pi_ed25519 := ti_ed25519 pin,
               pi_verified := ti_verified pin,
               pi_fingerprint := (if x_pk \<noteq> [] then identity_fingerprint S x_pk ed_pk else '''')\<rparr>)"

definition accept_peer_key :: "string \<Rightarrow> group_manager \<Rightarrow> bool \<times> group_manager" where
  "accept_peer_key user g =
     (case gm_changed g user of
        None \<Rightarrow> (False, g)
      | Some (x, e) \<Rightarrow>
          let (ok, ts) = accept_new_key user x e (gm_trust g); g = g\<lparr>gm_trust := ts\<rparr>
          in (ok, if ok then g\<lparr>gm_changed := (gm_changed g)(user := None)\<rparr> else g))"

definition mark_peer_verified :: "string \<Rightarrow> bool \<Rightarrow> group_manager \<Rightarrow> bool \<times> group_manager" where
  "mark_peer_verified user verified g =
     (let (ok, ts) = mark_verified user verified (gm_trust g) in (ok, g\<lparr>gm_trust := ts\<rparr>))"

record room_summary_rec =
  su_room :: string
  su_epoch :: u64
  su_own_key_set :: bool
  su_own_key_id :: string
  su_peers_with_keys :: "string list"
  su_members_without_keys :: "string list"

definition has_current_key :: "room_state \<Rightarrow> string \<Rightarrow> bool" where
  "has_current_key st member \<longleftrightarrow> list_ex (\<lambda>c. pc_epoch c = ro_epoch st) (peer_chains member st)"

definition room_summary :: "string \<Rightarrow> group_manager \<Rightarrow> room_summary_rec option" where
  "room_summary room g =
     (case map_of (gm_rooms g) room of
        None \<Rightarrow> None
      | Some st \<Rightarrow>
          let others = filter (\<lambda>m. m \<noteq> gm_username g) (ro_members st) in
          Some \<lparr>su_room = room, su_epoch = ro_epoch st,
            su_own_key_set = (ro_own st \<noteq> None \<and> ro_own_epoch st = ro_epoch st),
            su_own_key_id = (case ro_own st of None \<Rightarrow> '''' | Some own \<Rightarrow> o_key_id own),
            su_peers_with_keys = filter (has_current_key st) others,
            su_members_without_keys = filter (\<lambda>m. \<not> has_current_key st m) others\<rparr>)"

definition gm_room_names :: "group_manager \<Rightarrow> string list" where
  "gm_room_names g = sort (map fst (gm_rooms g))"

section \<open>Persistence\<close>

fun opt_map :: "('a \<Rightarrow> 'b option) \<Rightarrow> 'a list \<Rightarrow> 'b list option" where
  "opt_map f [] = Some []"
| "opt_map f (x # xs) = Option.bind (f x) (\<lambda>y. map_option (Cons y) (opt_map f xs))"

definition chain_json :: "'j json_api \<Rightarrow> sodium_api \<Rightarrow> peer_chain \<Rightarrow> 'j option" where
  "chain_json J S c =
     map_option (\<lambda>state. j_obj J [(''epoch'', j_u64 J (pc_epoch c)), (''key_id'', j_str J (pc_key_id c)), (''state'', state)])
       (Option.bind (inbound_serialize_state J S (pc_chain c)) (j_parse J))"

definition own_json :: "'j json_api \<Rightarrow> sodium_api \<Rightarrow> outbound option \<Rightarrow> 'j option" where
  "own_json J S own =
     (case own of None \<Rightarrow> Some (j_null J) | Some k \<Rightarrow> Option.bind (outbound_serialize_state J S k) (j_parse J))"

definition peers_json :: "'j json_api \<Rightarrow> sodium_api \<Rightarrow> (string \<times> peer_chain list) list \<Rightarrow> 'j option" where
  "peers_json J S ps =
     map_option (j_obj J) (opt_map (\<lambda>(user, cs). map_option (\<lambda>js. (user, j_arr J js)) (opt_map (chain_json J S) cs)) ps)"

definition room_json :: "'j json_api \<Rightarrow> sodium_api \<Rightarrow> room_state \<Rightarrow> 'j option" where
  "room_json J S st =
     Option.bind (peers_json J S (ro_peers st)) (\<lambda>ps.
     Option.bind (own_json J S (ro_own st)) (\<lambda>own.
       Some (j_obj J [(''epoch'', j_u64 J (ro_epoch st)), (''own_epoch'', j_u64 J (ro_own_epoch st)),
         (''members'', j_strs J (ro_members st)), (''distributed'', j_strs J (ro_distributed st)),
         (''own'', own), (''peers'', ps)])))"

text \<open>The text of the state file; \<open>None\<close> is an exception. Writing it is left to the file system.\<close>

definition gm_save_text :: "'j json_api \<Rightarrow> sodium_api \<Rightarrow> group_manager \<Rightarrow> string option" where
  "gm_save_text J S g =
     Option.bind (opt_map (\<lambda>(room, st). map_option (\<lambda>j. (room, j)) (room_json J S st)) (gm_rooms g)) (\<lambda>rooms.
       j_dump2 J (j_obj J [(''version'', j_u64 J 2), (''rooms'', j_obj J rooms)]))"

definition j_member :: "'j json_api \<Rightarrow> 'j \<Rightarrow> string \<Rightarrow> 'j option" where
  "j_member J j k = (if j_contains J j k then j_at J j k else None)"

definition read_strs :: "'j json_api \<Rightarrow> 'j option \<Rightarrow> string list option" where
  "read_strs J m =
     (case m of
        None \<Rightarrow> Some []
      | Some a \<Rightarrow> if j_is_array J a then opt_map (j_get_str J) (j_elems J a) else Some [])"

definition read_own :: "'j json_api \<Rightarrow> sodium_api \<Rightarrow> 'j option \<Rightarrow> outbound option option" where
  "read_own J S m =
     (case m of
        None \<Rightarrow> Some None
      | Some j \<Rightarrow> if j_is_object J j then map_option (outbound_deserialize_state J S) (j_dump J j) else Some None)"

fun read_chains :: "'j json_api \<Rightarrow> sodium_api \<Rightarrow> 'j list \<Rightarrow> peer_chain list option" where
  "read_chains J S [] = Some []"
| "read_chains J S (cj # cjs) =
     (if \<not> j_is_object J cj \<or> \<not> j_contains J cj ''state'' then read_chains J S cjs
      else Option.bind (Option.bind (j_at J cj ''state'') (j_dump J)) (\<lambda>s.
        case inbound_deserialize_state J S s of
          None \<Rightarrow> read_chains J S cjs
        | Some k \<Rightarrow>
            Option.bind (j_value_u64 J cj ''epoch'' 0) (\<lambda>epoch.
            Option.bind (j_value_str J cj ''key_id'' '''') (\<lambda>key_id.
              map_option (Cons \<lparr>pc_epoch = epoch, pc_key_id = key_id, pc_chain = k\<rparr>) (read_chains J S cjs)))))"

fun read_peers :: "'j json_api \<Rightarrow> sodium_api \<Rightarrow> (string \<times> 'j) list \<Rightarrow> (string \<times> peer_chain list) list option" where
  "read_peers J S [] = Some []"
| "read_peers J S ((user, v) # kvs) =
     (if \<not> j_is_array J v then read_peers J S kvs
      else Option.bind (read_chains J S (j_elems J v)) (\<lambda>cs.
        map_option (\<lambda>ps. if cs = [] then ps else (user, cs) # ps) (read_peers J S kvs)))"

definition read_room :: "'j json_api \<Rightarrow> sodium_api \<Rightarrow> 'j \<Rightarrow> room_state option" where
  "read_room J S rj =
     Option.bind (j_value_u64 J rj ''epoch'' 0) (\<lambda>epoch.
     Option.bind (j_value_u64 J rj ''own_epoch'' 0) (\<lambda>own_epoch.
     Option.bind (read_strs J (j_member J rj ''members'')) (\<lambda>members.
     Option.bind (read_strs J (j_member J rj ''distributed'')) (\<lambda>distributed.
     Option.bind (read_own J S (j_member J rj ''own'')) (\<lambda>own.
     Option.bind (case j_member J rj ''peers'' of
                    Some ps \<Rightarrow> if j_is_object J ps then read_peers J S (j_items J ps) else Some []
                  | None \<Rightarrow> Some []) (\<lambda>peers.
       Some \<lparr>ro_epoch = epoch, ro_members = members, ro_own = own, ro_own_epoch = own_epoch,
         ro_distributed = fold uset_insert distributed [], ro_peers = peers\<rparr>))))))"

fun load_rooms :: "'j json_api \<Rightarrow> sodium_api \<Rightarrow> (string \<times> 'j) list \<Rightarrow> group_manager \<Rightarrow> bool \<times> group_manager" where
  "load_rooms J S [] g = (True, g)"
| "load_rooms J S ((room, rj) # kvs) g =
     (case read_room J S rj of
        None \<Rightarrow> (False, g)
      | Some st \<Rightarrow> load_rooms J S kvs (gm_put_room room st g))"

text \<open>
  A \<^verbatim>\<open>rooms\<close> member that is not an object: the loop body throws at \<^verbatim>\<open>it.key()\<close> unless there is
  nothing to iterate over.
\<close>

definition gm_load ::
  "'j json_api \<Rightarrow> sodium_api \<Rightarrow> string option \<Rightarrow> string option \<Rightarrow> group_manager \<Rightarrow> bool \<times> group_manager" where
  "gm_load J S trust_file state_file g =
     (let g = g\<lparr>gm_trust := snd (ts_load J trust_file (gm_trust g))\<rparr> in
      case state_file of
        None \<Rightarrow> (True, g)
      | Some s \<Rightarrow> (case j_parse J s of
          None \<Rightarrow> (False, g)
        | Some j \<Rightarrow>
            if \<not> j_is_object J j \<or> \<not> j_contains J j ''rooms'' then (False, g)
            else case j_at J j ''rooms'' of
              None \<Rightarrow> (False, g)
            | Some rs \<Rightarrow>
                if j_is_object J rs then load_rooms J S (j_items J rs) g
                else (rs = j_null J \<or> j_is_array J rs \<and> j_elems J rs = [], g)))"

section \<open>Echoes\<close>

interpretation ge: echo_cache remember_echo take_own_message gm_echo gm_echo_order MAX_OWN_ECHO
  by unfold_locales (auto simp: remember_echo_def take_own_message_def pop_front_while_eq Let_def MAX_OWN_ECHO_def
      split: option.split)

text \<open>A concrete environment, for the examples.\<close>

definition toy_world :: "jval client_world" where
  "toy_world = \<lparr>cw_json = jval_api, cw_sodium = toy_sodium, cw_bytes = (\<lambda>i n. replicate n 7), cw_rand = (\<lambda>_. 0), cw_now = 0\<rparr>"

lemma toy_world_simps [simp]:
  "cw_json toy_world = jval_api" "cw_sodium toy_world = toy_sodium" "cw_bytes toy_world i n = replicate n 7"
  by (simp_all add: toy_world_def)

end
