(* ===== verification/Tls_Client.thy ===== *)
theory Tls_Client
  imports Connection
begin

text \<open>
  \<^verbatim>\<open>client/tls_client.{hpp,cpp}\<close>: the client's end of the connection. The socket is modelled by
  the operations in flight: \<open>tc_phase\<close> is the pending step of resolving, connecting,
  handshaking, reading or waiting to reconnect, \<open>tc_write_op\<close> says whether a write is pending and
  \<open>tc_wire\<close> lists the buffers handed to the current socket. A completion handler is a function
  of its outcome; an error is given by its text. The calls of the three callbacks are
  returned as a list of events, in order. TLS options and certificate checking are
  configured once through OpenSSL and are not part of the state.
\<close>

datatype tc_phase = TcIdle | Resolving | Connecting | Handshaking | ReadHeader | ReadBody u32
  | ReconnectWait | ReconnectResolving

datatype 'j tc_event = ConnectResult bool string | Disconnected string | Received "'j message"

record tls_client =
  tc_phase :: tc_phase
  tc_connected :: bool
  tc_running :: bool
  tc_stopping :: bool
  tc_queue :: "bytes list"
  tc_writing :: bool
  tc_write_op :: bool
  tc_wire :: "bytes list"
  tc_reconnect_enabled :: bool
  tc_max_attempts :: nat
  tc_delay_ms :: nat
  tc_attempts :: nat

definition tls_client_new :: tls_client where
  "tls_client_new = \<lparr>tc_phase = TcIdle, tc_connected = False, tc_running = False, tc_stopping = False, tc_queue = [],
     tc_writing = False, tc_write_op = False, tc_wire = [], tc_reconnect_enabled = False, tc_max_attempts = 5,
     tc_delay_ms = 2000, tc_attempts = 0\<rparr>"

section \<open>Sending\<close>

definition tc_do_write :: "tls_client \<Rightarrow> tls_client" where
  "tc_do_write c =
     (if \<not> tc_connected c \<or> tc_stopping c then c
      else c\<lparr>tc_write_op := True, tc_wire := tc_wire c @ [hd (tc_queue c)]\<rparr>)"

definition tc_enqueue :: "bytes \<Rightarrow> tls_client \<Rightarrow> tls_client" where
  "tc_enqueue frame c =
     (let c = c\<lparr>tc_queue := tc_queue c @ [frame]\<rparr>
      in if \<not> tc_writing c then tc_do_write (c\<lparr>tc_writing := True\<rparr>) else c)"

text \<open>An exception while encoding is caught and logged.\<close>

definition tc_send :: "'j json_api \<Rightarrow> 'j message \<Rightarrow> tls_client \<Rightarrow> tls_client" where
  "tc_send J msg c =
     (if \<not> tc_connected c then c
      else case encode J msg of None \<Rightarrow> c | Some frame \<Rightarrow> tc_enqueue frame c)"

text \<open>Completion of the pending write.\<close>

definition tc_write_done :: "string option \<Rightarrow> tls_client \<Rightarrow> tls_client" where
  "tc_write_done ec c =
     (let c = c\<lparr>tc_write_op := False\<rparr> in
      case ec of
        Some _ \<Rightarrow> c\<lparr>tc_writing := False\<rparr>
      | None \<Rightarrow>
          let c = c\<lparr>tc_queue := tl (tc_queue c)\<rparr>
          in if tc_queue c \<noteq> [] then tc_do_write c else c\<lparr>tc_writing := False\<rparr>)"

text \<open>The messages that \<^verbatim>\<open>send_command\<close> and \<^verbatim>\<open>send_chat\<close> pass to \<^verbatim>\<open>send\<close>; \<open>None\<close> is an exception.\<close>

definition command_message ::
  "'j json_api \<Rightarrow> u64 \<Rightarrow> u64 \<Rightarrow> i64 \<Rightarrow> string \<Rightarrow> 'j \<Rightarrow> 'j message option" where
  "command_message J r1 r2 now cmd payload =
     map_option (\<lambda>p. (message_create J r1 r2 now COMMAND '''' '''')\<lparr>m_payload := p\<rparr>)
       (j_set J payload ''command'' (j_str J cmd))"

definition chat_message :: "'j json_api \<Rightarrow> u64 \<Rightarrow> u64 \<Rightarrow> i64 \<Rightarrow> string \<Rightarrow> string \<Rightarrow> 'j message" where
  "chat_message J r1 r2 now message room =
     (message_create J r1 r2 now MESSAGE '''' room)\<lparr>m_payload := j_obj J [(''message'', j_str J message)]\<rparr>"

section \<open>Connecting, reading and reconnecting\<close>

definition tc_new_socket :: "tls_client \<Rightarrow> tls_client" where
  "tc_new_socket c = c\<lparr>tc_wire := []\<rparr>"

definition tc_connect :: "tls_client \<Rightarrow> tls_client" where
  "tc_connect c = tc_new_socket (c\<lparr>tc_attempts := 0, tc_phase := Resolving\<rparr>)"

definition tc_do_reconnect :: "tls_client \<Rightarrow> tls_client" where
  "tc_do_reconnect c = c\<lparr>tc_attempts := Suc (tc_attempts c), tc_phase := ReconnectWait\<rparr>"

definition tc_handle_disconnect :: "string \<Rightarrow> tls_client \<Rightarrow> 'j tc_event list \<times> tls_client" where
  "tc_handle_disconnect reason c =
     (let was_connected = tc_connected c; c = c\<lparr>tc_connected := False, tc_phase := TcIdle\<rparr>
      in (if was_connected then [Disconnected reason] else [],
          if tc_reconnect_enabled c \<and> \<not> tc_stopping c \<and> tc_attempts c < tc_max_attempts c
          then tc_do_reconnect c else c))"

definition tc_fail :: "string \<Rightarrow> string \<Rightarrow> tls_client \<Rightarrow> 'j tc_event list \<times> tls_client" where
  "tc_fail error reason c =
     (let (evs, c) = tc_handle_disconnect reason c in (ConnectResult False error # evs, c))"

definition tc_on_resolved :: "string option \<Rightarrow> tls_client \<Rightarrow> 'j tc_event list \<times> tls_client" where
  "tc_on_resolved ec c =
     (case ec of
        Some e \<Rightarrow> tc_fail (''Failed to resolve host: '' @ e) ''Resolution failed'' c
      | None \<Rightarrow> ([], c\<lparr>tc_phase := Connecting\<rparr>))"

definition tc_on_connected :: "string option \<Rightarrow> tls_client \<Rightarrow> 'j tc_event list \<times> tls_client" where
  "tc_on_connected ec c =
     (case ec of
        Some e \<Rightarrow> tc_fail (''Connection failed: '' @ e) ''Connection failed'' c
      | None \<Rightarrow> ([], c\<lparr>tc_phase := Handshaking\<rparr>))"

definition tc_do_read_header :: "tls_client \<Rightarrow> tls_client" where
  "tc_do_read_header c =
     c\<lparr>tc_phase := if \<not> tc_connected c \<or> tc_stopping c then TcIdle else ReadHeader\<rparr>"

definition tc_do_read_body :: "u32 \<Rightarrow> tls_client \<Rightarrow> tls_client" where
  "tc_do_read_body len c =
     c\<lparr>tc_phase := if \<not> tc_connected c \<or> tc_stopping c then TcIdle else ReadBody len\<rparr>"

definition tc_on_handshake :: "string option \<Rightarrow> tls_client \<Rightarrow> 'j tc_event list \<times> tls_client" where
  "tc_on_handshake ec c =
     (case ec of
        Some e \<Rightarrow> tc_fail (''TLS handshake failed: '' @ e) ''Handshake failed'' c
      | None \<Rightarrow>
          ([ConnectResult True ''''], tc_do_read_header (c\<lparr>tc_connected := True, tc_attempts := 0\<rparr>)))"

definition tc_on_header :: "string + bytes \<Rightarrow> tls_client \<Rightarrow> 'j tc_event list \<times> tls_client" where
  "tc_on_header r c =
     (case r of
        Inl e \<Rightarrow> tc_handle_disconnect e c
      | Inr h \<Rightarrow>
          if unat (read_length h) > MAX_MESSAGE_SIZE then tc_handle_disconnect ''Server sent oversized message'' c
          else ([], tc_do_read_body (read_length h) c))"

text \<open>A message that cannot be parsed is logged; an exception of the handler ends there too.\<close>

definition tc_on_body :: "'j json_api \<Rightarrow> string + bytes \<Rightarrow> tls_client \<Rightarrow> 'j tc_event list \<times> tls_client" where
  "tc_on_body J r c =
     (case r of
        Inl e \<Rightarrow> tc_handle_disconnect e c
      | Inr b \<Rightarrow>
          (case decode_message J b of None \<Rightarrow> [] | Some m \<Rightarrow> [Received m], tc_do_read_header c))"

definition tc_on_reconnect_timer :: "string option \<Rightarrow> tls_client \<Rightarrow> tls_client" where
  "tc_on_reconnect_timer ec c =
     (if ec = None \<and> \<not> tc_stopping c then tc_new_socket (c\<lparr>tc_phase := ReconnectResolving\<rparr>)
      else c\<lparr>tc_phase := TcIdle\<rparr>)"

definition tc_on_reresolved :: "string option \<Rightarrow> tls_client \<Rightarrow> tls_client" where
  "tc_on_reresolved ec c =
     (if ec = None then c\<lparr>tc_phase := Connecting\<rparr>
      else if tc_attempts c < tc_max_attempts c then tc_do_reconnect c
      else c\<lparr>tc_phase := TcIdle\<rparr>)"

definition tc_enable_reconnect :: "nat \<Rightarrow> nat \<Rightarrow> tls_client \<Rightarrow> tls_client" where
  "tc_enable_reconnect max_attempts delay_ms c =
     c\<lparr>tc_reconnect_enabled := True, tc_max_attempts := max_attempts, tc_delay_ms := delay_ms\<rparr>"

definition tc_disable_reconnect :: "tls_client \<Rightarrow> tls_client" where
  "tc_disable_reconnect c = c\<lparr>tc_reconnect_enabled := False\<rparr>"

definition tc_disconnect :: "tls_client \<Rightarrow> tls_client" where
  "tc_disconnect c = (if \<not> tc_connected c then c else c\<lparr>tc_connected := False\<rparr>)"

definition tc_run :: "tls_client \<Rightarrow> tls_client" where
  "tc_run c = c\<lparr>tc_running := True\<rparr>"

definition tc_stop :: "tls_client \<Rightarrow> tls_client" where
  "tc_stop c =
     (if tc_stopping c then c else (tc_disconnect (c\<lparr>tc_stopping := True\<rparr>))\<lparr>tc_running := False\<rparr>)"

section \<open>Steps\<close>

text \<open>
  The calls and completions that can happen to a client whose reconnection policy is set.
  A completion needs its operation to be pending.
\<close>

inductive tc_step :: "'j json_api \<Rightarrow> tls_client \<Rightarrow> 'j tc_event list \<Rightarrow> tls_client \<Rightarrow> bool" for J where
  send: "tc_step J c [] (tc_send J m c)"
| written: "tc_write_op c \<Longrightarrow> tc_step J c [] (tc_write_done ec c)"
| connect: "tc_step J c [] (tc_connect c)"
| resolved: "tc_phase c = Resolving \<Longrightarrow> tc_on_resolved ec c = (evs, c') \<Longrightarrow> tc_step J c evs c'"
| connected: "tc_phase c = Connecting \<Longrightarrow> tc_on_connected ec c = (evs, c') \<Longrightarrow> tc_step J c evs c'"
| handshake: "tc_phase c = Handshaking \<Longrightarrow> tc_on_handshake ec c = (evs, c') \<Longrightarrow> tc_step J c evs c'"
| header: "tc_phase c = ReadHeader \<Longrightarrow> tc_on_header r c = (evs, c') \<Longrightarrow> tc_step J c evs c'"
| body: "tc_phase c = ReadBody len \<Longrightarrow> tc_on_body J b c = (evs, c') \<Longrightarrow> tc_step J c evs c'"
| timer: "tc_phase c = ReconnectWait \<Longrightarrow> tc_step J c [] (tc_on_reconnect_timer ec c)"
| reresolved: "tc_phase c = ReconnectResolving \<Longrightarrow> tc_step J c [] (tc_on_reresolved ec c)"
| disconnect: "tc_step J c [] (tc_disconnect c)"
| run: "tc_step J c [] (tc_run c)"
| stop: "tc_step J c [] (tc_stop c)"

inductive tc_steps :: "'j json_api \<Rightarrow> tls_client \<Rightarrow> 'j tc_event list \<Rightarrow> tls_client \<Rightarrow> bool" for J where
  refl: "tc_steps J c [] c"
| step: "tc_step J c evs c' \<Longrightarrow> tc_steps J c' evs' c'' \<Longrightarrow> tc_steps J c (evs @ evs') c''"

lemmas tc_defs = tc_send_def tc_enqueue_def tc_do_write_def tc_write_done_def tc_connect_def tc_new_socket_def
  tc_on_resolved_def tc_fail_def tc_handle_disconnect_def tc_do_reconnect_def tc_on_connected_def
  tc_on_handshake_def tc_do_read_header_def tc_on_header_def tc_do_read_body_def tc_on_body_def
  tc_on_reconnect_timer_def tc_on_reresolved_def tc_disconnect_def tc_run_def tc_stop_def

section \<open>Order of writes\<close>

definition tc_complete :: "tls_client \<Rightarrow> tls_client" where
  "tc_complete c = (if tc_write_op c then tc_write_done None c else c)"

interpretation tq: write_queue tc_enqueue tc_complete tc_queue tc_wire tc_write_op
    "\<lambda>c. tc_connected c \<and> \<not> tc_stopping c \<and> tc_writing c = tc_write_op c"
  by unfold_locales (auto simp: tc_enqueue_def tc_do_write_def tc_complete_def tc_write_done_def Let_def)

text \<open>
  While the client stays connected, however sends and write completions interleave, the
  frames reach the socket in the order they were sent and each once.
\<close>

theorem client_writes_in_order:
  assumes "tc_connected c" and "\<not> tc_stopping c" and "\<not> tc_writing c" and "\<not> tc_write_op c" and "tc_queue c = []"
  shows "let c' = wq_run tc_enqueue tc_complete es c in
    tc_wire c' @ tl (tc_queue c') = tc_wire c @ wq_pushed es \<and> (tc_write_op c' \<longleftrightarrow> tc_queue c' \<noteq> [])"
proof -
  have "tq.tracks (tc_wire c) c" using assms by (simp add: tq.tracks_def)
  from tq.tracks_run [OF this, of es] show ?thesis by (simp add: tq.tracks_def Let_def)
qed

theorem client_writes_in_order_witness:
  "let c' = wq_run tc_enqueue tc_complete [Push [1], Push [2], Complete, Push [3]]
         (tls_client_new\<lparr>tc_connected := True\<rparr>) in
    tc_wire c' @ tl (tc_queue c') = [[1], [2], [3]] \<and> (tc_write_op c' \<longleftrightarrow> tc_queue c' \<noteq> [])"
  using client_writes_in_order [of "tls_client_new\<lparr>tc_connected := True\<rparr>" "[Push [1], Push [2], Complete, Push [3]]"]
  by (simp add: tls_client_new_def Let_def)

section \<open>Reconnection\<close>

text \<open>
  A property of the client that its elementary changes keep is kept by every step.
\<close>

lemma tc_step_keeps:
  fixes J :: "'j json_api"
  assumes "tc_step J c evs c'" and "P c"
    and disc: "\<And>reason. P (snd (tc_handle_disconnect reason c :: 'j tc_event list \<times> tls_client))"
    and phase: "\<And>p. p \<notin> {ReconnectWait, ReconnectResolving} \<Longrightarrow> P (c\<lparr>tc_phase := p\<rparr>)"
    and up: "\<And>p. p \<notin> {ReconnectWait, ReconnectResolving} \<Longrightarrow>
      P (c\<lparr>tc_connected := True, tc_attempts := 0, tc_phase := p\<rparr>)"
    and enq: "\<And>f. P (tc_enqueue f c)" and wr: "\<And>ec. tc_write_op c \<Longrightarrow> P (tc_write_done ec c)"
    and conn: "P (tc_connect c)"
    and timer: "\<And>ec. tc_phase c = ReconnectWait \<Longrightarrow> P (tc_on_reconnect_timer ec c)"
    and reres: "\<And>ec. tc_phase c = ReconnectResolving \<Longrightarrow> P (tc_on_reresolved ec c)"
    and calls: "P (tc_disconnect c)" "P (tc_run c)" "P (tc_stop c)"
  shows "P c'"
proof -
  have fail: "P (snd (tc_fail error reason c :: 'j tc_event list \<times> tls_client))" for error reason
    using disc [of reason] by (simp add: tc_fail_def case_prod_unfold Let_def)
  have 1: "P (snd (tc_on_resolved ec c :: 'j tc_event list \<times> tls_client))" for ec
    by (simp add: tc_on_resolved_def fail phase split: option.split)
  have 2: "P (snd (tc_on_connected ec c :: 'j tc_event list \<times> tls_client))" for ec
    by (simp add: tc_on_connected_def fail phase split: option.split)
  have 3: "P (snd (tc_on_handshake ec c :: 'j tc_event list \<times> tls_client))" for ec
    by (simp add: tc_on_handshake_def tc_do_read_header_def fail up split: option.split)
  have 4: "P (snd (tc_on_header r c :: 'j tc_event list \<times> tls_client))" for r
    by (simp add: tc_on_header_def tc_do_read_body_def disc phase split: sum.split)
  have 5: "P (snd (tc_on_body J r c))" for r
    by (simp add: tc_on_body_def tc_do_read_header_def disc phase split: sum.split)
  have 6: "P (tc_send J m c)" for m
    by (simp add: tc_send_def \<open>P c\<close> enq split: option.split)
  from assms(1) show ?thesis
    by cases (use 1 2 3 4 5 in \<open>metis snd_conv\<close> | simp add: 6 wr conn timer reres calls)+
qed

definition tc_inv :: "tls_client \<Rightarrow> bool" where
  "tc_inv c \<longleftrightarrow> tc_attempts c \<le> tc_max_attempts c \<and> (tc_writing c \<longrightarrow> tc_queue c \<noteq> []) \<and>
     (tc_write_op c \<longrightarrow> tc_writing c) \<and>
     (tc_connected c \<longrightarrow> tc_phase c \<notin> {ReconnectWait, ReconnectResolving})"

lemma tc_inv_enqueue: "tc_inv c \<Longrightarrow> tc_inv (tc_enqueue frame c)"
  by (simp add: tc_inv_def tc_enqueue_def tc_do_write_def Let_def)

lemma tc_inv_write_done: "tc_inv c \<Longrightarrow> tc_write_op c \<Longrightarrow> tc_inv (tc_write_done ec c)"
  by (simp add: tc_inv_def tc_write_done_def tc_do_write_def Let_def split: option.split)

lemma tc_inv_step:
  assumes "tc_step J c evs c'" and "tc_inv c"
  shows "tc_inv c'"
  using assms
proof (rule tc_step_keeps)
  fix f ec
  show "tc_inv (tc_enqueue f c)" by (rule tc_inv_enqueue [OF assms(2)])
  show "tc_inv (tc_write_done ec c)" if "tc_write_op c" by (rule tc_inv_write_done [OF assms(2) that])
qed (use assms(2) in \<open>simp_all add: tc_inv_def tc_handle_disconnect_def Let_def tc_connect_def tc_new_socket_def
    tc_on_reconnect_timer_def tc_on_reresolved_def tc_do_reconnect_def tc_disconnect_def tc_run_def tc_stop_def\<close>)

lemma tc_inv_steps: "tc_steps J c evs c' \<Longrightarrow> tc_inv c \<Longrightarrow> tc_inv c'"
  by (induction rule: tc_steps.induct) (auto intro: tc_inv_step)

text \<open>
  In every reachable state the client has made at most the configured number of attempts
  to reconnect since it last got through, a pending write has its buffer at the front of the
  queue, and no reconnection is under way while it is connected.
\<close>

theorem reconnect_attempts_bounded:
  assumes "tc_steps J (tc_enable_reconnect n delay tls_client_new) evs c"
  shows "tc_attempts c \<le> n \<and> (tc_write_op c \<longrightarrow> tc_queue c \<noteq> []) \<and>
    (tc_connected c \<longrightarrow> tc_phase c \<notin> {ReconnectWait, ReconnectResolving})"
proof -
  have max: "tc_max_attempts c' = tc_max_attempts c" if "tc_step J c evs c'" for c evs c'
    by (rule tc_step_keeps [OF that, of "\<lambda>d. tc_max_attempts d = tc_max_attempts c"])
      (simp_all add: tc_defs Let_def split: option.split)
  have "tc_steps J c evs c' \<Longrightarrow> tc_max_attempts c' = tc_max_attempts c" for c evs c'
    by (induction rule: tc_steps.induct) (auto simp: max)
  from this [OF assms] have "tc_max_attempts c = n" by (simp add: tc_enable_reconnect_def)
  moreover have "tc_inv c"
    using tc_inv_steps [OF assms] by (simp add: tc_inv_def tc_enable_reconnect_def tls_client_new_def)
  ultimately show ?thesis by (auto simp: tc_inv_def)
qed

text \<open>One failed attempt: the timer fires, the name does not resolve.\<close>

definition failed_attempt :: "string \<Rightarrow> tls_client \<Rightarrow> tls_client" where
  "failed_attempt e c = tc_on_reresolved (Some e) (tc_on_reconnect_timer None c)"



section \<open>A lost writer\<close>

text \<open>The flag is set but no write is pending: no code path clears it or starts a write.\<close>

definition tc_muted :: "tls_client \<Rightarrow> bool" where
  "tc_muted c \<longleftrightarrow> tc_writing c \<and> \<not> tc_write_op c"

lemma tc_muted_step:
  assumes "tc_step J c evs c'" and "tc_muted c"
  shows "tc_muted c'"
  using assms
  by (rule tc_step_keeps)
    (use assms(2) in \<open>simp_all add: tc_muted_def tc_handle_disconnect_def Let_def tc_enqueue_def tc_connect_def
      tc_new_socket_def tc_on_reconnect_timer_def tc_on_reresolved_def tc_do_reconnect_def tc_disconnect_def
      tc_run_def tc_stop_def\<close>)

lemma tc_muted_steps: "tc_steps J c evs c' \<Longrightarrow> tc_muted c \<Longrightarrow> tc_muted c'"
  by (induction rule: tc_steps.induct) (auto intro: tc_muted_step)

text \<open>
  C40: When a write completes after the connection was lost and another frame waits behind it,
  the client never writes again: in every later state, also after it has reconnected, no
  write is pending and a further send hands nothing to the socket.
\<close>

theorem write_lost_on_reconnect:
  assumes "\<not> tc_connected c" and "tc_writing c" and "tc_queue c = f # g # fs"
    and "tc_steps J (tc_write_done None c) evs c'"
  shows "\<not> tc_write_op c' \<and> tc_wire (tc_send J m c') = tc_wire c' \<and> \<not> tc_write_op (tc_send J m c')"
proof -
  have "tc_muted (tc_write_done None c)"
    using assms(1-3) by (simp add: tc_muted_def tc_write_done_def tc_do_write_def Let_def)
  from tc_muted_steps [OF assms(4) this] show ?thesis
    by (simp add: tc_muted_def tc_send_def tc_enqueue_def Let_def split: option.split)
qed

text \<open>A run that gets there: two frames queued, the read fails first, the write then succeeds, and the client reconnects.\<close>

definition lost_sample :: tls_client where
  "lost_sample = (tc_enable_reconnect 5 3000 tls_client_new)\<lparr>tc_phase := ReconnectWait, tc_attempts := 1,
     tc_writing := True, tc_write_op := True, tc_queue := [[1], [2]], tc_wire := [[1]]\<rparr>"

definition regained_sample :: tls_client where
  "regained_sample = (tc_enable_reconnect 5 3000 tls_client_new)\<lparr>tc_phase := ReadHeader, tc_connected := True,
     tc_writing := True, tc_queue := [[2]], tc_wire := []\<rparr>"

lemmas tc_samples = lost_sample_def regained_sample_def tc_enable_reconnect_def tls_client_new_def

lemma lost_sample_reached:
  "snd (tc_on_header (Inl ''eof'') ((wq_run tc_enqueue tc_complete [Push [1], Push [2]]
     ((tc_enable_reconnect 5 3000 tls_client_new)\<lparr>tc_phase := ReadHeader, tc_connected := True\<rparr>)))) = lost_sample"
  by (simp add: tc_samples tc_on_header_def tc_handle_disconnect_def tc_do_reconnect_def tc_enqueue_def
      tc_do_write_def Let_def)

lemma regained_steps: "tc_steps J (tc_write_done None lost_sample) [ConnectResult True ''''] regained_sample"
proof -
  let ?c1 = "tc_write_done None lost_sample"
  let ?c2 = "tc_on_reconnect_timer None ?c1"
  let ?c3 = "tc_on_reresolved None ?c2"
  let ?c4 = "?c3\<lparr>tc_phase := Handshaking\<rparr>"
  note defs = tc_samples tc_write_done_def tc_do_write_def tc_on_reconnect_timer_def tc_new_socket_def
    tc_on_reresolved_def
  have "tc_step J ?c1 [] ?c2" by (rule tc_step.timer) (simp add: defs)
  moreover have "tc_step J ?c2 [] ?c3" by (rule tc_step.reresolved) (simp add: defs)
  moreover have "tc_step J ?c3 [] ?c4"
    by (rule tc_step.connected [of _ None]) (simp_all add: defs tc_on_connected_def)
  moreover have "tc_step J ?c4 [ConnectResult True ''''] regained_sample"
    by (rule tc_step.handshake [of _ None]) (simp_all add: defs tc_on_handshake_def tc_do_read_header_def)
  ultimately show ?thesis
    using tc_steps.refl [of J regained_sample] tc_steps.step append_Nil append_Nil2 by metis
qed

theorem write_lost_on_reconnect_witness:
  "tc_connected regained_sample \<and> tc_queue regained_sample = [[2]] \<and> \<not> tc_write_op regained_sample \<and>
   tc_wire (tc_send jval_api (message_system jval_api 0 0 0 ''x'') regained_sample) = []"
proof -
  have "\<not> tc_connected lost_sample" "tc_writing lost_sample" "tc_queue lost_sample = [[1], [2]]"
    by (simp_all add: tc_samples)
  from write_lost_on_reconnect [OF this regained_steps, of jval_api "message_system jval_api 0 0 0 ''x''"]
  show ?thesis by (simp add: tc_samples)
qed

theorem reconnect_attempts_bounded_witness:
  "tc_attempts (tc_connect (tc_enable_reconnect 5 3000 tls_client_new)) \<le> 5"
proof -
  have "tc_steps jval_api (tc_enable_reconnect 5 3000 tls_client_new) ([] @ []) (tc_connect (tc_enable_reconnect 5 3000 tls_client_new))"
    by (rule tc_steps.step [OF tc_step.connect tc_steps.refl])
  from reconnect_attempts_bounded [OF this] show ?thesis by simp
qed

end
