(* ===== verification/Input_Handler.thy ===== *)
theory Input_Handler
  imports Group_Manager Tls_Client
begin

text \<open>
  \<^verbatim>\<open>client/input_handler.{hpp,cpp}\<close>: what a line typed by the user does. The state holds the
  group manager (with its key manager) that the handler refers to, the session data and the
  sent direct messages whose echo is awaited. What goes out, messages to the connection and
  texts to the callbacks, is appended to \<open>ih_out\<close> in order; nothing in the handler depends on
  what becomes of it. Random draws are counted in the group manager.
\<close>

datatype 'j client_effect = Sent "'j message" | ReportedError string | ReportedStatus string | QuitRequested

record 'j input_handler =
  ih_gm :: group_manager
  ih_current_room :: string
  ih_username :: string
  ih_authenticated :: bool
  ih_sent_dm :: "string \<Rightarrow> string option"
  ih_sent_order :: "string list"
  ih_out :: "'j client_effect list"

definition input_handler_new :: "group_manager \<Rightarrow> 'j input_handler" where
  "input_handler_new g = \<lparr>ih_gm = g, ih_current_room = '''', ih_username = '''', ih_authenticated = False,
     ih_sent_dm = (\<lambda>_. None), ih_sent_order = [], ih_out = []\<rparr>"

definition available_commands :: "string list" where
  "available_commands = [''/login'', ''/register'', ''/join'', ''/leave'', ''/rooms'', ''/users'', ''/dm'', ''/rename'',
     ''/quit'', ''/exit'', ''/help'', ''/verify'', ''/roomkeys'']"

section \<open>Effects\<close>

definition ih_emit :: "'j client_effect \<Rightarrow> 'j input_handler \<Rightarrow> 'j input_handler" where
  "ih_emit e s = s\<lparr>ih_out := ih_out s @ [e]\<rparr>"

definition report_error :: "string \<Rightarrow> ('j input_handler, unit) act" where
  "report_error t = emodify (ih_emit (ReportedError t))"

definition report_status :: "string \<Rightarrow> ('j input_handler, unit) act" where
  "report_status t = emodify (ih_emit (ReportedStatus t))"

definition ih_send :: "'j message \<Rightarrow> ('j input_handler, unit) act" where
  "ih_send m = emodify (ih_emit (Sent m))"

definition ih_on_gm :: "(group_manager \<Rightarrow> 'a \<times> group_manager) \<Rightarrow> ('j input_handler, 'a) act" where
  "ih_on_gm f = elift (\<lambda>s. let (a, g) = f (ih_gm s) in (a, s\<lparr>ih_gm := g\<rparr>))"

text \<open>Two words for a new message identifier.\<close>

definition ih_draws :: "'j client_world \<Rightarrow> ('j input_handler, u64 \<times> u64) act" where
  "ih_draws W = ih_on_gm (\<lambda>g. ((cw_rand W (gm_draws g), cw_rand W (Suc (gm_draws g))), g\<lparr>gm_draws := gm_draws g + 2\<rparr>))"

definition ih_create :: "'j client_world \<Rightarrow> message_type \<Rightarrow> string \<Rightarrow> string \<Rightarrow> ('j input_handler, 'j message) act" where
  "ih_create W t from_user room =
     ebind (ih_draws W) (\<lambda>(r1, r2). eret (message_create (cw_json W) r1 r2 (cw_now W) t from_user room))"

definition send_command :: "'j client_world \<Rightarrow> string \<Rightarrow> 'j \<Rightarrow> ('j input_handler, unit) act" where
  "send_command W cmd payload =
     ebind (ih_draws W) (\<lambda>(r1, r2).
     ebind (eopt (command_message (cw_json W) r1 r2 (cw_now W) cmd payload)) ih_send)"

section \<open>Echoes of direct messages\<close>

definition MAX_SENT_DM :: nat where "MAX_SENT_DM = 100"

definition remember_sent_dm :: "string \<Rightarrow> string \<Rightarrow> 'j input_handler \<Rightarrow> 'j input_handler" where
  "remember_sent_dm ciphertext plaintext s =
     (let order = ih_sent_order s @ [ciphertext];
          dropped = take (length order - MAX_SENT_DM) order
      in s\<lparr>ih_sent_dm := (\<lambda>c. if c \<in> set dropped then None else ((ih_sent_dm s)(ciphertext \<mapsto> plaintext)) c),
          ih_sent_order := pop_front_while MAX_SENT_DM order\<rparr>)"

definition take_sent_dm_plaintext :: "string \<Rightarrow> 'j input_handler \<Rightarrow> string option \<times> 'j input_handler" where
  "take_sent_dm_plaintext ciphertext s =
     (case ih_sent_dm s ciphertext of
        None \<Rightarrow> (None, s)
      | Some t \<Rightarrow> (Some t, s\<lparr>ih_sent_dm := (ih_sent_dm s)(ciphertext := None)\<rparr>))"

section \<open>Room messages\<close>

definition em_dash :: string where "em_dash = [CHR 0xE2, CHR 0x80, CHR 0x94]"

definition send_room_message :: "'j client_world \<Rightarrow> string \<Rightarrow> ('j input_handler, unit) act" where
  "send_room_message W txt =
     ebind (eread (\<lambda>s. (ih_authenticated s, ih_current_room s, ih_username s))) (\<lambda>(auth, room, user).
       if \<not> auth then report_error ''Please login first. Use /login <username> <password>''
       else if room = [] then report_error ''Not in any room. Use /join <room> first.''
       else ebind (ih_create W ENCRYPTED_MESSAGE user room) (\<lambda>msg.
         ebind (ih_on_gm (gm_seal W room (m_id msg) txt)) (\<lambda>r. case r of
           Inl err \<Rightarrow> report_error (''Cannot encrypt for #'' @ room @ '': '' @ err @
             ''. Room keys are still being exchanged '' @ em_dash @ '' try again shortly.'')
         | Inr payload \<Rightarrow> ih_send (msg\<lparr>m_payload := payload\<rparr>))))"

section \<open>Direct messages\<close>

fun join_blank :: "string list \<Rightarrow> string" where
  "join_blank [] = []"
| "join_blank [a] = a"
| "join_blank (a # as) = a @ '' '' @ join_blank as"

text \<open>The payload after its members were assigned.\<close>

definition dm_payload :: "'j json_api \<Rightarrow> string \<Rightarrow> string \<Rightarrow> 'j" where
  "dm_payload J recipient message = j_obj J [(''to'', j_str J recipient), (''message'', j_str J message)]"

definition encrypted_dm_payload :: "'j json_api \<Rightarrow> string \<Rightarrow> encrypted_message \<Rightarrow> string \<Rightarrow> 'j" where
  "encrypted_dm_payload J recipient em pk = j_obj J [(''to'', j_str J recipient), (''message'', j_str J (em_ciphertext em)),
     (''nonce'', j_str J (em_nonce em)), (''sender_public_key'', j_str J pk), (''encrypted'', j_bool J True)]"

definition key_request :: "'j json_api \<Rightarrow> string \<Rightarrow> 'j" where
  "key_request J user = j_obj J [(''action'', j_str J ''request_key''), (''username'', j_str J user)]"

definition send_dm :: "'j client_world \<Rightarrow> string \<Rightarrow> string \<Rightarrow> ('j input_handler, unit) act" where
  "send_dm W recipient message = (let J = cw_json W; S = cw_sodium W in
     ebind (eread (\<lambda>s. gm_keys (ih_gm s))) (\<lambda>k.
     ebind (case get_cached_key recipient k of
        Some key \<Rightarrow>
          if km_initialized k then
            ebind (ih_on_gm (gm_random W crypto_box_NONCEBYTES)) (\<lambda>nonce.
              case km_encrypt S nonce message key k of
                None \<Rightarrow> eret (dm_payload J recipient message)
              | Some em \<Rightarrow>
                  eseq (emodify (remember_sent_dm (em_ciphertext em) message))
                    (eret (encrypted_dm_payload J recipient em (get_public_key S k))))
          else eret (dm_payload J recipient message)
      | None \<Rightarrow>
          if km_initialized k then
            ebind (eread ih_username) (\<lambda>user.
            ebind (ih_create W KEY_EXCHANGE user '''') (\<lambda>req.
              eseq (ih_send (req\<lparr>m_payload := key_request J recipient\<rparr>)) (eret (dm_payload J recipient message))))
          else eret (dm_payload J recipient message)) (send_command W ''dm'')))"

section \<open>Identity and key commands\<close>

definition nl :: string where "nl = [CHR 10]"

definition quoted :: "string \<Rightarrow> string" where
  "quoted user = [CHR 39] @ user @ [CHR 39]"

definition identity_text :: "string \<Rightarrow> peer_info_rec \<Rightarrow> string" where
  "identity_text user info =
     ''Identity for '' @ quoted user @ '':'' @
     nl @ ''  Fingerprint: '' @ pi_fingerprint info @
     (if pi_ed25519 info = [] then ''  (signing key not seen yet '' @ em_dash @ '' covers box key only)'' else []) @
     nl @ ''  Box key:     '' @ pi_x25519 info @
     nl @ ''  Signing key: '' @ (if pi_ed25519 info = [] then ''(not seen yet)'' else pi_ed25519 info) @
     (if pi_pending_change info then
        nl @ ''  Status:      ! IDENTITY KEY CHANGED '' @ em_dash @ '' investigate, then /verify '' @ user @ '' accept to re-pin''
      else if pi_verified info then nl @ ''  Status:      OK verified''
      else nl @ ''  Status:      pinned (trust on first use)'')"

definition handle_verify :: "'j client_world \<Rightarrow> string list \<Rightarrow> ('j input_handler, unit) act" where
  "handle_verify W args = (let S = cw_sodium W in
     case args of
       [] \<Rightarrow> ebind (eread (\<lambda>s. get_identity_fingerprint S (gm_keys (ih_gm s)))) (\<lambda>fp.
         report_status (''Your identity fingerprint:'' @ nl @ ''  '' @ fp @ nl @
           ''Share it out-of-band; others can confirm with /verify <you> ok''))
     | user # opts \<Rightarrow>
         let action = (case opts of a # _ \<Rightarrow> map tolower_c a | [] \<Rightarrow> []) in
         if action = ''ok'' \<or> action = ''confirm'' \<or> action = ''verified'' then
           ebind (ih_on_gm (mark_peer_verified user True)) (\<lambda>ok.
             if ok then report_status (''Marked '' @ quoted user @ '' as verified.'')
             else report_error (''No pinned key for '' @ quoted user @ '' yet '' @ em_dash @
               '' wait for a room key or DM from them.''))
         else if action = ''accept'' then
           ebind (ih_on_gm (accept_peer_key user)) (\<lambda>ok.
             if ok then report_status (''Accepted the new identity key for '' @ quoted user @
               '' (unverified '' @ em_dash @ '' compare fingerprints out-of-band).'')
             else report_error (''No changed key pending for '' @ quoted user @ ''.''))
         else if action \<noteq> [] then report_error ''Usage: /verify <user> [ok|accept]''
         else ebind (eread (\<lambda>s. peer_info S user (ih_gm s))) (\<lambda>info.
           if \<not> pi_pin_known info then
             report_status (''No keys seen for '' @ quoted user @ '' yet (a TOFU pin is created on first contact).'')
           else report_status (identity_text user info)))"

definition peer_status :: "peer_info_rec \<Rightarrow> string" where
  "peer_status info =
     (if pi_pending_change info then ''! KEY CHANGED'' else if pi_verified info then ''OK verified'' else ''pinned'')"

definition summary_text :: "sodium_api \<Rightarrow> group_manager \<Rightarrow> room_summary_rec \<Rightarrow> string" where
  "summary_text S g su =
     ''Room key state for #'' @ su_room su @ '':'' @
     nl @ ''  Epoch:    '' @ u64_to_string (su_epoch su) @
     nl @ ''  Our key:  '' @ (if su_own_key_set su then su_own_key_id su else ''(not generated yet)'') @
     nl @ ''  Members with keys:'' @ (if su_peers_with_keys su = [] then '' (none)'' else []) @
     concat (map (\<lambda>peer. nl @ ''    - '' @ peer @ '' ('' @ peer_status (peer_info S peer g) @ '')'') (su_peers_with_keys su)) @
     (if su_members_without_keys su = [] then []
      else nl @ ''  Awaiting keys from:'' @ concat (map (\<lambda>peer. nl @ ''    - '' @ peer) (su_members_without_keys su)))"

definition handle_roomkeys :: "'j client_world \<Rightarrow> string list \<Rightarrow> ('j input_handler, unit) act" where
  "handle_roomkeys W args =
     ebind (eread (\<lambda>s. case args of [] \<Rightarrow> ih_current_room s | a # _ \<Rightarrow> a)) (\<lambda>room.
       if room = [] then report_error ''Usage: /roomkeys [room]''
       else ebind (eread ih_gm) (\<lambda>g. case room_summary room g of
         None \<Rightarrow> report_error (''No encryption state for #'' @ room @ '' yet (join the room first).'')
       | Some su \<Rightarrow> report_status (summary_text (cw_sodium W) g su)))"

section \<open>Commands\<close>

definition credentials :: "'j json_api \<Rightarrow> string \<Rightarrow> string \<Rightarrow> 'j" where
  "credentials J user password = j_obj J [(''username'', j_str J user), (''password'', j_str J password),
     (''protocol_version'', j_u64 J PROTOCOL_VERSION)]"

definition room_arg :: "'j json_api \<Rightarrow> string list \<Rightarrow> 'j" where
  "room_arg J args = (case args of [] \<Rightarrow> j_null J | a # _ \<Rightarrow> j_obj J [(''room'', j_str J a)])"

definition client_command :: "'j client_world \<Rightarrow> string \<Rightarrow> string list \<Rightarrow> ('j input_handler, unit) act" where
  "client_command W cmd args = (let J = cw_json W in
     if cmd = ''quit'' \<or> cmd = ''exit'' \<or> cmd = ''q'' then
       eseq (send_command W ''quit'' (j_null J)) (emodify (ih_emit QuitRequested))
     else if cmd = ''help'' \<or> cmd = ''h'' \<or> cmd = ''?'' then send_command W ''help'' (j_null J)
     else if cmd = ''login'' then
       (if length args < 2 then report_error ''Usage: /login <username> <password>''
        else send_command W ''login'' (credentials J (args ! 0) (args ! 1)))
     else if cmd = ''register'' then
       (if length args < 2 then report_error ''Usage: /register <username> <password>''
        else send_command W ''register'' (credentials J (args ! 0) (args ! 1)))
     else if cmd = ''join'' \<or> cmd = ''j'' then
       (if args = [] then report_error ''Usage: /join <room>''
        else send_command W ''join'' (j_obj J [(''room'', j_str J (args ! 0))]))
     else if cmd = ''leave'' \<or> cmd = ''part'' then send_command W ''leave'' (room_arg J args)
     else if cmd = ''users'' \<or> cmd = ''who'' then send_command W ''users'' (room_arg J args)
     else if cmd = ''dm'' \<or> cmd = ''msg'' \<or> cmd = ''pm'' then
       (if length args < 2 then report_error ''Usage: /dm <user> <message>''
        else send_dm W (args ! 0) (join_blank (tl args)))
     else if cmd = ''rename'' \<or> cmd = ''nick'' then
       (if args = [] then report_error ''Usage: /rename <newname>''
        else send_command W ''rename'' (j_obj J [(''newname'', j_str J (args ! 0))]))
     else if cmd = ''rooms'' then send_command W ''rooms'' (j_null J)
     else if cmd = ''verify'' then handle_verify W args
     else if cmd = ''roomkeys'' then handle_roomkeys W args
     else send_command W cmd (if args = [] then j_null J else j_obj J [(''args'', j_strs J args)]))"

definition process_line :: "'j client_world \<Rightarrow> string \<Rightarrow> ('j input_handler, unit) act" where
  "process_line W line =
     (case line of
        [] \<Rightarrow> eret ()
      | c # rest \<Rightarrow>
          if c = CHR ''/'' then
            (case split_ws rest of
               [] \<Rightarrow> eret ()
             | cmd # args \<Rightarrow> client_command W (map tolower_c cmd) args)
          else send_room_message W line)"

section \<open>Properties\<close>

lemma ih_on_gm_run [effect_simps]:
  "ih_on_gm f s = (Some (fst (f (ih_gm s))), s\<lparr>ih_gm := snd (f (ih_gm s))\<rparr>)"
  by (simp add: ih_on_gm_def elift_def case_prod_unfold Let_def)

lemma ih_draws_run [effect_simps]:
  "ih_draws W s = (let n = gm_draws (ih_gm s) in
     (Some (cw_rand W n, cw_rand W (Suc n)), s\<lparr>ih_gm := (ih_gm s)\<lparr>gm_draws := n + 2\<rparr>\<rparr>))"
  by (simp add: ih_draws_def ih_on_gm_run Let_def)

lemma report_run [effect_simps]:
  "report_error t s = (Some (), ih_emit (ReportedError t) s)"
  "report_status t s = (Some (), ih_emit (ReportedStatus t) s)"
  "ih_send m s = (Some (), ih_emit (Sent m) s)"
  by (simp_all add: report_error_def report_status_def ih_send_def effect_simps)

lemma ih_create_run [effect_simps]:
  "ih_create W t u r s = (let n = gm_draws (ih_gm s) in
     (Some (message_create (cw_json W) (cw_rand W n) (cw_rand W (Suc n)) (cw_now W) t u r),
      s\<lparr>ih_gm := (ih_gm s)\<lparr>gm_draws := n + 2\<rparr>\<rparr>))"
  by (simp add: ih_create_def effect_simps Let_def)

text \<open>The message an encrypted line is sent as, before its payload is set.\<close>

definition line_message :: "'j client_world \<Rightarrow> 'j input_handler \<Rightarrow> 'j message" where
  "line_message W s = message_create (cw_json W) (cw_rand W (gm_draws (ih_gm s)))
     (cw_rand W (Suc (gm_draws (ih_gm s)))) (cw_now W) ENCRYPTED_MESSAGE (ih_username s) (ih_current_room s)"

definition line_sealed :: "'j client_world \<Rightarrow> string \<Rightarrow> 'j input_handler \<Rightarrow> (string + 'j) \<times> group_manager" where
  "line_sealed W line s = gm_seal W (ih_current_room s) (m_id (line_message W s)) line
     ((ih_gm s)\<lparr>gm_draws := gm_draws (ih_gm s) + 2\<rparr>)"

lemma send_room_message_sealed:
  assumes "ih_authenticated s" and "ih_current_room s \<noteq> []" and "line_sealed W line s = (Inr payload, g)"
  shows "send_room_message W line s =
    (Some (), ih_emit (Sent ((line_message W s)\<lparr>m_payload := payload\<rparr>)) (s\<lparr>ih_gm := g\<rparr>))"
  using assms by (simp add: send_room_message_def effect_simps Let_def line_message_def line_sealed_def)

text \<open>
  C8: A typed line that is not a command never leaves the client as plaintext: it makes exactly
  one effect, which is an error report, or one message of the encrypted type, from the user
  to the current room, whose payload is the sealed form of the line under its own
  identifier.
\<close>

theorem typed_text_only_sealed:
  assumes "line \<noteq> []" and "hd line \<noteq> CHR ''/''"
  shows "\<exists>e s'. process_line W line s = (Some (), s') \<and> ih_out s' = ih_out s @ [e] \<and>
    ((\<exists>t. e = ReportedError t) \<or>
     (\<exists>m. e = Sent m \<and> m_type m = ENCRYPTED_MESSAGE \<and> m_from m = ih_username s \<and> m_room m = ih_current_room s \<and>
        fst (gm_seal W (m_room m) (m_id m) line ((ih_gm s)\<lparr>gm_draws := gm_draws (ih_gm s) + 2\<rparr>)) = Inr (m_payload m)))"
proof -
  have line: "process_line W line s = send_room_message W line s"
    using assms by (cases line) (simp_all add: process_line_def)
  obtain r g where seal: "line_sealed W line s = (r, g)" by (cases "line_sealed W line s")
  show ?thesis
  proof (cases "ih_authenticated s \<and> ih_current_room s \<noteq> []")
    case False
    then show ?thesis unfolding line by (auto simp: send_room_message_def effect_simps ih_emit_def)
  next
    case True
    show ?thesis
    proof (cases r)
      case (Inl err)
      with True seal show ?thesis unfolding line
        by (simp add: send_room_message_def effect_simps Let_def line_sealed_def line_message_def ih_emit_def)
    next
      case (Inr payload)
      with True seal send_room_message_sealed [of s W line payload g] show ?thesis unfolding line
        by (simp add: ih_emit_def line_message_def line_sealed_def message_create_def)
    qed
  qed
qed

theorem typed_text_only_sealed_witness:
  "\<exists>e s'. process_line toy_world ''hello'' (input_handler_new (group_manager_new key_manager_new)) = (Some (), s') \<and>
     ih_out s' = [e] \<and> (\<exists>t. e = ReportedError t \<or> (\<exists>m. e = Sent m \<and> m_type m = ENCRYPTED_MESSAGE))"
  using typed_text_only_sealed [of "''hello''" toy_world "input_handler_new (group_manager_new key_manager_new)"]
  by (auto simp: input_handler_new_def)

section \<open>No command throws\<close>

lemma returns_effects [returns_intros]:
  "returns (report_error t)" "returns (report_status t)" "returns (ih_send m)" "returns (ih_on_gm q)"
  "returns (ih_draws W)" "returns (ih_create W ty u r)"
  by (simp_all add: returns_def effect_simps Let_def)

text \<open>A payload that \<^verbatim>\<open>operator[]\<close> can extend.\<close>

definition extendable :: "'j json_api \<Rightarrow> 'j \<Rightarrow> bool" where
  "extendable J p \<longleftrightarrow> p = j_null J \<or> (\<exists>kvs. distinct (map fst kvs) \<and> p = j_obj J kvs)"

lemma extendable_null: "extendable J (j_null J)"
  by (simp add: extendable_def)

lemma extendable_obj: "distinct (map fst kvs) \<Longrightarrow> extendable J (j_obj J kvs)"
  by (auto simp: extendable_def)

lemma returns_send_command:
  assumes "json_ok (cw_json W)" and "extendable (cw_json W) p"
  shows "returns (send_command W cmd p)"
proof -
  obtain q where "j_set (cw_json W) p ''command'' (j_str (cw_json W) cmd) = Some q"
    using assms json_ok_set [OF assms(1)] by (auto simp: extendable_def)
  then show ?thesis
    by (simp add: returns_def send_command_def effect_simps Let_def command_message_def)
qed

lemma returns_send_dm:
  assumes J: "json_ok (cw_json W)"
  shows "returns (send_dm W recipient message)"
proof -
  have cmd: "returns (ebind m (send_command W ''dm''))" if "\<And>s. \<exists>p s'. m s = (Some p, s') \<and> extendable (cw_json W) p" for m
    unfolding returns_def
  proof
    fix s
    from that [of s] obtain p s' where "m s = (Some p, s')" "extendable (cw_json W) p" by blast
    with returns_send_command [OF J, of p "''dm''"] show "fst (ebind m (send_command W ''dm'') s) \<noteq> None"
      by (simp add: ebind_run returns_def)
  qed
  have ext: "extendable (cw_json W) (dm_payload (cw_json W) r t)"
    "extendable (cw_json W) (encrypted_dm_payload (cw_json W) r em pk)" for r t em pk
    by (simp_all add: dm_payload_def encrypted_dm_payload_def extendable_obj)
  show ?thesis
    unfolding send_dm_def Let_def
    by (intro returns_ebind returns_eread cmd) (auto simp: effect_simps Let_def ext split: option.split)
qed

lemma returns_verify: "returns (handle_verify W args)"
  unfolding handle_verify_def Let_def
  by (cases args) (auto intro!: returns_intros)

lemma returns_roomkeys: "returns (handle_roomkeys W args)"
  unfolding handle_roomkeys_def
  by (intro returns_intros)



section \<open>Echoes\<close>

interpretation de: echo_cache remember_sent_dm take_sent_dm_plaintext ih_sent_dm ih_sent_order MAX_SENT_DM
  by unfold_locales (auto simp: remember_sent_dm_def take_sent_dm_plaintext_def pop_front_while_eq Let_def
      MAX_SENT_DM_def split: option.split)

text \<open>
  The plaintext remembered for an encrypted room message is given out for its echo exactly
  once, as long as fewer than 200 newer messages were sent in between, and that of a direct
  message as long as fewer than 100 were; echoes of other messages do not disturb it.
\<close>

theorem echo_given_once:
  assumes "mid \<notin> set (gm_echo_order g)" and "mid \<notin> set (echo_keys es)" and "mid \<notin> set (echo_taken es)"
    and "length (echo_keys es) < 200"
    and "ct \<notin> set (ih_sent_order s)" and "ct \<notin> set (echo_keys ds)" and "ct \<notin> set (echo_taken ds)"
    and "length (echo_keys ds) < 100"
  shows "(let g' = echo_run remember_echo take_own_message es (remember_echo mid txt g) in
      fst (take_own_message mid g') = Some txt \<and>
      fst (take_own_message mid (snd (take_own_message mid g'))) = None) \<and>
    (let s' = echo_run remember_sent_dm take_sent_dm_plaintext ds (remember_sent_dm ct txt s) in
      fst (take_sent_dm_plaintext ct s') = Some txt \<and>
      fst (take_sent_dm_plaintext ct (snd (take_sent_dm_plaintext ct s'))) = None)"
  using ge.echo_once [OF assms(1-3)] de.echo_once [OF assms(5-7)] assms(4,8)
  by (simp add: MAX_OWN_ECHO_def MAX_SENT_DM_def Let_def)

theorem echo_given_once_witness:
  "fst (take_own_message ''m1'' (echo_run remember_echo take_own_message [Remember ''m2'' ''x'', Take ''m2'']
     (remember_echo ''m1'' ''hello'' (group_manager_new key_manager_new)))) = Some ''hello''"
  using echo_given_once [of "''m1''" "group_manager_new key_manager_new" "[Remember ''m2'' ''x'', Take ''m2'']"
      "''c1''" "input_handler_new (group_manager_new key_manager_new)" "[]" "''hello''"]
  by (auto simp: group_manager_new_def input_handler_new_def Let_def)

end
