(* ===== verification/Message_Store.thy ===== *)
theory Message_Store
  imports Protocol
begin

text \<open>
  \<^verbatim>\<open>client/message_store.{hpp,cpp}\<close>: the messages the client shows. The network thread pushes
  received messages to \<open>ms_pending\<close>; the user interface drains them into \<open>ms_items\<close>, of which
  at most \<open>ms_max\<close> are kept. The clock format (\<^verbatim>\<open>localtime\<close> and \<^verbatim>\<open>strftime\<close>) is an argument. A
  conversion that throws on a payload of the wrong shape is \<open>None\<close>; reading an absent member
  by \<^verbatim>\<open>operator[]\<close> on a constant, which is undefined in the library, is counted as a throw.
\<close>

datatype item_kind = K_CHAT | K_SYSTEM | K_ERROR | K_STATUS | K_PRESENCE | K_DM | K_ROOM_EVENT | K_AUTH

text \<open>The \<^verbatim>\<open>original\<close> of a local item is a default-constructed message, here \<open>None\<close>.\<close>

record 'j display_item =
  di_kind :: item_kind
  di_timestamp :: string
  di_sender :: string
  di_room :: string
  di_content :: string
  di_is_new :: bool
  di_encrypted :: bool
  di_original :: "'j message option"

record 'j message_store =
  ms_pending :: "'j message list"
  ms_items :: "'j display_item list"
  ms_max :: nat

definition message_store_new :: "'j message_store" where
  "message_store_new = \<lparr>ms_pending = [], ms_items = [], ms_max = 1000\<rparr>"

definition set_max_items :: "nat \<Rightarrow> 'j message_store \<Rightarrow> 'j message_store" where
  "set_max_items n s = s\<lparr>ms_max := n\<rparr>"

section \<open>Conversion\<close>

text \<open>A JSON number read as \<^verbatim>\<open>int\<close> is narrowed to 32 bits; \<^verbatim>\<open>std::to_string\<close> prints its sign.\<close>

definition int_to_string :: "int \<Rightarrow> string" where
  "int_to_string i = (if i < 0 then CHR ''-'' # nat_to_string (nat (- i)) else nat_to_string (nat i))"

definition j_get_int :: "'j json_api \<Rightarrow> 'j \<Rightarrow> int option" where
  "j_get_int J j = map_option (\<lambda>w. sint (ucast w :: 32 word)) (j_get_i64 J j)"

text \<open>The elements joined by a comma and a blank.\<close>

fun join_strs :: "'j json_api \<Rightarrow> bool \<Rightarrow> 'j list \<Rightarrow> string option" where
  "join_strs J first [] = Some []"
| "join_strs J first (u # us) =
     Option.bind (j_get_str J u) (\<lambda>s.
       map_option (\<lambda>t. (if first then '''' else '', '') @ s @ t) (join_strs J False us))"

definition user_names :: "'j json_api \<Rightarrow> 'j \<Rightarrow> string option" where
  "user_names J p =
     (if j_contains J p ''users'' then Option.bind (j_at J p ''users'') (\<lambda>us. join_strs J True (j_elems J us))
      else Some [])"

definition room_line :: "'j json_api \<Rightarrow> 'j \<Rightarrow> string option" where
  "room_line J room =
     Option.bind (j_at_str J room ''name'') (\<lambda>name.
     Option.bind (if j_contains J room ''users''
                  then map_option (\<lambda>n. '' ('' @ int_to_string n @ '' users)'')
                         (Option.bind (j_at J room ''users'') (j_get_int J))
                  else Some []) (\<lambda>users.
     Option.bind (if j_contains J room ''description''
                  then map_option (\<lambda>d. if d = [] then [] else '' - '' @ d) (j_at_str J room ''description'')
                  else Some []) (\<lambda>descr.
       Some (''  #'' @ name @ users @ descr @ [CHR 10]))))"

fun room_lines :: "'j json_api \<Rightarrow> 'j list \<Rightarrow> string option" where
  "room_lines J [] = Some []"
| "room_lines J (r # rs) = Option.bind (room_line J r) (\<lambda>l. map_option ((@) l) (room_lines J rs))"

definition system_content :: "'j json_api \<Rightarrow> 'j \<Rightarrow> string option" where
  "system_content J p =
     (if j_contains J p ''message'' then j_at_str J p ''message''
      else if j_contains J p ''action'' then
        Option.bind (j_at_str J p ''action'') (\<lambda>action.
          if action = ''user_list'' then
            Option.bind (if j_contains J p ''room''
                         then map_option (\<lambda>r. if r = [] then [] else '' in #'' @ r) (j_at_str J p ''room'')
                         else Some []) (\<lambda>room.
            Option.bind (user_names J p) (\<lambda>users.
            Option.bind (j_value J (j_get_int J) p ''count'' 0) (\<lambda>count.
              Some (''Online users'' @ room @ '': '' @ users @ '' ('' @ int_to_string count @ '' total)''))))
          else if action = ''room_list'' then
            map_option (\<lambda>t. ''Available rooms:'' @ [CHR 10] @ t)
              (if j_contains J p ''rooms''
               then Option.bind (j_at J p ''rooms'') (\<lambda>rs. room_lines J (j_elems J rs)) else Some [])
          else Some [])
      else Some [])"

definition presence_content :: "'j json_api \<Rightarrow> string \<Rightarrow> string \<Rightarrow> string \<Rightarrow> 'j \<Rightarrow> string option" where
  "presence_content J action user room p =
     (if action = ''online'' then Some (user @ '' is now online'')
      else if action = ''offline'' then Some (user @ '' has disconnected'')
      else if action = ''join'' then Some (user @ '' joined #'' @ room)
      else if action = ''leave'' then Some (user @ '' left #'' @ room)
      else if action = ''rename'' then
        Option.bind (j_value_str J p ''old_name'' '''') (\<lambda>old_name.
        Option.bind (j_value_str J p ''new_name'' '''') (\<lambda>new_name.
          Some (old_name @ '' is now known as '' @ new_name)))
      else Some (user @ '' '' @ action))"

definition room_event_content :: "'j json_api \<Rightarrow> string \<Rightarrow> string \<Rightarrow> 'j \<Rightarrow> string option" where
  "room_event_content J action room p =
     (if action = ''joined'' then
        map_option (\<lambda>users. ''Joined #'' @ room @ users)
          (if j_contains J p ''users'' then map_option ((@) '' - Users: '') (user_names J p) else Some [])
      else if action = ''left'' then Some (''Left #'' @ room)
      else Some [])"

text \<open>The notice that the keys of a room were rotated.\<close>

definition rotation_note :: "string \<Rightarrow> u64 \<Rightarrow> string \<Rightarrow> string \<Rightarrow> string" where
  "rotation_note room epoch action user =
     ''Room #'' @ room @ '' keys rotated (epoch '' @ u64_to_string epoch @ '')'' @
     (if user \<noteq> [] \<and> (action = ''join'' \<or> action = ''leave'')
      then '' - '' @ user @ (if action = ''join'' then '' joined'' else '' left'') else [])"

definition item_base :: "(i64 \<Rightarrow> string) \<Rightarrow> item_kind \<Rightarrow> 'j message \<Rightarrow> string \<Rightarrow> 'j display_item" where
  "item_base fmt k msg content = \<lparr>di_kind = k, di_timestamp = fmt (m_timestamp msg), di_sender = m_from msg,
     di_room = m_room msg, di_content = content, di_is_new = True, di_encrypted = False, di_original = Some msg\<rparr>"

definition convert_dm :: "'j json_api \<Rightarrow> (i64 \<Rightarrow> string) \<Rightarrow> 'j message \<Rightarrow> 'j display_item option" where
  "convert_dm J fmt msg = (let p = m_payload msg in
     Option.bind (j_value_str J p ''from'' (m_from msg)) (\<lambda>from_user.
     Option.bind (j_value_str J p ''to'' '''') (\<lambda>to_user.
     Option.bind (j_value_str J p ''message'' '''') (\<lambda>message.
     Option.bind (j_value_bool J p ''sent'' False) (\<lambda>sent.
     Option.bind (j_value_bool J p ''encrypted'' False) (\<lambda>enc.
     Option.bind (if enc then Some True else j_value_bool J p ''e2ee'' False) (\<lambda>encrypted.
       Some (if sent
             then (item_base fmt K_DM msg (''[DM -> '' @ to_user @ ''] '' @ message))\<lparr>di_encrypted := encrypted\<rparr>
             else (item_base fmt K_DM msg (''[DM <- '' @ from_user @ ''] '' @ message))
                    \<lparr>di_encrypted := encrypted, di_sender := from_user\<rparr>))))))))"

definition convert_encrypted :: "'j json_api \<Rightarrow> (i64 \<Rightarrow> string) \<Rightarrow> 'j message \<Rightarrow> 'j display_item option" where
  "convert_encrypted J fmt msg = (let p = m_payload msg in
     Option.bind (j_value_bool J p ''e2ee'' False) (\<lambda>e2ee.
     Option.bind (if e2ee then map_option Not (j_value_bool J p ''e2ee_failed'' False) else Some False) (\<lambda>encrypted.
     Option.bind (j_value_str J p ''message'' ''[unable to decrypt]'') (\<lambda>content.
       Some ((item_base fmt K_CHAT msg content)\<lparr>di_encrypted := encrypted\<rparr>)))))"

text \<open>The two marks of an authentication result are UTF-8 for a tick and a cross.\<close>

definition auth_mark :: "bool \<Rightarrow> string" where
  "auth_mark ok = [CHR 0xE2, CHR 0x9C, if ok then CHR 0x93 else CHR 0x97, CHR '' '']"

definition convert :: "'j json_api \<Rightarrow> (i64 \<Rightarrow> string) \<Rightarrow> 'j message \<Rightarrow> 'j display_item option" where
  "convert J fmt msg = (let p = m_payload msg in
     case m_type msg of
       MESSAGE \<Rightarrow> map_option (item_base fmt K_CHAT msg) (j_value_str J p ''message'' '''')
     | DIRECT_MESSAGE \<Rightarrow> convert_dm J fmt msg
     | SYSTEM \<Rightarrow> map_option (item_base fmt K_SYSTEM msg) (system_content J p)
     | ERROR \<Rightarrow>
         Option.bind (j_value_str J p ''message'' ''Unknown error'') (\<lambda>content.
           map_option (item_base fmt K_ERROR msg)
             (if j_contains J p ''code'' then map_option (\<lambda>c. ''['' @ c @ ''] '' @ content) (j_at_str J p ''code'')
              else Some content))
     | PRESENCE \<Rightarrow>
         Option.bind (j_value_str J p ''action'' '''') (\<lambda>action.
         Option.bind (j_value_str J p ''user'' (m_from msg)) (\<lambda>user.
           map_option (\<lambda>content. (item_base fmt K_PRESENCE msg content)\<lparr>di_sender := user\<rparr>)
             (presence_content J action user (m_room msg) p)))
     | AUTH_RESPONSE \<Rightarrow>
         Option.bind (j_value_bool J p ''success'' False) (\<lambda>success.
           map_option (\<lambda>message. item_base fmt K_AUTH msg (auth_mark success @ message))
             (j_value_str J p ''message'' ''''))
     | ROOM_EVENT \<Rightarrow>
         Option.bind (j_value_str J p ''action'' '''') (\<lambda>action.
         Option.bind (j_value_str J p ''room'' (m_room msg)) (\<lambda>room.
           map_option (\<lambda>content. (item_base fmt K_ROOM_EVENT msg content)\<lparr>di_room := room\<rparr>)
             (room_event_content J action room p)))
     | ENCRYPTED_MESSAGE \<Rightarrow> convert_encrypted J fmt msg
     | ROOM_MEMBERSHIP \<Rightarrow>
         Option.bind (j_value_str J p ''room'' (m_room msg)) (\<lambda>room.
         Option.bind (j_value_u64 J p ''epoch'' 0) (\<lambda>epoch.
         Option.bind (j_value_str J p ''action'' '''') (\<lambda>action.
         Option.bind (j_value_str J p ''user'' '''') (\<lambda>user.
           Some ((item_base fmt K_SYSTEM msg (rotation_note room epoch action user))\<lparr>di_room := room\<rparr>)))))
     | ROOM_KEY \<Rightarrow> Some (item_base fmt K_SYSTEM msg (''Updated encryption keys for #'' @ m_room msg))
     | _ \<Rightarrow> map_option (\<lambda>d. item_base fmt K_SYSTEM msg (''[DEBUG] '' @ d)) (j_dump J (message_to_json J msg)))"

section \<open>The two threads\<close>

definition ms_push :: "'j message \<Rightarrow> 'j message_store \<Rightarrow> 'j message_store" where
  "ms_push msg s = s\<lparr>ms_pending := ms_pending s @ [msg]\<rparr>"

definition ms_append :: "'j display_item \<Rightarrow> 'j message_store \<Rightarrow> 'j message_store" where
  "ms_append item s = s\<lparr>ms_items := ms_items s @ [item]\<rparr>"

definition ms_trim :: "'j message_store \<Rightarrow> 'j message_store" where
  "ms_trim s = s\<lparr>ms_items := pop_front_while (ms_max s) (ms_items s)\<rparr>"

definition ms_drain :: "'j json_api \<Rightarrow> (i64 \<Rightarrow> string) \<Rightarrow> ('j message_store, nat) act" where
  "ms_drain J fmt =
     ebind (eread ms_pending) (\<lambda>batch.
       eseq (emodify (\<lambda>s. s\<lparr>ms_pending := []\<rparr>))
       (eseq (eeach (\<lambda>msg. ebind (eopt (convert J fmt msg)) (\<lambda>item. emodify (ms_append item))) batch)
       (eseq (emodify ms_trim) (eret (length batch)))))"

definition push_local :: "string \<Rightarrow> item_kind \<Rightarrow> string \<Rightarrow> 'j message_store \<Rightarrow> 'j message_store" where
  "push_local stamp k content s =
     ms_trim (ms_append \<lparr>di_kind = k, di_timestamp = stamp, di_sender = '''', di_room = '''', di_content = content,
       di_is_new = True, di_encrypted = False, di_original = None\<rparr> s)"

definition mark_all_seen :: "'j message_store \<Rightarrow> 'j message_store" where
  "mark_all_seen s = s\<lparr>ms_items := map (\<lambda>item. item\<lparr>di_is_new := False\<rparr>) (ms_items s)\<rparr>"

section \<open>Draining\<close>

abbreviation convertible :: "'j json_api \<Rightarrow> (i64 \<Rightarrow> string) \<Rightarrow> 'j message list \<Rightarrow> bool" where
  "convertible J fmt ms \<equiv> (\<forall>m \<in> set ms. convert J fmt m \<noteq> None)"

abbreviation shown :: "'j json_api \<Rightarrow> (i64 \<Rightarrow> string) \<Rightarrow> 'j message list \<Rightarrow> 'j display_item list" where
  "shown J fmt ms \<equiv> map (the \<circ> convert J fmt) ms"

abbreviation convert_each :: "'j json_api \<Rightarrow> (i64 \<Rightarrow> string) \<Rightarrow> 'j message list \<Rightarrow> ('j message_store, unit) act" where
  "convert_each J fmt ms \<equiv> eeach (\<lambda>msg. ebind (eopt (convert J fmt msg)) (\<lambda>item. emodify (ms_append item))) ms"

lemma convert_each_all:
  "convertible J fmt ms \<Longrightarrow> convert_each J fmt ms s = (Some (), s\<lparr>ms_items := ms_items s @ shown J fmt ms\<rparr>)"
  by (induction ms arbitrary: s) (auto simp: effect_simps ms_append_def)

lemma convert_each_bad:
  "convertible J fmt ms \<Longrightarrow> convert J fmt bad = None \<Longrightarrow>
   convert_each J fmt (ms @ bad # rest) s = (None, s\<lparr>ms_items := ms_items s @ shown J fmt ms\<rparr>)"
  by (induction ms arbitrary: s) (auto simp: effect_simps ms_append_def)

lemma ms_drain_all:
  "convertible J fmt (ms_pending s) \<Longrightarrow>
   ms_drain J fmt s = (Some (length (ms_pending s)), ms_trim (s\<lparr>ms_pending := [],
     ms_items := ms_items s @ shown J fmt (ms_pending s)\<rparr>))"
  by (simp add: ms_drain_def effect_simps convert_each_all)

text \<open>
  A pending message that cannot be converted ends the drain with an exception: the messages
  before it were appended without trimming, it and all the messages after it are gone from
  the queue and are never shown.
\<close>

theorem drain_drops_after_malformed:
  assumes "ms_pending s = ms @ bad # rest" and "convertible J fmt ms" and "convert J fmt bad = None"
  shows "ms_drain J fmt s =
    (None, s\<lparr>ms_pending := [], ms_items := ms_items s @ shown J fmt ms\<rparr>)"
  using assms by (simp add: ms_drain_def effect_simps convert_each_bad)

definition bad_sample :: "jval message" where
  "bad_sample = \<lparr>m_type = MESSAGE, m_id = ''1'', m_timestamp = 0, m_from = ''eve'', m_room = ''r'', m_payload = JNull\<rparr>"

definition good_sample :: "jval message" where
  "good_sample = \<lparr>m_type = MESSAGE, m_id = ''2'', m_timestamp = 0, m_from = ''bob'', m_room = ''r'',
     m_payload = JObj [(''message'', JStr ''hi'')]\<rparr>"

lemma samples_convert:
  "convert jval_api fmt bad_sample = None"
  "convert jval_api fmt good_sample = Some (item_base fmt K_CHAT good_sample ''hi'')"
  by (simp_all add: convert_def bad_sample_def good_sample_def j_value_def jval_api_def)

theorem drain_drops_after_malformed_witness:
  "ms_drain jval_api (\<lambda>_. ''t'') (message_store_new\<lparr>ms_pending := [good_sample, bad_sample, good_sample]\<rparr>) =
   (None, message_store_new\<lparr>ms_items := [item_base (\<lambda>_. ''t'') K_CHAT good_sample ''hi'']\<rparr>)"
  using drain_drops_after_malformed [of "message_store_new\<lparr>ms_pending := [good_sample, bad_sample, good_sample]\<rparr>"
      "[good_sample]" bad_sample "[good_sample]" jval_api "\<lambda>_. ''t''"]
  by (simp add: samples_convert message_store_new_def)

section \<open>The display as a window on the log\<close>

text \<open>
  The events of the store in the order the two threads make them, and the same events on a
  log that never forgets.
\<close>

datatype 'j store_event = Pushed "'j message" | Drained | Noted string item_kind string | Seen

fun store_run :: "'j json_api \<Rightarrow> (i64 \<Rightarrow> string) \<Rightarrow> 'j store_event list \<Rightarrow> 'j message_store \<Rightarrow> 'j message_store" where
  "store_run J fmt [] s = s"
| "store_run J fmt (Pushed m # es) s = store_run J fmt es (ms_push m s)"
| "store_run J fmt (Drained # es) s = store_run J fmt es (snd (ms_drain J fmt s))"
| "store_run J fmt (Noted stamp k c # es) s = store_run J fmt es (push_local stamp k c s)"
| "store_run J fmt (Seen # es) s = store_run J fmt es (mark_all_seen s)"

definition local_item :: "string \<Rightarrow> item_kind \<Rightarrow> string \<Rightarrow> 'j display_item" where
  "local_item stamp k content = \<lparr>di_kind = k, di_timestamp = stamp, di_sender = '''', di_room = '''',
     di_content = content, di_is_new = True, di_encrypted = False, di_original = None\<rparr>"

fun log_run :: "'j json_api \<Rightarrow> (i64 \<Rightarrow> string) \<Rightarrow> 'j store_event list \<Rightarrow> 'j message list \<times> 'j display_item list
    \<Rightarrow> 'j message list \<times> 'j display_item list" where
  "log_run J fmt [] (p, l) = (p, l)"
| "log_run J fmt (Pushed m # es) (p, l) = log_run J fmt es (p @ [m], l)"
| "log_run J fmt (Drained # es) (p, l) = log_run J fmt es ([], l @ shown J fmt p)"
| "log_run J fmt (Noted stamp k c # es) (p, l) = log_run J fmt es (p, l @ [local_item stamp k c])"
| "log_run J fmt (Seen # es) (p, l) = log_run J fmt es (p, map (\<lambda>i. i\<lparr>di_is_new := False\<rparr>) l)"

definition last_items :: "nat \<Rightarrow> 'a list \<Rightarrow> 'a list" where
  "last_items n l = drop (length l - n) l"

lemma last_items_append: "last_items n (last_items n l @ xs) = last_items n (l @ xs)"
  by (cases "n \<le> length l") (auto simp: last_items_def add.commute)

lemma ms_trim_window: "ms_trim s = s\<lparr>ms_items := last_items (ms_max s) (ms_items s)\<rparr>"
  by (simp add: ms_trim_def pop_front_while_eq last_items_def)

fun event_ok :: "'j json_api \<Rightarrow> (i64 \<Rightarrow> string) \<Rightarrow> 'j store_event \<Rightarrow> bool" where
  "event_ok J fmt (Pushed m) = (convert J fmt m \<noteq> None)"
| "event_ok J fmt _ = True"

lemma store_run_window:
  assumes "list_all (event_ok J fmt) es" and "convertible J fmt p"
  shows "store_run J fmt es \<lparr>ms_pending = p, ms_items = last_items n l, ms_max = n\<rparr> =
    (let (p', l') = log_run J fmt es (p, l) in \<lparr>ms_pending = p', ms_items = last_items n l', ms_max = n\<rparr>)"
  using assms
proof (induction J fmt es "(p, l)" arbitrary: p l rule: log_run.induct)
  case (3 J fmt es p l)
  then show ?case by (simp add: ms_drain_all ms_trim_window last_items_append)
next
  case (4 J fmt stamp k c es p l)
  then show ?case
    by (simp add: push_local_def ms_trim_window ms_append_def last_items_append flip: local_item_def)
next
  case (5 J fmt es p l)
  then show ?case by (simp add: mark_all_seen_def last_items_def drop_map)
qed (auto simp: ms_push_def)



end
