(* ===== verification/Client_App.thy ===== *)
theory Client_App
  imports Input_Handler Message_Store "HOL-Library.Sublist"
begin

text \<open>
  \<^verbatim>\<open>client/ftxui_app.{hpp,cpp}\<close>: the client application. It joins the input handler (with the group
  and key managers), the message store, the connection and the two state files, and reacts to
  messages from the server, lines from the user and events of the interface. Messages for
  the connection are appended to the effects of the input handler; \<open>client_flush\<close> passes the
  effects on, in order, to the connection, the display and the run flag, none of which the
  handlers read back. The text of a local notice carries the formatted clock. Drawing is
  left to the FTXUI library.
\<close>

datatype app_state = CONNECTING | BANNER | CHAT

record 'j client_app =
  ap_in :: "'j input_handler"
  ap_store :: "'j message_store"
  ap_state_file :: "string option"
  ap_trust_file :: "string option"
  ap_state :: app_state
  ap_show_banner :: bool
  ap_banner_start :: int
  ap_should_mark :: bool
  ap_input :: string
  ap_hints :: "string list"
  ap_running :: bool

abbreviation app_group :: "'j client_app \<Rightarrow> group_manager" where
  "app_group s \<equiv> ih_gm (ap_in s)"

definition client_app_new :: "group_manager \<Rightarrow> 'j client_app" where
  "client_app_new g = \<lparr>ap_in = input_handler_new g, ap_store = message_store_new, ap_state_file = None,
     ap_trust_file = None, ap_state = CONNECTING, ap_show_banner = True, ap_banner_start = 0, ap_should_mark = False,
     ap_input = '''', ap_hints = [], ap_running = True\<rparr>"

section \<open>Access to the parts\<close>

definition app_lift :: "('j input_handler, 'a) act \<Rightarrow> ('j client_app, 'a) act" where
  "app_lift m = (\<lambda>s. let (r, i) = m (ap_in s) in (r, s\<lparr>ap_in := i\<rparr>))"

definition ih_gm_act :: "(group_manager, 'a) act \<Rightarrow> ('j input_handler, 'a) act" where
  "ih_gm_act m = (\<lambda>i. let (r, g) = m (ih_gm i) in (r, i\<lparr>ih_gm := g\<rparr>))"

definition app_gm :: "(group_manager, 'a) act \<Rightarrow> ('j client_app, 'a) act" where
  "app_gm m = app_lift (ih_gm_act m)"

definition app_send :: "'j message \<Rightarrow> ('j client_app, unit) act" where
  "app_send m = app_lift (ih_send m)"

definition app_show :: "'j message \<Rightarrow> ('j client_app, unit) act" where
  "app_show m = emodify (\<lambda>s. s\<lparr>ap_store := ms_push m (ap_store s)\<rparr>)"

definition app_note :: "'j client_world \<Rightarrow> (i64 \<Rightarrow> string) \<Rightarrow> item_kind \<Rightarrow> string \<Rightarrow> ('j client_app, unit) act" where
  "app_note W fmt k txt = emodify (\<lambda>s. s\<lparr>ap_store := push_local (fmt (cw_now W)) k txt (ap_store s)\<rparr>)"

text \<open>
  Both files can be opened. The trust file is truncated before its text is made, and an
  exception there leaves \<^verbatim>\<open>save\<close>; the state file is replaced only once its text is complete.
\<close>

definition app_save :: "'j client_world \<Rightarrow> ('j client_app, unit) act" where
  "app_save W = (\<lambda>s.
     case ts_save_text (cw_json W) (gm_trust (app_group s)) of
       None \<Rightarrow> (None, s\<lparr>ap_trust_file := Some ''''\<rparr>)
     | Some t \<Rightarrow>
         (Some (), s\<lparr>ap_trust_file := Some t,
            ap_state_file := (case gm_save_text (cw_json W) (cw_sodium W) (app_group s) of
              Some u \<Rightarrow> Some u | None \<Rightarrow> ap_state_file s)\<rparr>))"

section \<open>Room keys\<close>

definition send_key_request :: "'j client_world \<Rightarrow> string \<Rightarrow> ('j client_app, unit) act" where
  "send_key_request W user =
     ebind (eread (\<lambda>s. ih_username (ap_in s))) (\<lambda>me.
     ebind (app_lift (ih_create W KEY_EXCHANGE me '''')) (\<lambda>m.
       app_send (m\<lparr>m_payload := key_request (cw_json W) user\<rparr>)))"

definition MAX_KEY_REQUEST_ATTEMPTS :: nat where "MAX_KEY_REQUEST_ATTEMPTS = 5"

definition request_missing_room_keys :: "'j client_world \<Rightarrow> ('j client_app, unit) act" where
  "request_missing_room_keys W =
     ebind (app_gm (distribute_new_keys W)) (\<lambda>envelopes.
     eseq (eeach app_send envelopes)
     (eseq (ewhen (envelopes \<noteq> []) (app_save W))
     (ebind (eread (\<lambda>s. outstanding_key_requests MAX_KEY_REQUEST_ATTEMPTS (app_group s)))
       (eeach (\<lambda>(room, user). eseq (send_key_request W user) (app_gm (emodify (note_key_request_sent room user))))))))"

definition sync_room_keys :: "'j client_world \<Rightarrow> string \<Rightarrow> u64 \<Rightarrow> string list \<Rightarrow> ('j client_app, unit) act" where
  "sync_room_keys W room epoch members =
     ebind (app_gm (sync_room W room epoch members)) (\<lambda>envelopes.
     eseq (eeach app_send envelopes) (eseq (request_missing_room_keys W) (app_save W)))"

section \<open>Messages from the server\<close>

definition on_room_key :: "'j client_world \<Rightarrow> (i64 \<Rightarrow> string) \<Rightarrow> 'j message \<Rightarrow> ('j client_app, unit) act" where
  "on_room_key W fmt msg =
     ebind (app_gm (process_envelope W msg)) (\<lambda>(status, detail).
       eseq (if status = KEY_CHANGED then
               app_note W fmt K_ERROR (''Security warning: '' @ m_from msg @ [CHR 39] @ ''s identity key changed! '' @
                 ''Their room key was ignored. Run /verify '' @ m_from msg @
                 '' to inspect it, then '' @ quoted ''accept'' @ '' if you trust the change.'')
             else if status = ENV_INVALID then
               app_note W fmt K_ERROR (''Invalid room key envelope from '' @ m_from msg @ '' ('' @ detail @ '')'')
             else eret ())
         (app_save W))"

definition on_room_membership :: "'j client_world \<Rightarrow> (i64 \<Rightarrow> string) \<Rightarrow> 'j message \<Rightarrow> ('j client_app, unit) act" where
  "on_room_membership W fmt msg = (let J = cw_json W; p = m_payload msg in
     ebind (eopt (j_value_str J p ''room'' (m_room msg))) (\<lambda>room.
     ebind (eopt (j_value_u64 J p ''epoch'' 0)) (\<lambda>epoch.
     ebind (eopt (j_value_str J p ''action'' '''')) (\<lambda>action.
     ebind (eopt (j_value_str J p ''user'' '''')) (\<lambda>user.
     eseq (ewhen (room \<noteq> [] \<and> epoch > 0)
            (ebind (eopt (read_strs J (j_member J p ''members''))) (sync_room_keys W room epoch)))
       (app_note W fmt K_SYSTEM (rotation_note room epoch action user)))))))"

definition on_encrypted_message :: "'j client_world \<Rightarrow> 'j message \<Rightarrow> ('j client_app, unit) act" where
  "on_encrypted_message W msg = (let J = cw_json W in
     ebind (eopt (j_set J (m_payload msg) ''e2ee'' (j_bool J True))) (\<lambda>p.
     ebind (eread (\<lambda>s. ih_username (ap_in s))) (\<lambda>me.
     ebind (if me \<noteq> [] \<and> m_from msg = me then
              ebind (app_gm (elift (take_own_message (m_id msg)))) (\<lambda>own.
                eopt (j_set J p ''message'' (j_str J (case own of Some t \<Rightarrow> t | None \<Rightarrow> ''(your message)''))))
            else
              ebind (app_gm (gm_open W (m_room msg) (m_from msg) (m_payload msg))) (\<lambda>r. case r of
                Inr t \<Rightarrow> eopt (j_set J p ''message'' (j_str J t))
              | Inl err \<Rightarrow>
                  ebind (eopt (j_set J p ''message'' (j_str J ''[unable to decrypt]''))) (\<lambda>p.
                    eopt (j_set J p ''e2ee_failed'' (j_bool J True))))) (\<lambda>p.
     eseq (app_show (msg\<lparr>m_payload := p\<rparr>)) (app_save W)))))"

definition learn_key :: "'j client_world \<Rightarrow> (i64 \<Rightarrow> string) \<Rightarrow> string \<Rightarrow> string \<Rightarrow> ('j client_app, unit) act" where
  "learn_key W fmt username public_key =
     ebind (app_gm (elift (check_dm_key username public_key))) (\<lambda>status.
       if status = CHANGED then
         app_note W fmt K_ERROR (''Security warning: identity key for '' @ quoted username @
           '' changed. Run /verify '' @ username @ '' before trusting new messages.'')
       else
         eseq (app_gm (emodify (\<lambda>g. g\<lparr>gm_keys := cache_key username public_key (gm_keys g)\<rparr>)))
         (eseq (app_gm (emodify (note_key_available username)))
         (ebind (app_gm (on_key_available W username)) (\<lambda>envelopes.
           eseq (eeach app_send envelopes) (ewhen (envelopes \<noteq> []) (app_save W))))))"

definition on_key_exchange :: "'j client_world \<Rightarrow> (i64 \<Rightarrow> string) \<Rightarrow> 'j message \<Rightarrow> ('j client_app, unit) act" where
  "on_key_exchange W fmt msg = (let J = cw_json W; p = m_payload msg in
     ebind (eopt (j_value_str J p ''action'' '''')) (\<lambda>action.
     ebind (if action = ''key_response'' then eopt (j_value_bool J p ''found'' False) else eret False) (\<lambda>found.
       ewhen found
         (ebind (eopt (j_value_str J p ''username'' '''')) (\<lambda>username.
          ebind (eopt (j_value_str J p ''public_key'' '''')) (\<lambda>public_key.
            ewhen (username \<noteq> [] \<and> public_key \<noteq> []) (learn_key W fmt username public_key)))))))"

text \<open>An encrypted direct message with all its parts.\<close>

definition open_dm ::
  "'j client_world \<Rightarrow> 'j message \<Rightarrow> string \<Rightarrow> string \<Rightarrow> string \<Rightarrow> string \<Rightarrow> ('j client_app, unit) act" where
  "open_dm W msg ciphertext nonce sender_pk from_user = (let J = cw_json W; p = m_payload msg in
     ebind (app_gm (elift (check_dm_key from_user sender_pk))) (\<lambda>status.
       if status = CHANGED then
         ebind (eopt (j_set J p ''message'' (j_str J (''[identity key changed - run /verify '' @ from_user @ '']'')))) (\<lambda>p.
         ebind (eopt (j_set J p ''e2ee_failed'' (j_bool J True))) (\<lambda>p. app_show (msg\<lparr>m_payload := p\<rparr>)))
       else
         ebind (eread (\<lambda>s. km_decrypt (cw_sodium W) ciphertext nonce sender_pk (gm_keys (app_group s)))) (\<lambda>r.
         ebind (case r of
             Some t \<Rightarrow>
               ebind (eopt (j_set J p ''message'' (j_str J t))) (\<lambda>p.
               ebind (eopt (j_set J p ''e2ee'' (j_bool J True))) (\<lambda>p.
                 eseq (app_gm (emodify (\<lambda>g. g\<lparr>gm_keys := cache_key from_user sender_pk (gm_keys g)\<rparr>))) (eret p)))
           | None \<Rightarrow>
               ebind (eopt (j_set J p ''message'' (j_str J ''[unable to decrypt]''))) (\<lambda>p.
                 eopt (j_set J p ''e2ee_failed'' (j_bool J True)))) (\<lambda>p.
           app_show (msg\<lparr>m_payload := p\<rparr>)))))"

definition on_direct_message :: "'j client_world \<Rightarrow> 'j message \<Rightarrow> ('j client_app, unit) act" where
  "on_direct_message W msg = (let J = cw_json W; p = m_payload msg in
     ebind (eopt (j_value_bool J p ''encrypted'' False)) (\<lambda>encrypted.
     ebind (eopt (j_value_bool J p ''sent'' False)) (\<lambda>sent.
       if encrypted \<and> sent then
         ebind (eopt (j_value_str J p ''message'' '''')) (\<lambda>ciphertext.
         ebind (app_lift (elift (take_sent_dm_plaintext ciphertext))) (\<lambda>plaintext.
         ebind (case plaintext of Some t \<Rightarrow> eopt (j_set J p ''message'' (j_str J t)) | None \<Rightarrow> eret p) (\<lambda>p.
         ebind (eopt (j_set J p ''e2ee'' (j_bool J True))) (\<lambda>p. app_show (msg\<lparr>m_payload := p\<rparr>)))))
       else
         ebind (eread (\<lambda>s. km_initialized (gm_keys (app_group s)))) (\<lambda>ready.
           if encrypted \<and> \<not> sent \<and> ready then
             ebind (eopt (j_value_str J p ''message'' '''')) (\<lambda>ciphertext.
             ebind (eopt (j_value_str J p ''nonce'' '''')) (\<lambda>nonce.
             ebind (eopt (j_value_str J p ''sender_public_key'' '''')) (\<lambda>sender_pk.
             ebind (eopt (j_value_str J p ''from'' (m_from msg))) (\<lambda>from_user.
               if ciphertext \<noteq> [] \<and> nonce \<noteq> [] \<and> sender_pk \<noteq> [] \<and> from_user \<noteq> []
               then open_dm W msg ciphertext nonce sender_pk from_user
               else app_show msg))))
           else app_show msg))))"

definition on_auth_response :: "'j client_world \<Rightarrow> 'j message \<Rightarrow> ('j client_app, unit) act" where
  "on_auth_response W msg = (let J = cw_json W; p = m_payload msg in
     ebind (eopt (j_value_bool J p ''success'' False)) (\<lambda>success.
     eseq (ewhen success
       (eseq (app_lift (emodify (\<lambda>i. i\<lparr>ih_authenticated := True\<rparr>)))
       (ebind (eopt (j_value_str J p ''username'' '''')) (\<lambda>username.
       eseq (ewhen (username \<noteq> [])
          (app_lift (emodify (\<lambda>i. i\<lparr>ih_username := username, ih_gm := set_username username (ih_gm i)\<rparr>))))
       (ebind (eread (\<lambda>s. gm_keys (app_group s))) (\<lambda>k.
         ewhen (km_initialized k)
           (ebind (app_lift (ih_create W KEY_EXCHANGE username '''')) (\<lambda>m.
             app_send (m\<lparr>m_payload := j_obj J [(''action'', j_str J ''publish_key''),
               (''public_key'', j_str J (get_public_key (cw_sodium W) k))]\<rparr>)))))))))
     (app_show msg)))"

definition on_room_event :: "'j client_world \<Rightarrow> 'j message \<Rightarrow> ('j client_app, unit) act" where
  "on_room_event W msg = (let J = cw_json W; p = m_payload msg in
     ebind (eopt (j_value_str J p ''action'' '''')) (\<lambda>action.
     eseq (if action = ''joined'' then
         ebind (eopt (j_value_str J p ''room'' '''')) (\<lambda>room.
         eseq (app_lift (emodify (\<lambda>i. i\<lparr>ih_current_room := room\<rparr>)))
         (ebind (eopt (j_value_bool J p ''e2ee'' False)) (\<lambda>e2ee.
           ewhen e2ee
             (ebind (eopt (j_value_u64 J p ''epoch'' 0)) (\<lambda>epoch.
              ebind (eopt (read_strs J (j_member J p ''users''))) (\<lambda>members.
                ewhen (room \<noteq> [] \<and> epoch > 0) (sync_room_keys W room epoch members)))))))
       else if action = ''left'' then
         ebind (eopt (j_value_str J p ''room'' '''')) (\<lambda>room.
         eseq (app_lift (emodify (\<lambda>i. if room = ih_current_room i then i\<lparr>ih_current_room := ''''\<rparr> else i)))
           (ewhen (room \<noteq> []) (eseq (app_gm (emodify (leave_room room))) (app_save W))))
       else eret ())
     (app_show msg)))"

definition on_presence :: "'j client_world \<Rightarrow> 'j message \<Rightarrow> ('j client_app, unit) act" where
  "on_presence W msg = (let J = cw_json W; p = m_payload msg in
     ebind (eopt (j_value_str J p ''action'' '''')) (\<lambda>action.
     eseq (ewhen (action = ''rename'')
       (ebind (eopt (j_value_str J p ''old_name'' '''')) (\<lambda>old_name.
        ebind (eread (\<lambda>s. ih_username (ap_in s))) (\<lambda>me.
          ewhen (old_name = me)
            (ebind (eopt (j_value_str J p ''new_name'' '''')) (\<lambda>new_name.
              app_lift (emodify (\<lambda>i. i\<lparr>ih_username := new_name, ih_gm := set_username new_name (ih_gm i)\<rparr>))))))))
     (app_show msg)))"

definition on_network_message ::
  "'j client_world \<Rightarrow> (i64 \<Rightarrow> string) \<Rightarrow> 'j message \<Rightarrow> ('j client_app, unit) act" where
  "on_network_message W fmt msg =
     (case m_type msg of
        ROOM_KEY \<Rightarrow> on_room_key W fmt msg
      | ROOM_MEMBERSHIP \<Rightarrow> on_room_membership W fmt msg
      | ENCRYPTED_MESSAGE \<Rightarrow> on_encrypted_message W msg
      | KEY_EXCHANGE \<Rightarrow> on_key_exchange W fmt msg
      | DIRECT_MESSAGE \<Rightarrow> on_direct_message W msg
      | AUTH_RESPONSE \<Rightarrow> on_auth_response W msg
      | ROOM_EVENT \<Rightarrow> on_room_event W msg
      | PRESENCE \<Rightarrow> on_presence W msg
      | _ \<Rightarrow> app_show msg)"

section \<open>The interface\<close>

definition handle_input_submit :: "'j client_world \<Rightarrow> ('j client_app, bool) act" where
  "handle_input_submit W =
     ebind (eread ap_input) (\<lambda>line.
       if line = [] then eret False
       else eseq (emodify (\<lambda>s. s\<lparr>ap_input := '''', ap_hints := []\<rparr>))
              (eseq (app_lift (process_line W line)) (eret True)))"

definition update_completions :: "'j client_app \<Rightarrow> 'j client_app" where
  "update_completions s =
     s\<lparr>ap_hints :=
        (case ap_input s of
           [] \<Rightarrow> []
         | c # _ \<Rightarrow> if c \<noteq> CHR ''/'' then []
             else filter (\<lambda>cmd. prefix (ap_input s) cmd \<and> cmd \<noteq> ap_input s) available_commands)\<rparr>"

text \<open>The events the main component catches; the result says whether it did.\<close>

datatype ui_event = UiTab | UiEscape | UiCtrlC | UiOther

fun catch_event :: "ui_event \<Rightarrow> 'j client_app \<Rightarrow> bool \<times> 'j client_app" where
  "catch_event UiTab s =
     (case ap_hints s of
        [] \<Rightarrow> (False, s)
      | h # _ \<Rightarrow> (True, s\<lparr>ap_input := h @ '' '', ap_hints := []\<rparr>))"
| "catch_event UiEscape s = (True, s\<lparr>ap_input := '''', ap_hints := []\<rparr>)"
| "catch_event UiCtrlC s = (True, s\<lparr>ap_running := False\<rparr>)"
| "catch_event UiOther s = (False, s)"

definition ANIMATION_DURATION_MS :: int where "ANIMATION_DURATION_MS = 2500"

text \<open>What the renderer does to the state before it draws; \<open>now\<close> is the steady clock in milliseconds.\<close>

definition render_tick :: "'j client_world \<Rightarrow> (i64 \<Rightarrow> string) \<Rightarrow> int \<Rightarrow> ('j client_app, unit) act" where
  "render_tick W fmt now =
     ebind (\<lambda>s. let (r, st) = ms_drain (cw_json W) fmt (ap_store s) in (r, s\<lparr>ap_store := st\<rparr>)) (\<lambda>new_count.
     eseq (emodify (\<lambda>s.
         if ap_state s = BANNER \<and> now - ap_banner_start s > ANIMATION_DURATION_MS + 500 then
           s\<lparr>ap_state := CHAT, ap_show_banner := False,
             ap_store := push_local (fmt (cw_now W)) K_STATUS ''Connected! Type /help for available commands.'' (ap_store s)\<rparr>
         else s))
     (eseq (emodify (\<lambda>s. if ap_should_mark s then s\<lparr>ap_store := mark_all_seen (ap_store s), ap_should_mark := False\<rparr> else s))
       (emodify (\<lambda>s. if new_count > 0 then s\<lparr>ap_should_mark := True\<rparr> else s))))"

definition on_connect_result ::
  "'j client_world \<Rightarrow> (i64 \<Rightarrow> string) \<Rightarrow> int \<Rightarrow> bool \<Rightarrow> string \<Rightarrow> 'j client_app \<Rightarrow> 'j client_app" where
  "on_connect_result W fmt now success err s =
     (if success then s\<lparr>ap_banner_start := now, ap_state := BANNER\<rparr>
      else s\<lparr>ap_store := push_local (fmt (cw_now W)) K_ERROR (''Connection failed: '' @ err) (ap_store s)\<rparr>)"

text \<open>The client is not connected any more when the handler runs.\<close>

definition on_disconnect ::
  "'j client_world \<Rightarrow> (i64 \<Rightarrow> string) \<Rightarrow> bool \<Rightarrow> string \<Rightarrow> 'j client_app \<Rightarrow> 'j client_app" where
  "on_disconnect W fmt up reason s =
     (let st = push_local (fmt (cw_now W)) K_ERROR (''Disconnected: '' @ reason) (ap_store s)
      in s\<lparr>ap_store := if up then st
           else push_local (fmt (cw_now W)) K_STATUS ''Attempting to reconnect...'' st\<rparr>)"

section \<open>The whole client\<close>

record 'j client =
  cl_app :: "'j client_app"
  cl_net :: tls_client

fun perform :: "'j client_world \<Rightarrow> (i64 \<Rightarrow> string) \<Rightarrow> 'j client_effect \<Rightarrow> 'j client \<Rightarrow> 'j client" where
  "perform W fmt (Sent m) c = c\<lparr>cl_net := tc_send (cw_json W) m (cl_net c)\<rparr>"
| "perform W fmt (ReportedError t) c = c\<lparr>cl_app := snd (app_note W fmt K_ERROR t (cl_app c))\<rparr>"
| "perform W fmt (ReportedStatus t) c = c\<lparr>cl_app := snd (app_note W fmt K_SYSTEM t (cl_app c))\<rparr>"
| "perform W fmt QuitRequested c = c\<lparr>cl_app := (cl_app c)\<lparr>ap_running := False\<rparr>\<rparr>"

definition client_flush :: "'j client_world \<Rightarrow> (i64 \<Rightarrow> string) \<Rightarrow> 'j client \<Rightarrow> 'j client" where
  "client_flush W fmt c =
     (let es = ih_out (ap_in (cl_app c));
          c = c\<lparr>cl_app := (cl_app c)\<lparr>ap_in := (ap_in (cl_app c))\<lparr>ih_out := []\<rparr>\<rparr>\<rparr>
      in fold (perform W fmt) es c)"

text \<open>
  A handler runs on the application and its effects are performed. An exception of the
  message handler is caught by the connection, so the effects made before it stay.
\<close>

definition client_do :: "'j client_world \<Rightarrow> (i64 \<Rightarrow> string) \<Rightarrow> ('j client_app, 'a) act \<Rightarrow> 'j client \<Rightarrow> 'j client" where
  "client_do W fmt m c = client_flush W fmt (c\<lparr>cl_app := snd (m (cl_app c))\<rparr>)"

fun client_on_event :: "'j client_world \<Rightarrow> (i64 \<Rightarrow> string) \<Rightarrow> int \<Rightarrow> 'j tc_event \<Rightarrow> 'j client \<Rightarrow> 'j client" where
  "client_on_event W fmt now (Received m) c = client_do W fmt (on_network_message W fmt m) c"
| "client_on_event W fmt now (ConnectResult ok e) c = c\<lparr>cl_app := on_connect_result W fmt now ok e (cl_app c)\<rparr>"
| "client_on_event W fmt now (Disconnected r) c =
     c\<lparr>cl_app := on_disconnect W fmt (tc_connected (cl_net c)) r (cl_app c)\<rparr>"

text \<open>\<^verbatim>\<open>run\<close> up to the event loop: keys and state are loaded, the connection is started.\<close>

definition client_start ::
  "'j client_world \<Rightarrow> disk \<Rightarrow> bytes \<times> bytes \<Rightarrow> bytes \<times> bytes \<Rightarrow> files \<Rightarrow> string option \<Rightarrow> string option \<Rightarrow> 'j client" where
  "client_start W D box_pair sign_pair fs trust_file state_file =
     (let (_, _, k) = load_or_create D box_pair sign_pair fs key_manager_new;
          (_, g) = gm_load (cw_json W) (cw_sodium W) trust_file state_file (group_manager_new k)
      in \<lparr>cl_app = (client_app_new g)\<lparr>ap_trust_file := trust_file, ap_state_file := state_file\<rparr>,
          cl_net = tc_connect (tc_run (tc_enable_reconnect 5 3000 tls_client_new))\<rparr>)"

end
