(* ===== verification/Group_Flow.thy ===== *)
theory Group_Flow
  imports Group_Manager
begin

text \<open>
  Correctness of the client's group manager: the invariant of its state over every
  sequence of operations, which pins an accepted envelope relies on, to whom and how
  often our chain is handed out, and the flow from one member's key rotation to
  another member reading a message.
\<close>

named_theorems gm_frame \<open>what an operation of the group manager leaves alone\<close>

section \<open>Frame lemmas\<close>

lemma gm_put_room_simps [simp]:
  "gm_keys (gm_put_room r st g) = gm_keys g" "gm_trust (gm_put_room r st g) = gm_trust g"
  "gm_username (gm_put_room r st g) = gm_username g" "gm_echo (gm_put_room r st g) = gm_echo g"
  "gm_echo_order (gm_put_room r st g) = gm_echo_order g" "gm_draws (gm_put_room r st g) = gm_draws g"
  "gm_changed (gm_put_room r st g) = gm_changed g" "gm_attempts (gm_put_room r st g) = gm_attempts g"
  by (simp_all add: gm_put_room_def)

lemma map_of_gm_put_room: "map_of (gm_rooms (gm_put_room r st g)) = (map_of (gm_rooms g))(r \<mapsto> st)"
  by (simp add: gm_put_room_def update_conv')

lemma gm_room_put: "gm_room r (gm_put_room r' st g) = (if r = r' then st else gm_room r g)"
  by (simp add: gm_room_def map_of_gm_put_room)

lemma gm_room_rooms: "map_of (gm_rooms g) r = Some st \<Longrightarrow> gm_room r g = st"
  by (simp add: gm_room_def)

lemma make_envelope_for_frame:
  "\<exists>n. snd (make_envelope_for W room recipient g) = g\<lparr>gm_draws := n\<rparr>"
proof -
  have "\<exists>n. snd (wrap_for W room recipient st own pk g) = g\<lparr>gm_draws := n\<rparr>" for st own pk
    by (auto simp: wrap_for_def gm_random_def gm_message_def Let_def split: option.split)
  moreover have "\<exists>n. g = g\<lparr>gm_draws := n\<rparr>" by (rule exI [of _ "gm_draws g"]) simp
  ultimately show ?thesis by (simp add: make_envelope_for_def Let_def split: option.split)
qed

section \<open>The invariant\<close>

definition inbound_ok :: "inbound \<Rightarrow> bool" where
  "inbound_ok k \<longleftrightarrow> length (i_chain k) = 32 \<and> length (i_skipped k) \<le> MAX_SKIPPED_MESSAGE_KEYS"

definition chain_id :: "peer_chain \<Rightarrow> u64 \<times> string" where
  "chain_id c = (pc_epoch c, pc_key_id c)"

definition chains_ok :: "peer_chain list \<Rightarrow> bool" where
  "chains_ok cs \<longleftrightarrow> length cs \<le> MAX_CHAINS_PER_PEER \<and> distinct (map chain_id cs) \<and>
     list_all (\<lambda>c. inbound_ok (pc_chain c)) cs"

definition own_ok :: "outbound option \<Rightarrow> bool" where
  "own_ok own \<longleftrightarrow> (\<forall>k. own = Some k \<longrightarrow> length (o_chain k) = 32 \<and> is_valid_key_id (o_key_id k))"

definition room_ok :: "room_state \<Rightarrow> bool" where
  "room_ok st \<longleftrightarrow> own_ok (ro_own st) \<and> (\<forall>p \<in> set (ro_peers st). chains_ok (snd p))"

definition gm_inv :: "group_manager \<Rightarrow> bool" where
  "gm_inv g \<longleftrightarrow> (\<forall>p \<in> set (gm_rooms g). room_ok (snd p)) \<and>
     length (gm_echo_order g) \<le> MAX_OWN_ECHO \<and> dom (gm_echo g) \<subseteq> set (gm_echo_order g)"

lemma set_update_subset: "set (AList.update k v m) \<subseteq> insert (k, v) (set m)"
  by (induction m) auto

lemma room_ok_new [simp]: "room_ok room_state_new"
  by (simp add: room_ok_def room_state_new_def own_ok_def)

lemma room_ok_gm_room: "gm_inv g \<Longrightarrow> room_ok (gm_room r g)"
  by (fastforce simp: gm_room_def gm_inv_def split: option.split dest: map_of_SomeD)

lemma chains_ok_peer: "room_ok st \<Longrightarrow> chains_ok (peer_chains u st)"
  by (fastforce simp: peer_chains_def room_ok_def chains_ok_def [of "[]"] split: option.split dest: map_of_SomeD)

lemma gm_inv_put: "gm_inv g \<Longrightarrow> room_ok st \<Longrightarrow> gm_inv (gm_put_room r st g)"
  using set_update_subset [of r st "gm_rooms g"] by (auto simp: gm_inv_def gm_put_room_def)

lemma room_ok_put_peer:
  "room_ok st \<Longrightarrow> chains_ok cs \<Longrightarrow> room_ok (st\<lparr>ro_peers := AList.update u cs (ro_peers st)\<rparr>)"
  using set_update_subset [of u cs "ro_peers st"] by (auto simp: room_ok_def)

lemma room_ok_irrelevant [simp]:
  "room_ok (st\<lparr>ro_distributed := d\<rparr>) = room_ok st" "room_ok (st\<lparr>ro_members := m\<rparr>) = room_ok st"
  "room_ok (st\<lparr>ro_epoch := e\<rparr>) = room_ok st" "room_ok (st\<lparr>ro_own_epoch := e\<rparr>) = room_ok st"
  by (simp_all add: room_ok_def)

lemma gm_inv_irrelevant [simp]:
  "gm_inv (g\<lparr>gm_draws := n\<rparr>) = gm_inv g" "gm_inv (g\<lparr>gm_trust := t\<rparr>) = gm_inv g"
  "gm_inv (g\<lparr>gm_changed := c\<rparr>) = gm_inv g" "gm_inv (g\<lparr>gm_attempts := a\<rparr>) = gm_inv g"
  "gm_inv (g\<lparr>gm_keys := k\<rparr>) = gm_inv g" "gm_inv (g\<lparr>gm_username := u\<rparr>) = gm_inv g"
  by (simp_all add: gm_inv_def)

subsection \<open>Chains\<close>

lemma skip_to_ok:
  assumes "sodium_ok S" and "inbound_ok k"
  shows "inbound_ok (snd (skip_to S i k))"
  using assms
proof (induction S i k rule: skip_to.induct)
  case (1 S i k)
  have "inbound_ok k'" if "skip_one S k = Some k'" for k'
    using that derive_lengths [OF "1.prems"(1), of "i_chain k"] "1.prems"(2)
    by (auto simp: skip_one_def Let_def inbound_ok_def length_pop_front_while split: if_splits)
  with "1.IH" "1.prems" show ?case by (simp add: skip_to.simps [of S i k] split: option.split)
qed

lemma take_message_key_ok:
  assumes "sodium_ok S" and "inbound_ok k"
  shows "inbound_ok (snd (take_message_key S i k))"
proof -
  obtain b k1 where k1: "skip_to S i k = (b, k1)" by (cases "skip_to S i k")
  with skip_to_ok [OF assms, of i] have "inbound_ok k1" by simp
  with derive_lengths [OF assms(1), of "i_chain k1"] k1 assms(2) show ?thesis
    by (auto simp: take_message_key_def Let_def inbound_ok_def omap_erase_def le_trans [OF length_filter_le]
        split: option.split bool.split)
qed

lemma open_room_message_ok:
  "sodium_ok S \<Longrightarrow> inbound_ok k \<Longrightarrow> inbound_ok (snd (open_room_message S sealed room sender pk k))"
  using take_message_key_ok [of S k "sl_index sealed"]
  by (auto simp: open_room_message_def Let_def split: prod.split option.split)

lemma open_in_chains_ids: "map chain_id (snd (open_in_chains S sealed room sender pk cs)) = map chain_id cs"
  by (induction cs) (auto simp: chain_id_def case_prod_unfold Let_def)

lemma open_in_chains_ok:
  assumes "sodium_ok S" and "chains_ok cs"
  shows "chains_ok (snd (open_in_chains S sealed room sender pk cs))"
proof -
  have "list_all (\<lambda>c. inbound_ok (pc_chain c)) cs \<Longrightarrow>
      list_all (\<lambda>c. inbound_ok (pc_chain c)) (snd (open_in_chains S sealed room sender pk cs))"
    by (induction cs) (auto simp: case_prod_unfold Let_def open_room_message_ok [OF assms(1)])
  moreover have "length (snd (open_in_chains S sealed room sender pk cs)) = length cs"
    using open_in_chains_ids [of S sealed room sender pk cs] by (metis length_map)
  ultimately show ?thesis using assms(2) by (simp add: chains_ok_def open_in_chains_ids)
qed

lemma distinct_drop_map: "distinct (map f xs) \<Longrightarrow> distinct (map f (drop n xs))"
  by (metis distinct_drop drop_map)

lemma chains_ok_add:
  assumes "chains_ok cs" and "\<not> list_ex (same_chain e kid) cs" and "length c = 32"
  shows "chains_ok (pop_front_while (MAX_CHAINS_PER_PEER - 1) cs @
    [\<lparr>pc_epoch = e, pc_key_id = kid, pc_chain = inbound_new c\<rparr>])"
proof -
  have "(e, kid) \<notin> chain_id ` set cs"
    using assms(2) by (auto simp: list_ex_iff same_chain_def chain_id_def)
  then show ?thesis
    using assms(1,3) set_drop_subset [of _ cs]
    by (auto simp: chains_ok_def pop_front_while_eq distinct_drop_map chain_id_def inbound_ok_def inbound_new_def
        MAX_CHAINS_PER_PEER_def list_all_iff dest: in_set_dropD)
qed

lemma chains_ok_prune:
  assumes "distinct (map chain_id cs)" and "list_all (\<lambda>c. inbound_ok (pc_chain c)) cs"
  shows "chains_ok (pop_front_while MAX_CHAINS_PER_PEER (filter P cs))"
  using assms
  by (auto simp: chains_ok_def pop_front_while_eq list_all_iff distinct_drop_map distinct_map_filter
      dest: in_set_dropD)

lemma room_ok_prune:
  assumes "room_ok st"
  shows "room_ok (prune_peer_chains st)"
proof -
  have "chains_ok (pop_front_while MAX_CHAINS_PER_PEER (filter P cs))" if "(u, cs) \<in> set (ro_peers st)" for u cs P
    using assms that chains_ok_prune [of cs P] by (force simp: room_ok_def chains_ok_def [of cs])
  then show ?thesis using assms by (auto simp: room_ok_def prune_peer_chains_def)
qed

subsection \<open>Operations\<close>

lemma keeps_make_envelope_for [keeps_intros]: "keeps gm_inv (make_envelope_for W room recipient)"
proof (rule keepsI)
  fix g assume "gm_inv g"
  moreover obtain n where "snd (make_envelope_for W room recipient g) = g\<lparr>gm_draws := n\<rparr>"
    using make_envelope_for_frame by blast
  ultimately show "gm_inv (snd (make_envelope_for W room recipient g))" by simp
qed

lemma keeps_mark_distributed [keeps_intros]: "keeps gm_inv (emodify (mark_distributed room member))"
  by (rule keeps_emodify) (simp add: mark_distributed_def Let_def gm_inv_put room_ok_gm_room)

lemma keeps_pending_envelopes [keeps_intros]: "keeps gm_inv (pending_envelopes W room ms)"
  by (induction ms) (auto intro!: keeps_intros)

lemma keeps_distribute_rooms [keeps_intros]: "keeps gm_inv (distribute_rooms W rooms)"
  by (induction rooms) (auto intro!: keeps_intros)

lemma keeps_envelopes_for_user [keeps_intros]: "keeps gm_inv (envelopes_for_user W user rooms)"
  by (induction rooms) (auto intro!: keeps_intros)

definition random_ok :: "'j client_world \<Rightarrow> bool" where
  "random_ok W \<longleftrightarrow> sodium_ok (cw_sodium W) \<and> (\<forall>i n. length (cw_bytes W i n) = n)"

lemma gm_generate_ok: "random_ok W \<Longrightarrow> own_ok (Some (fst (gm_generate W g)))"
  by (simp add: gm_generate_def gm_random_def Let_def own_ok_def outbound_generate_def random_ok_def
      new_key_id_valid ROOM_KEY_BYTES_def)

lemma gm_generate_frame: "\<exists>n. snd (gm_generate W g) = g\<lparr>gm_draws := n\<rparr>"
  by (auto simp: gm_generate_def gm_random_def Let_def)

definition must_rotate :: "u64 \<Rightarrow> room_state \<Rightarrow> bool" where
  "must_rotate epoch st \<longleftrightarrow> ro_own st = None \<or> ro_own_epoch st \<noteq> epoch"

lemma sync_state_rotated:
  assumes "must_rotate epoch (gm_room room g)"
  shows "sync_state W room epoch members g = (True, ro_members (gm_room room g) \<noteq> members,
    gm_put_room room (prune_peer_chains ((gm_room room g)\<lparr>ro_own := Some (fst (gm_generate W g)), ro_own_epoch := epoch,
      ro_distributed := [], ro_members := members, ro_epoch := epoch\<rparr>)) (snd (gm_generate W g)))"
  using assms
  by (cases "gm_room room g") (auto simp: sync_state_def must_rotate_def Let_def case_prod_unfold)

lemma sync_state_kept:
  assumes "\<not> must_rotate epoch (gm_room room g)"
  shows "sync_state W room epoch members g = (False, ro_members (gm_room room g) \<noteq> members,
    gm_put_room room (prune_peer_chains ((gm_room room g)\<lparr>ro_distributed :=
        (if ro_members (gm_room room g) = members then ro_distributed (gm_room room g) else []),
      ro_members := members, ro_epoch := epoch\<rparr>)) g)"
  using assms
  by (cases "gm_room room g") (auto simp: sync_state_def must_rotate_def Let_def case_prod_unfold)

lemma sync_state_inv:
  assumes "random_ok W" and "gm_inv g"
  shows "gm_inv (snd (snd (sync_state W room epoch members g)))"
proof (cases "must_rotate epoch (gm_room room g)")
  case True
  obtain n where n: "snd (gm_generate W g) = g\<lparr>gm_draws := n\<rparr>" using gm_generate_frame by blast
  have "room_ok ((gm_room room g)\<lparr>ro_own := Some (fst (gm_generate W g)), ro_own_epoch := epoch,
      ro_distributed := [], ro_members := members, ro_epoch := epoch\<rparr>)"
    using room_ok_gm_room [OF assms(2), of room] gm_generate_ok [OF assms(1), of g] by (simp add: room_ok_def)
  with True assms(2) n show ?thesis by (simp add: sync_state_rotated gm_inv_put room_ok_prune)
next
  case False
  with assms(2) room_ok_gm_room [OF assms(2), of room] show ?thesis
    by (simp add: sync_state_kept gm_inv_put room_ok_prune)
qed

lemma keeps_sync_room: "random_ok W \<Longrightarrow> keeps gm_inv (sync_room W room epoch members)"
  unfolding sync_room_def
  by (intro keeps_intros keeps_elift) (auto simp: sync_state_inv case_prod_unfold Let_def)

lemma unwrap_chain_length:
  "unwrap_sender_key_envelope J S room sender recipient epoch key_id w sk x e = Some env \<Longrightarrow>
   length (ske_chain_key env) = 32"
  by (auto simp: unwrap_sender_key_envelope_def Let_def bind_eq_Some_conv envelope_consistent_def ROOM_KEY_BYTES_def
      split: if_splits)

lemma store_chain_inv:
  assumes "gm_inv g" and "length c = 32"
  shows "gm_inv (snd (store_chain room sender f c g))"
proof -
  note ok = room_ok_gm_room [OF assms(1), of room]
  show ?thesis
    using assms(1) room_ok_put_peer [OF ok chains_ok_add [OF chains_ok_peer [OF ok] _ assms(2)]]
    by (auto simp: store_chain_def Let_def intro!: gm_inv_put)
qed

lemma accept_envelope_inv: "gm_inv g \<Longrightarrow> gm_inv (snd (accept_envelope W room sender f g))"
  by (auto simp: accept_envelope_def Let_def case_prod_unfold split: option.split
      intro!: store_chain_inv dest: unwrap_chain_length)

lemma keeps_process_envelope: "keeps gm_inv (process_envelope W msg)"
  unfolding process_envelope_def Let_def
  by (intro keeps_intros keeps_elift) (rule accept_envelope_inv)

lemma remember_echo_inv:
  assumes "gm_inv g"
  shows "gm_inv (remember_echo m t g)"
proof -
  let ?order = "gm_echo_order g @ [m]"
  have "set ?order \<subseteq> set (take (length ?order - MAX_OWN_ECHO) ?order) \<union> set (drop (length ?order - MAX_OWN_ECHO) ?order)"
    by (metis append_take_drop_id set_append subset_refl)
  with assms show ?thesis
    by (auto simp: gm_inv_def remember_echo_def Let_def pop_front_while_eq dom_def split: if_splits)
qed

lemma seal_room_message_own:
  assumes "sodium_ok S" and "own_ok (Some out)"
  shows "own_ok (Some (snd (seal_room_message S nonce epoch room sender t sk out)))"
  using assms
  by (auto simp: own_ok_def seal_room_message_def Let_def outbound_advance_def ROOM_KEY_BYTES_def
      split: option.split)

lemma gm_seal_inv:
  assumes "random_ok W" and "gm_inv g"
  shows "gm_inv (snd (gm_seal W room mid t g))"
proof (cases "map_of (gm_rooms g) room")
  case (Some st)
  then have st: "room_ok st" using assms(2) by (force simp: gm_inv_def dest: map_of_SomeD)
  show ?thesis
  proof (cases "ro_own st")
    case own: (Some out)
    have "room_ok (st\<lparr>ro_own := Some (snd (seal_room_message (cw_sodium W) n e room u t sk out))\<rparr>)" for n e u sk
      using st own assms(1) seal_room_message_own [of "cw_sodium W" out] by (simp add: room_ok_def random_ok_def)
    with assms(2) show ?thesis
      by (auto simp: gm_seal_def Some own gm_random_def Let_def case_prod_unfold split: option.split
          intro!: remember_echo_inv gm_inv_put)
  qed (use assms Some in \<open>simp add: gm_seal_def\<close>)
qed (use assms in \<open>simp add: gm_seal_def\<close>)

lemma open_with_chain_inv:
  assumes "random_ok W" and "gm_inv g" and "room_ok st" and "chains_ok cs"
  shows "gm_inv (snd (open_with_chain W room sender epoch kid index p st cs g))"
  using assms
  by (auto simp: open_with_chain_def Let_def case_prod_unfold random_ok_def split: option.split
      intro!: gm_inv_put room_ok_put_peer open_in_chains_ok)

lemma gm_open_inv:
  assumes "random_ok W" and "gm_inv g"
  shows "gm_inv (snd (gm_open W room sender p g))"
proof -
  have "gm_inv (snd (open_with_chain W room sender epoch kid index p st cs g))"
    if "map_of (gm_rooms g) room = Some st" "map_of (ro_peers st) sender = Some cs" for epoch kid index st cs
  proof (rule open_with_chain_inv [OF assms])
    show st: "room_ok st" using that(1) assms(2) by (force simp: gm_inv_def dest: map_of_SomeD)
    show "chains_ok cs" using chains_ok_peer [OF st, of sender] that(2) by (simp add: peer_chains_def)
  qed
  with assms(2) show ?thesis
    by (auto simp: gm_open_def effect_simps Let_def split: option.split)
qed

lemma take_own_message_inv: "gm_inv g \<Longrightarrow> gm_inv (snd (take_own_message m g))"
  by (auto simp: take_own_message_def gm_inv_def dom_def split: option.split)

lemma leave_room_inv: "gm_inv g \<Longrightarrow> gm_inv (leave_room room g)"
  by (auto simp: leave_room_def gm_inv_def AList.delete_eq)

section \<open>Reachable states\<close>

text \<open>
  Every operation that changes the group manager, \<^verbatim>\<open>load\<close> apart; an operation that throws
  contributes the state it leaves behind.
\<close>

inductive gm_reach :: "'j client_world \<Rightarrow> group_manager \<Rightarrow> bool" for W where
  start: "gm_reach W (group_manager_new keys)"
| username: "gm_reach W g \<Longrightarrow> gm_reach W (set_username u g)"
| sync: "gm_reach W g \<Longrightarrow> gm_reach W (snd (sync_room W room epoch members g))"
| request_sent: "gm_reach W g \<Longrightarrow> gm_reach W (note_key_request_sent room u g)"
| key_noted: "gm_reach W g \<Longrightarrow> gm_reach W (note_key_available u g)"
| key_available: "gm_reach W g \<Longrightarrow> gm_reach W (snd (on_key_available W u g))"
| distribute: "gm_reach W g \<Longrightarrow> gm_reach W (snd (distribute_new_keys W g))"
| leave: "gm_reach W g \<Longrightarrow> gm_reach W (leave_room room g)"
| envelope: "gm_reach W g \<Longrightarrow> gm_reach W (snd (process_envelope W msg g))"
| seal: "gm_reach W g \<Longrightarrow> gm_reach W (snd (gm_seal W room mid t g))"
| opened: "gm_reach W g \<Longrightarrow> gm_reach W (snd (gm_open W room sender p g))"
| echo: "gm_reach W g \<Longrightarrow> gm_reach W (snd (take_own_message mid g))"
| dm_key: "gm_reach W g \<Longrightarrow> gm_reach W (snd (check_dm_key u x g))"
| accept: "gm_reach W g \<Longrightarrow> gm_reach W (snd (accept_peer_key u g))"
| verify: "gm_reach W g \<Longrightarrow> gm_reach W (snd (mark_peer_verified u b g))"
| cached: "gm_reach W g \<Longrightarrow> gm_reach W (g\<lparr>gm_keys := cache_key u k (gm_keys g)\<rparr>)"

lemma gm_reach_inv: "gm_reach W g \<Longrightarrow> random_ok W \<Longrightarrow> gm_inv g"
proof (induction rule: gm_reach.induct)
  case (start keys)
  show ?case by (simp add: gm_inv_def group_manager_new_def)
next
  case (sync g room epoch members)
  then show ?case by (blast intro: keepsD [OF keeps_sync_room])
next
  case (key_available g u)
  have "keeps gm_inv (on_key_available W u)"
    unfolding on_key_available_def by (intro keeps_intros)
  with key_available show ?case by (blast intro: keepsD)
next
  case (distribute g)
  have "keeps gm_inv (distribute_new_keys W)"
    unfolding distribute_new_keys_def by (intro keeps_intros)
  with distribute show ?case by (blast intro: keepsD)
next
  case (envelope g msg)
  then show ?case by (blast intro: keepsD [OF keeps_process_envelope])
next
  case (accept g u)
  then show ?case by (auto simp: accept_peer_key_def Let_def case_prod_unfold split: option.split)
qed (simp_all add: set_username_def note_key_request_sent_def note_key_available_def leave_room_inv gm_seal_inv
    gm_open_inv take_own_message_inv check_dm_key_def mark_peer_verified_def Let_def case_prod_unfold)

lemma gm_inv_bounds:
  assumes inv: "gm_inv g"
  shows "(\<forall>room st user cs. map_of (gm_rooms g) room = Some st \<longrightarrow> map_of (ro_peers st) user = Some cs \<longrightarrow>
      length cs \<le> 6 \<and> distinct (map chain_id cs) \<and>
      (\<forall>c \<in> set cs. length (i_chain (pc_chain c)) = 32 \<and> length (i_skipped (pc_chain c)) \<le> 200)) \<and>
    card (dom (gm_echo g)) \<le> 200"
proof -
  have "card (dom (gm_echo g)) \<le> card (set (gm_echo_order g))"
    using inv by (intro card_mono) (simp_all add: gm_inv_def)
  also have "\<dots> \<le> 200" using inv card_length [of "gm_echo_order g"] by (simp add: gm_inv_def MAX_OWN_ECHO_def)
  moreover have "chains_ok cs" if "map_of (gm_rooms g) room = Some st" "map_of (ro_peers st) user = Some cs"
    for room st user cs
  proof -
    have "room_ok st" using room_ok_gm_room [OF inv, of room] that(1) by (simp add: gm_room_def)
    from chains_ok_peer [OF this, of user] that(2) show ?thesis by (simp add: peer_chains_def)
  qed
  ultimately show ?thesis
    by (auto simp: chains_ok_def inbound_ok_def list_all_iff MAX_CHAINS_PER_PEER_def MAX_SKIPPED_MESSAGE_KEYS_def)
qed

text \<open>
  In every state the client's group manager can reach, whatever it is sent and
  whatever the user does, each peer has at most six chains per room, no two with the
  same epoch and key id, every chain key has 32 bytes, at most 200 skipped message keys
  are cached per chain and at most 200 of our own messages are remembered.
\<close>

theorem group_state_bounded:
  assumes "random_ok W" and "gm_reach W g"
  shows "(\<forall>room st user cs. map_of (gm_rooms g) room = Some st \<longrightarrow> map_of (ro_peers st) user = Some cs \<longrightarrow>
      length cs \<le> 6 \<and> distinct (map chain_id cs) \<and>
      (\<forall>c \<in> set cs. length (i_chain (pc_chain c)) = 32 \<and> length (i_skipped (pc_chain c)) \<le> 200)) \<and>
    card (dom (gm_echo g)) \<le> 200"
  by (rule gm_inv_bounds [OF gm_reach_inv [OF assms(2,1)]])

lemma toy_world_ok: "random_ok toy_world"
  by (simp add: random_ok_def toy_world_def toy_sodium_ok)

theorem group_state_bounded_witness:
  "card (dom (gm_echo (snd (gm_seal toy_world ''general'' ''m1'' ''hi''
     (snd (sync_room toy_world ''general'' 1 [''al'', ''bo''] (set_username ''al'' (group_manager_new (toy_key_manager 3))))))))) \<le> 200"
  using group_state_bounded [OF toy_world_ok gm_reach.seal [OF gm_reach.sync [OF gm_reach.username [OF gm_reach.start]]]]
  by blast

section \<open>Trust\<close>

lemma process_envelope_ok:
  assumes "process_envelope W msg g = (Some (ENV_OK, detail), g')"
  obtains f where "read_envelope_fields (cw_json W) (m_payload msg) = Some f"
    and "accept_envelope W (m_room msg) (m_from msg) f g = ((ENV_OK, detail), g')"
    and "m_from msg \<noteq> []" and "m_from msg \<noteq> gm_username g" and "ef_sx f \<noteq> []" and "ef_se f \<noteq> []"
  using assms
  by (auto simp: process_envelope_def effect_simps Let_def prod_eq_iff split: if_splits option.splits)

lemma accept_envelope_ok:
  assumes "accept_envelope W room sender f g = ((ENV_OK, detail), g')"
  obtains ts env where "check_and_pin sender (ef_sx f) (ef_se f) (gm_trust g) = (ts, gm_trust g')" and "ts \<noteq> CHANGED"
    and "unwrap_sender_key_envelope (cw_json W) (cw_sodium W) room sender (gm_username g) (ef_epoch f) (ef_key_id f)
       \<lparr>we_nonce_b64 = ef_nonce f, we_box_b64 = ef_box f, we_signature_b64 = ef_sig f,
        we_sender_x25519_b64 = ef_sx f, we_sender_ed25519_b64 = ef_se f\<rparr>
       (km_secret_key (gm_keys g)) (from_b64 (cw_sodium W) (ef_sx f)) (from_b64 (cw_sodium W) (ef_se f)) = Some env"
    and "store_chain room sender f (ske_chain_key env) (g\<lparr>gm_trust := gm_trust g'\<rparr>) = ((ENV_OK, detail), g')"
proof -
  obtain ts t' where c: "check_and_pin sender (ef_sx f) (ef_se f) (gm_trust g) = (ts, t')"
    by (cases "check_and_pin sender (ef_sx f) (ef_se f) (gm_trust g)")
  let ?w = "\<lparr>we_nonce_b64 = ef_nonce f, we_box_b64 = ef_box f, we_signature_b64 = ef_sig f,
    we_sender_x25519_b64 = ef_sx f, we_sender_ed25519_b64 = ef_se f\<rparr>"
  have "ts \<noteq> CHANGED"
    using assms c by (auto simp: accept_envelope_def Let_def split: if_splits)
  moreover obtain env where
    u: "unwrap_sender_key_envelope (cw_json W) (cw_sodium W) room sender (gm_username g) (ef_epoch f) (ef_key_id f) ?w
       (km_secret_key (gm_keys g)) (from_b64 (cw_sodium W) (ef_sx f)) (from_b64 (cw_sodium W) (ef_se f)) = Some env"
    and s: "store_chain room sender f (ske_chain_key env) (g\<lparr>gm_trust := t'\<rparr>) = ((ENV_OK, detail), g')"
    using assms c by (auto simp: accept_envelope_def Let_def split: if_splits option.splits)
  moreover have "gm_trust g' = t'"
    using arg_cong [OF s, of "\<lambda>x. gm_trust (snd x)"] by (simp add: store_chain_def Let_def split: if_splits)
  ultimately show thesis using that [of ts env] c by simp
qed

text \<open>
  C7: An envelope is accepted only with the identity that is pinned for its sender: the
  keys it was opened and verified with are those of the pin afterwards, and a pin that
  existed before keeps its encryption key and, once known, its signing key.
\<close>

theorem envelope_uses_pinned_identity:
  assumes "process_envelope W msg g = (Some (ENV_OK, detail), g')"
  shows "\<exists>f pin. read_envelope_fields (cw_json W) (m_payload msg) = Some f \<and>
    ts_get (m_from msg) (gm_trust g') = Some pin \<and> ti_x25519 pin = ef_sx f \<and> ti_ed25519 pin = ef_se f \<and>
    (\<forall>old. ts_get (m_from msg) (gm_trust g) = Some old \<longrightarrow> pin_extends old pin) \<and>
    so_sign_verify_detached (cw_sodium W) (from_b64 (cw_sodium W) (ti_ed25519 pin))
      (bytes_of (sign_input_for_envelope (m_room msg) (m_from msg) (gm_username g) (ef_epoch f) (ef_key_id f)
         (ef_nonce f) (ef_box f))) (from_b64 (cw_sodium W) (ef_sig f))"
proof -
  obtain f where f: "read_envelope_fields (cw_json W) (m_payload msg) = Some f"
    "accept_envelope W (m_room msg) (m_from msg) f g = ((ENV_OK, detail), g')"
    "m_from msg \<noteq> []" "ef_sx f \<noteq> []" "ef_se f \<noteq> []"
    by (rule process_envelope_ok [OF assms])
  obtain ts env where a: "check_and_pin (m_from msg) (ef_sx f) (ef_se f) (gm_trust g) = (ts, gm_trust g')" "ts \<noteq> CHANGED"
    "unwrap_sender_key_envelope (cw_json W) (cw_sodium W) (m_room msg) (m_from msg) (gm_username g) (ef_epoch f)
       (ef_key_id f) \<lparr>we_nonce_b64 = ef_nonce f, we_box_b64 = ef_box f, we_signature_b64 = ef_sig f,
        we_sender_x25519_b64 = ef_sx f, we_sender_ed25519_b64 = ef_se f\<rparr>
       (km_secret_key (gm_keys g)) (from_b64 (cw_sodium W) (ef_sx f)) (from_b64 (cw_sodium W) (ef_se f)) = Some env"
    by (rule accept_envelope_ok [OF f(2)])
  have st: "fst (check_and_pin (m_from msg) (ef_sx f) (ef_se f) (gm_trust g)) \<noteq> CHANGED" using a(1,2) by simp
  have get: "ts_get (m_from msg) (gm_trust g') =
      ts_get (m_from msg) (snd (check_and_pin (m_from msg) (ef_sx f) (ef_se f) (gm_trust g)))" using a(1) by simp
  have "so_sign_verify_detached (cw_sodium W) (from_b64 (cw_sodium W) (ef_se f))
      (bytes_of (sign_input_for_envelope (m_room msg) (m_from msg) (gm_username g) (ef_epoch f) (ef_key_id f)
         (ef_nonce f) (ef_box f))) (from_b64 (cw_sodium W) (ef_sig f))"
    using a(3) by (simp add: unwrap_sender_key_envelope_def Let_def split: if_splits)
  moreover have "\<exists>pin. ts_get (m_from msg) (gm_trust g') = Some pin \<and> ti_x25519 pin = ef_sx f \<and> ti_ed25519 pin = ef_se f \<and>
      (\<forall>old. ts_get (m_from msg) (gm_trust g) = Some old \<longrightarrow> pin_extends old pin)"
    unfolding get using st f(3-5)
    by (auto simp: check_and_pin_get check_and_pin_status pin_extends_def split: option.splits if_splits)
  ultimately show ?thesis using f(1) by auto
qed

section \<open>From rotation to a readable message\<close>

definition identity_ok :: "sodium_api \<Rightarrow> key_manager \<Rightarrow> bool" where
  "identity_ok S k \<longleftrightarrow> box_keys S k \<and> length (km_signing_secret_key k) = 64 \<and>
     km_signing_public_key k = so_sign_sk_to_pk S (km_signing_secret_key k)"

lemma identity_lengths:
  assumes "sodium_ok S" and "identity_ok S k"
  shows "length (km_secret_key k) = 32" and "length (km_public_key k) = 32"
    and "length (km_signing_secret_key k) = 64" and "length (km_signing_public_key k) = 32"
    and "km_public_key k = so_box_pk S (km_secret_key k)"
    and "so_sign_sk_to_pk S (km_signing_secret_key k) = km_signing_public_key k"
  using assms(2) sodium_ok_pk [OF assms(1)] by (simp_all add: identity_ok_def box_keys_def)

lemma make_envelope_for_Some:
  assumes "make_envelope_for W room recipient g = (Some (Some m), g')"
  obtains st own b64 w where "map_of (gm_rooms g) room = Some st" and "ro_own st = Some own"
    and "get_cached_key recipient (gm_keys g) = Some b64"
    and "wrap_sender_key_envelope (cw_json W) (cw_sodium W) (cw_bytes W (gm_draws g) 24) room (gm_username g) recipient
       (ro_own_epoch st) (o_key_id own) (o_chain own) (km_public_key (gm_keys g)) (km_secret_key (gm_keys g))
       (km_signing_secret_key (gm_keys g)) (from_b64 (cw_sodium W) b64) = Some (Some w)"
    and "m_payload m = room_key_payload (cw_json W) recipient (ro_own_epoch st) (o_key_id own) w"
    and "m_from m = gm_username g" and "m_room m = room" and "m_type m = ROOM_KEY"
  using assms
  by (auto simp: make_envelope_for_def wrap_for_def gm_random_def gm_message_def message_create_def Let_def
      split: if_splits option.splits)

lemma read_room_key_payload:
  assumes "json_ok J"
  shows "read_envelope_fields J (room_key_payload J recipient epoch kid w) =
      Some \<lparr>ef_epoch = epoch, ef_key_id = kid, ef_nonce = we_nonce_b64 w, ef_box = we_box_b64 w,
        ef_sig = we_signature_b64 w, ef_sx = we_sender_x25519_b64 w, ef_se = we_sender_ed25519_b64 w\<rparr>"
    and "j_is_object J (room_key_payload J recipient epoch kid w)"
    and "j_has_all J (room_key_payload J recipient epoch kid w) [''recipient'', ''epoch'', ''key_id'', ''nonce'', ''box'',
           ''signature'', ''sender_x25519'', ''sender_ed25519'']"
    and "j_value_str J (room_key_payload J recipient epoch kid w) ''recipient'' '''' = Some recipient"
    and "j_value_str J (room_key_payload J recipient epoch kid w) ''box'' '''' = Some (we_box_b64 w)"
  using assms by (simp_all add: read_envelope_fields_def room_key_payload_def json_obj_simps)

lemma to_b64_not_Nil: "sodium_ok S \<Longrightarrow> d \<noteq> [] \<Longrightarrow> to_b64 S d \<noteq> []"
  using length_to_b64 [of S d] by (cases d) auto

lemma wrapped_not_empty:
  assumes "sodium_ok S" and "wrap_sender_key_envelope J S nonce room sender recipient epoch key_id chain_key
      (so_box_pk S x_sk) x_sk ed_sk (so_box_pk S r_sk) = Some (Some w)" and "length nonce = 24" and "length r_sk = 32"
  shows "we_nonce_b64 w \<noteq> []" "we_box_b64 w \<noteq> []" "we_signature_b64 w \<noteq> []"
    "we_sender_x25519_b64 w = to_b64 S (so_box_pk S x_sk)" "we_sender_ed25519_b64 w = to_b64 S (so_sign_sk_to_pk S ed_sk)"
    "is_valid_key_id key_id"
proof -
  obtain inner box sig where w:
    "length chain_key = 32" "is_valid_key_id key_id" "length (so_box_pk S x_sk) = 32" "length x_sk = 32"
    "length ed_sk = 64"
    "j_dump J (inner_json J S room epoch key_id chain_key (so_box_pk S x_sk) (so_sign_sk_to_pk S ed_sk)) = Some inner"
    "so_box_easy S (so_box_pk S r_sk) x_sk nonce (bytes_of inner) = Some box"
    "so_sign_detached S ed_sk (bytes_of (sign_input_for_envelope room sender recipient epoch key_id
       (to_b64 S nonce) (to_b64 S box))) = Some sig"
    "w = \<lparr>we_nonce_b64 = to_b64 S nonce, we_box_b64 = to_b64 S box, we_signature_b64 = to_b64 S sig,
       we_sender_x25519_b64 = to_b64 S (so_box_pk S x_sk), we_sender_ed25519_b64 = to_b64 S (so_sign_sk_to_pk S ed_sk)\<rparr>"
    by (rule wrap_sender_key_envelope_Some [OF assms(2)])
  have "length sig = 64" using sodium_ok_sign [OF assms(1) w(5)] w(8) by (metis option.inject)
  moreover have "length box = length inner + 16"
    using sodium_ok_box [OF assms(1) w(4) assms(4,3) w(7)] by simp
  ultimately have "nonce \<noteq> []" "sig \<noteq> []" "box \<noteq> []" using assms(3) by auto
  with assms(1) w show "we_nonce_b64 w \<noteq> []" "we_box_b64 w \<noteq> []" "we_signature_b64 w \<noteq> []"
    "we_sender_x25519_b64 w = to_b64 S (so_box_pk S x_sk)" "we_sender_ed25519_b64 w = to_b64 S (so_sign_sk_to_pk S ed_sk)"
    "is_valid_key_id key_id"
    by (simp_all add: to_b64_not_Nil)
qed

text \<open>
  Two clients that can exchange keys: well-formed identities and names, the sender has the
  recipient's published key and a room key for a non-zero epoch, the recipient has no
  other identity pinned for the sender and not yet this chain.
\<close>

definition can_deliver :: "'j client_world \<Rightarrow> group_manager \<Rightarrow> group_manager \<Rightarrow> string \<Rightarrow> room_state \<Rightarrow> outbound \<Rightarrow> bool" where
  "can_deliver W ga gb room st own \<longleftrightarrow>
     json_ok (cw_json W) \<and> random_ok W \<and>
     identity_ok (cw_sodium W) (gm_keys ga) \<and> identity_ok (cw_sodium W) (gm_keys gb) \<and>
     gm_username ga \<noteq> [] \<and> gm_username ga \<noteq> gm_username gb \<and>
     map_of (gm_rooms ga) room = Some st \<and> ro_own st = Some own \<and> ro_own_epoch st \<noteq> 0 \<and>
     get_cached_key (gm_username gb) (gm_keys ga) = Some (get_public_key (cw_sodium W) (gm_keys gb)) \<and>
     fst (check_and_pin (gm_username ga) (get_public_key (cw_sodium W) (gm_keys ga))
       (get_signing_public_key (cw_sodium W) (gm_keys ga)) (gm_trust gb)) \<noteq> CHANGED \<and>
     \<not> list_ex (same_chain (ro_own_epoch st) (o_key_id own)) (peer_chains (gm_username ga) (gm_room room gb))"

definition fits_server :: "'j client_world \<Rightarrow> 'j message \<Rightarrow> bool" where
  "fits_server W m \<longleftrightarrow>
     (\<exists>b. j_value_str (cw_json W) (m_payload m) ''box'' '''' = Some b \<and> length b \<le> MAX_ROOM_KEY_B64_LENGTH)"

definition delivered :: "'j client_world \<Rightarrow> group_manager \<Rightarrow> string \<Rightarrow> room_state \<Rightarrow> outbound \<Rightarrow> group_manager \<Rightarrow> group_manager" where
  "delivered W ga room st own gb =
     (let alice = gm_username ga; S = cw_sodium W; x = get_public_key S (gm_keys ga);
          ts = snd (check_and_pin alice x (get_signing_public_key S (gm_keys ga)) (gm_trust gb));
          rs = gm_room room gb;
          cs = pop_front_while (MAX_CHAINS_PER_PEER - 1) (peer_chains alice rs) @
            [\<lparr>pc_epoch = ro_own_epoch st, pc_key_id = o_key_id own, pc_chain = inbound_new (o_chain own)\<rparr>]
      in (gm_put_room room (rs\<lparr>ro_peers := AList.update alice cs (ro_peers rs)\<rparr>) (gb\<lparr>gm_trust := ts\<rparr>))
           \<lparr>gm_keys := cache_key alice x (gm_keys gb)\<rparr>)"

lemma envelope_delivered:
  assumes "can_deliver W ga gb room st own"
    and "make_envelope_for W room (gm_username gb) ga = (Some (Some m), ga')" and "fits_server W m"
  shows "process_envelope W m gb = (Some (ENV_OK, ''''), delivered W ga room st own gb)"
proof -
  let ?S = "cw_sodium W" and ?J = "cw_json W" and ?ka = "gm_keys ga" and ?kb = "gm_keys gb"
  have J: "json_ok ?J" and S: "sodium_ok ?S" and rnd: "length (cw_bytes W i n) = n" for i n
    using assms(1) by (simp_all add: can_deliver_def random_ok_def)
  have ids: "identity_ok ?S ?ka" "identity_ok ?S ?kb" using assms(1) by (simp_all add: can_deliver_def)
  note ka = identity_lengths [OF S ids(1)] and kb = identity_lengths [OF S ids(2)]
  have pub: "get_public_key ?S ?ka = to_b64 ?S (km_public_key ?ka)"
    "get_signing_public_key ?S ?ka = to_b64 ?S (km_signing_public_key ?ka)"
    "from_b64 ?S (get_public_key ?S ?kb) = so_box_pk ?S (km_secret_key ?kb)"
    using S kb(2,5) by (simp_all add: get_public_key_def get_signing_public_key_def km_base64 from_to_b64)
  obtain w where w: "wrap_sender_key_envelope ?J ?S (cw_bytes W (gm_draws ga) 24) room (gm_username ga) (gm_username gb)
       (ro_own_epoch st) (o_key_id own) (o_chain own) (so_box_pk ?S (km_secret_key ?ka)) (km_secret_key ?ka)
       (km_signing_secret_key ?ka) (so_box_pk ?S (km_secret_key ?kb)) = Some (Some w)"
    and m: "m_payload m = room_key_payload ?J (gm_username gb) (ro_own_epoch st) (o_key_id own) w"
    "m_from m = gm_username ga" "m_room m = room"
  proof (rule make_envelope_for_Some [OF assms(2)])
    fix st' own' b64 w
    assume e: "map_of (gm_rooms ga) room = Some st'" "ro_own st' = Some own'"
      "get_cached_key (gm_username gb) ?ka = Some b64"
      "wrap_sender_key_envelope ?J ?S (cw_bytes W (gm_draws ga) 24) room (gm_username ga) (gm_username gb)
         (ro_own_epoch st') (o_key_id own') (o_chain own') (km_public_key ?ka) (km_secret_key ?ka)
         (km_signing_secret_key ?ka) (from_b64 ?S b64) = Some (Some w)"
      "m_payload m = room_key_payload ?J (gm_username gb) (ro_own_epoch st') (o_key_id own') w"
      "m_from m = gm_username ga" "m_room m = room"
    have "st' = st" "own' = own" "b64 = get_public_key ?S ?kb"
      using assms(1) e(1-3) by (simp_all add: can_deliver_def)
    then show thesis using that [of w] e(4-) pub(3) unfolding ka(5) by simp
  qed
  have box: "length (we_box_b64 w) \<le> MAX_ROOM_KEY_B64_LENGTH"
    using assms(3) by (simp add: fits_server_def m read_room_key_payload(5) [OF J])
  note ne = wrapped_not_empty [OF S w rnd kb(1)]
  have keys: "we_sender_x25519_b64 w = get_public_key ?S ?ka" "we_sender_ed25519_b64 w = get_signing_public_key ?S ?ka"
    using ne(4,5) pub(1,2) ka(5,6) by simp_all
  have dec: "from_b64 ?S (get_public_key ?S ?ka) = km_public_key ?ka"
    "from_b64 ?S (get_signing_public_key ?S ?ka) = km_signing_public_key ?ka"
    using S ka by (simp_all add: pub from_to_b64)
  have nonempty: "get_public_key ?S ?ka \<noteq> []" "get_signing_public_key ?S ?ka \<noteq> []"
    unfolding pub using ka(2,4) length_to_b64 [OF S, of "km_public_key ?ka"]
      length_to_b64 [OF S, of "km_signing_public_key ?ka"] by auto
  have unw: "\<exists>env. unwrap_sender_key_envelope ?J ?S room (gm_username ga) (gm_username gb) (ro_own_epoch st) (o_key_id own) w
      (km_secret_key ?kb) (km_public_key ?ka) (km_signing_public_key ?ka) = Some env \<and> ske_chain_key env = o_chain own"
    using envelope_roundtrip_core [OF J S rnd kb(1) w box] ka(5,6) by simp
  have eq: "\<lparr>we_nonce_b64 = we_nonce_b64 w, we_box_b64 = we_box_b64 w, we_signature_b64 = we_signature_b64 w,
      we_sender_x25519_b64 = get_public_key ?S ?ka, we_sender_ed25519_b64 = get_signing_public_key ?S ?ka\<rparr> = w"
    by (simp flip: keys)
  obtain status ts where cp: "check_and_pin (gm_username ga) (get_public_key ?S ?ka) (get_signing_public_key ?S ?ka)
      (gm_trust gb) = (status, ts)" by (cases "check_and_pin (gm_username ga) (get_public_key ?S ?ka)
      (get_signing_public_key ?S ?ka) (gm_trust gb)")
  have "accept_envelope W room (gm_username ga) \<lparr>ef_epoch = ro_own_epoch st, ef_key_id = o_key_id own,
      ef_nonce = we_nonce_b64 w, ef_box = we_box_b64 w, ef_sig = we_signature_b64 w, ef_sx = get_public_key ?S ?ka,
      ef_se = get_signing_public_key ?S ?ka\<rparr> gb = ((ENV_OK, ''''), delivered W ga room st own gb)"
    using assms(1) unw cp ka(2,4)
    by (auto simp: accept_envelope_def can_deliver_def dec eq store_chain_def delivered_def gm_room_def Let_def)
  then show ?thesis
    using assms(1) ne nonempty
    by (simp add: process_envelope_def effect_simps m read_room_key_payload [OF J] keys can_deliver_def Let_def)
qed

lemma open_in_chains_last:
  assumes "\<not> list_ex (same_chain (sl_epoch sealed) (sl_key_id sealed)) cs"
    and "same_chain (sl_epoch sealed) (sl_key_id sealed) c"
    and "open_room_message S sealed room sender pk (pc_chain c) = (r, k)"
  shows "open_in_chains S sealed room sender pk (cs @ [c]) = (r, cs @ [c\<lparr>pc_chain := k\<rparr>])"
  using assms by (induction cs) auto

lemma read_sealed_payload:
  assumes "json_ok J"
  shows "read_sealed J (sl_epoch s) (sl_key_id s) (ucast (sl_index s)) (sealed_payload J s) = Some s"
    and "j_is_object J (sealed_payload J s)"
    and "j_has_all J (sealed_payload J s) [''epoch'', ''key_id'', ''index'', ''nonce'', ''ciphertext'', ''signature'']"
    and "j_value_u64 J (sealed_payload J s) ''epoch'' 0 = Some (sl_epoch s)"
    and "j_value_str J (sealed_payload J s) ''key_id'' '''' = Some (sl_key_id s)"
    and "j_value_i64 J (sealed_payload J s) ''index'' d = Some (ucast (sl_index s))"
  using assms by (simp_all add: read_sealed_def sealed_payload_def json_obj_simps)

lemma sint_ucast_u32: "0 \<le> sint (ucast (i :: u32) :: i64)"
proof -
  have "\<not> bit (ucast i :: i64) 63" by (auto simp: bit_ucast_iff dest: bit_imp_le_length)
  then show ?thesis by (simp add: sint_uint signed_take_bit_nonnegative_iff bit_uint_iff)
qed

lemma delivered_chain:
  assumes "can_deliver W ga gb room st own"
  obtains cs where "map_of (gm_rooms (delivered W ga room st own gb)) room =
      Some ((gm_room room gb)\<lparr>ro_peers := AList.update (gm_username ga) (cs @ [\<lparr>pc_epoch = ro_own_epoch st,
        pc_key_id = o_key_id own, pc_chain = inbound_new (o_chain own)\<rparr>]) (ro_peers (gm_room room gb))\<rparr>)"
    and "\<not> list_ex (same_chain (ro_own_epoch st) (o_key_id own)) cs"
proof -
  let ?cs = "pop_front_while (MAX_CHAINS_PER_PEER - 1) (peer_chains (gm_username ga) (gm_room room gb))"
  have "\<not> list_ex (same_chain (ro_own_epoch st) (o_key_id own)) ?cs"
    using assms set_pop_front_while [of "MAX_CHAINS_PER_PEER - 1" "peer_chains (gm_username ga) (gm_room room gb)"]
    by (auto simp: can_deliver_def list_ex_iff)
  moreover have "map_of (gm_rooms (delivered W ga room st own gb)) room =
      Some ((gm_room room gb)\<lparr>ro_peers := AList.update (gm_username ga) (?cs @ [\<lparr>pc_epoch = ro_own_epoch st,
        pc_key_id = o_key_id own, pc_chain = inbound_new (o_chain own)\<rparr>]) (ro_peers (gm_room room gb))\<rparr>)"
    by (simp add: delivered_def Let_def gm_put_room_def update_conv')
  ultimately show thesis using that by blast
qed

lemma delivered_pin:
  assumes "can_deliver W ga gb room st own"
  shows "\<exists>pin. ts_get (gm_username ga) (gm_trust (delivered W ga room st own gb)) = Some pin \<and>
    ti_ed25519 pin = to_b64 (cw_sodium W) (km_signing_public_key (gm_keys ga)) \<and>
    length (km_signing_public_key (gm_keys ga)) = 32"
proof -
  let ?S = "cw_sodium W"
  have S: "sodium_ok ?S" using assms by (simp add: can_deliver_def random_ok_def)
  have "identity_ok ?S (gm_keys ga)" using assms by (simp add: can_deliver_def)
  note ka = identity_lengths [OF S this]
  have pub: "get_public_key ?S (gm_keys ga) = to_b64 ?S (km_public_key (gm_keys ga))"
    "get_signing_public_key ?S (gm_keys ga) = to_b64 ?S (km_signing_public_key (gm_keys ga))"
    using S by (simp_all add: get_public_key_def get_signing_public_key_def km_base64)
  have ne: "to_b64 ?S (km_public_key (gm_keys ga)) \<noteq> []" "to_b64 ?S (km_signing_public_key (gm_keys ga)) \<noteq> []"
    using ka(2,4) length_to_b64 [OF S, of "km_public_key (gm_keys ga)"]
      length_to_b64 [OF S, of "km_signing_public_key (gm_keys ga)"] by auto
  have "gm_trust (delivered W ga room st own gb) = snd (check_and_pin (gm_username ga)
      (get_public_key ?S (gm_keys ga)) (get_signing_public_key ?S (gm_keys ga)) (gm_trust gb))"
    by (simp add: delivered_def Let_def)
  moreover have "fst (check_and_pin (gm_username ga) (get_public_key ?S (gm_keys ga))
      (get_signing_public_key ?S (gm_keys ga)) (gm_trust gb)) \<noteq> CHANGED" "gm_username ga \<noteq> []"
    using assms by (simp_all add: can_deliver_def)
  ultimately show ?thesis
    using ne ka(4) by (auto simp: check_and_pin_get check_and_pin_status pub split: option.splits if_splits)
qed

lemma gm_open_delivered:
  assumes "can_deliver W ga gb room st own"
    and "sl_epoch s = ro_own_epoch st" and "sl_key_id s = o_key_id own" and "is_valid_key_id (o_key_id own)"
    and "open_room_message (cw_sodium W) s room (gm_username ga) (km_signing_public_key (gm_keys ga))
      (inbound_new (o_chain own)) = (r, k)"
  shows "fst (gm_open W room (gm_username ga) (sealed_payload (cw_json W) s) (delivered W ga room st own gb)) =
    Some (case r of None \<Rightarrow> Inl ''decryption failed'' | Some t \<Rightarrow> Inr t)"
proof -
  let ?S = "cw_sodium W"
  have J: "json_ok (cw_json W)" and S: "sodium_ok ?S" and e: "ro_own_epoch st \<noteq> 0"
    using assms(1) by (simp_all add: can_deliver_def random_ok_def)
  obtain cs where cs: "map_of (gm_rooms (delivered W ga room st own gb)) room =
      Some ((gm_room room gb)\<lparr>ro_peers := AList.update (gm_username ga) (cs @ [\<lparr>pc_epoch = ro_own_epoch st,
        pc_key_id = o_key_id own, pc_chain = inbound_new (o_chain own)\<rparr>]) (ro_peers (gm_room room gb))\<rparr>)"
    "\<not> list_ex (same_chain (ro_own_epoch st) (o_key_id own)) cs"
    by (rule delivered_chain [OF assms(1)])
  obtain pin where pin: "ts_get (gm_username ga) (gm_trust (delivered W ga room st own gb)) = Some pin"
    "ti_ed25519 pin = to_b64 ?S (km_signing_public_key (gm_keys ga))" "length (km_signing_public_key (gm_keys ga)) = 32"
    using delivered_pin [OF assms(1)] by blast
  have pk: "from_b64 ?S (to_b64 ?S (km_signing_public_key (gm_keys ga))) = km_signing_public_key (gm_keys ga)"
    using S pin(3) by (simp add: from_to_b64)
  have "to_b64 ?S (km_signing_public_key (gm_keys ga)) \<noteq> []"
    using pin(3) length_to_b64 [OF S, of "km_signing_public_key (gm_keys ga)"] by auto
  moreover have "open_in_chains ?S s room (gm_username ga) (km_signing_public_key (gm_keys ga))
      (cs @ [\<lparr>pc_epoch = ro_own_epoch st, pc_key_id = o_key_id own, pc_chain = inbound_new (o_chain own)\<rparr>]) =
      (r, cs @ [\<lparr>pc_epoch = ro_own_epoch st, pc_key_id = o_key_id own, pc_chain = k\<rparr>])"
    using open_in_chains_last [of s cs "\<lparr>pc_epoch = ro_own_epoch st, pc_key_id = o_key_id own,
        pc_chain = inbound_new (o_chain own)\<rparr>" ?S room "gm_username ga" "km_signing_public_key (gm_keys ga)" r k]
      cs(2) assms(2,3,5) by (simp add: same_chain_def)
  moreover have "\<not> sint (ucast (sl_index s) :: i64) < 0" using sint_ucast_u32 [of "sl_index s"] by simp
  ultimately show ?thesis
    using cs pin pk e assms(2-4) read_sealed_payload(1) [OF J, of s]
    by (simp add: gm_open_def open_with_chain_def effect_simps read_sealed_payload [OF J] update_conv' same_chain_def
        Let_def case_prod_unfold)
qed

lemma make_envelope_own:
  assumes "can_deliver W ga gb room st own"
    and "make_envelope_for W room (gm_username gb) ga = (Some (Some m), ga')"
  shows "length (o_chain own) = 32" and "is_valid_key_id (o_key_id own)" and "\<exists>n. ga' = ga\<lparr>gm_draws := n\<rparr>"
proof -
  obtain n where n: "ga' = ga\<lparr>gm_draws := n\<rparr>"
    using make_envelope_for_frame [of W room "gm_username gb" ga] assms(2) by auto
  then show "\<exists>n. ga' = ga\<lparr>gm_draws := n\<rparr>" by blast
  obtain st' own' b64 w where e: "map_of (gm_rooms ga) room = Some st'" "ro_own st' = Some own'"
    "wrap_sender_key_envelope (cw_json W) (cw_sodium W) (cw_bytes W (gm_draws ga) 24) room (gm_username ga)
       (gm_username gb) (ro_own_epoch st') (o_key_id own') (o_chain own') (km_public_key (gm_keys ga))
       (km_secret_key (gm_keys ga)) (km_signing_secret_key (gm_keys ga)) (from_b64 (cw_sodium W) b64) = Some (Some w)"
    by (rule make_envelope_for_Some [OF assms(2)])
  moreover have "st' = st" "own' = own" using e(1,2) assms(1) by (simp_all add: can_deliver_def)
  ultimately show "length (o_chain own) = 32" "is_valid_key_id (o_key_id own)"
    using wrap_sender_key_envelope_Some [OF e(3)] by blast+
qed

lemma gm_seal_fresh:
  assumes "random_ok W" and "map_of (gm_rooms g) room = Some st" and "ro_own st = Some own"
    and "ro_own_epoch st = ro_epoch st" and "identity_ok (cw_sodium W) (gm_keys g)"
    and "outbound_tracks (cw_sodium W) c own" and "o_index own \<noteq> - 1"
  obtains s g' where "gm_seal W room mid t g = (Inr (sealed_payload (cw_json W) s), g')"
    and "fst (seal_room_message (cw_sodium W) (cw_bytes W (gm_draws g) 24) (ro_epoch st) room (gm_username g) t
      (km_signing_secret_key (gm_keys g)) own) = Some s"
    and "sl_epoch s = ro_epoch st" and "sl_key_id s = o_key_id own" and "sl_index s = o_index own"
proof -
  have S: "sodium_ok (cw_sodium W)" and rnd: "length (cw_bytes W (gm_draws g) 24) = 24"
    using assms(1) by (simp_all add: random_ok_def)
  obtain ct sig where s: "seal_room_message (cw_sodium W) (cw_bytes W (gm_draws g) 24) (ro_epoch st) room (gm_username g) t
      (km_signing_secret_key (gm_keys g)) own =
    (Some \<lparr>sl_epoch = ro_epoch st, sl_key_id = o_key_id own, sl_index = o_index own,
       sl_nonce_b64 = to_b64 (cw_sodium W) (cw_bytes W (gm_draws g) 24), sl_ciphertext_b64 = to_b64 (cw_sodium W) ct,
       sl_signature_b64 = to_b64 (cw_sodium W) sig\<rparr>,
     own\<lparr>o_chain := chain_at (cw_sodium W) c (Suc (unat (o_index own))), o_index := o_index own + 1\<rparr>)"
    by (rule seal_room_message_eq [OF S assms(6) identity_lengths(3) [OF S assms(5)] rnd assms(7)])
  have "\<exists>g'. gm_seal W room mid t g = (Inr (sealed_payload (cw_json W) (the (fst (seal_room_message (cw_sodium W)
      (cw_bytes W (gm_draws g) 24) (ro_epoch st) room (gm_username g) t (km_signing_secret_key (gm_keys g)) own)))), g')"
    using assms(2-4) s by (simp add: gm_seal_def gm_random_def Let_def)
  then show thesis using that s by auto
qed

text \<open>
  C1: End to end between two clients: when a member with a fresh room key wraps it for a
  peer, the peer accepts the envelope, and the next room message the member seals is
  opened by the peer to the original text (of at most 3056 bytes).
\<close>

theorem fresh_key_message_readable:
  assumes "can_deliver W ga gb room st own" and "o_index own = 0" and "ro_own_epoch st = ro_epoch st"
    and "make_envelope_for W room (gm_username gb) ga = (Some (Some m), ga')" and "fits_server W m"
    and "length t \<le> 3056"
  shows "\<exists>gb' payload ga''. process_envelope W m gb = (Some (ENV_OK, ''''), gb') \<and>
    gm_seal W room mid t ga' = (Inr payload, ga'') \<and>
    fst (gm_open W room (gm_username ga) payload gb') = Some (Inr t)"
proof -
  let ?S = "cw_sodium W"
  have rnd: "random_ok W" and S: "sodium_ok ?S" and ids: "identity_ok ?S (gm_keys ga)"
    and room: "map_of (gm_rooms ga) room = Some st" "ro_own st = Some own"
    using assms(1) by (simp_all add: can_deliver_def random_ok_def)
  note own = make_envelope_own [OF assms(1,4)]
  obtain n where n: "ga' = ga\<lparr>gm_draws := n\<rparr>" using own(3) by blast
  have tr: "outbound_tracks ?S (o_chain own) own" using own(1) assms(2) by (simp add: outbound_tracks_def)
  have idx: "o_index own \<noteq> - 1" using assms(2) by simp
  obtain s ga'' where seal: "gm_seal W room mid t ga' = (Inr (sealed_payload (cw_json W) s), ga'')"
    "fst (seal_room_message ?S (cw_bytes W n 24) (ro_epoch st) room (gm_username ga) t
      (km_signing_secret_key (gm_keys ga)) own) = Some s"
    "sl_epoch s = ro_epoch st" "sl_key_id s = o_key_id own" "sl_index s = o_index own"
  proof (rule gm_seal_fresh [OF rnd _ room(2) assms(3) _ tr idx, of ga'])
    show "map_of (gm_rooms ga') room = Some st" "identity_ok ?S (gm_keys ga')" using room(1) ids n by simp_all
  qed (use that n in \<open>simp add: n\<close>)
  have "window_take (unat (o_index own)) (window_of (inbound_new (o_chain own))) = Some (1, [])"
    by (simp add: assms(2) window_take_def window_of_def inbound_new_def MAX_SKIPPED_MESSAGE_KEYS_def)
  from seal_open_roundtrip_core [OF S tr inbound_new_tracks [OF own(1)] identity_lengths(3) [OF S ids] _ idx this assms(6),
      of "cw_bytes W n 24" "ro_epoch st" room "gm_username ga"]
  obtain k where "open_room_message ?S s room (gm_username ga) (so_sign_sk_to_pk ?S (km_signing_secret_key (gm_keys ga)))
      (inbound_new (o_chain own)) = (Some t, k)"
    using seal(2) rnd by (auto simp: random_ok_def)
  then have "open_room_message ?S s room (gm_username ga) (km_signing_public_key (gm_keys ga))
      (inbound_new (o_chain own)) = (Some t, k)"
    by (simp add: identity_lengths(6) [OF S ids])
  from gm_open_delivered [OF assms(1) _ seal(4) own(2) this] seal(3) assms(3)
  have "fst (gm_open W room (gm_username ga) (sealed_payload (cw_json W) s) (delivered W ga room st own gb)) = Some (Inr t)"
    by simp
  with envelope_delivered [OF assms(1,4,5)] seal(1) show ?thesis by blast
qed

definition alice_sample :: group_manager where
  "alice_sample = gm_put_room ''general'' (room_state_new\<lparr>ro_epoch := 1, ro_own_epoch := 1,
       ro_own := Some \<lparr>o_chain = replicate 32 7, o_index = 0, o_key_id = ''0a0a0a0a''\<rparr>\<rparr>)
     (set_username ''al'' (group_manager_new
       (cache_key ''bo'' (get_public_key toy_sodium (toy_key_manager 4)) (toy_key_manager 3))))"

definition bob_sample :: group_manager where
  "bob_sample = set_username ''bo'' (group_manager_new (toy_key_manager 4))"

lemma toy_identity: "identity_ok toy_sodium (toy_key_manager n)" "identity_ok toy_sodium (cache_key u k (toy_key_manager n))"
  by (simp_all add: identity_ok_def box_keys_def toy_key_manager_def toy_sodium_def cache_key_def)

lemma sample_names [simp]: "gm_username alice_sample = ''al''" "gm_username bob_sample = ''bo''"
  by (simp_all add: alice_sample_def bob_sample_def set_username_def)

lemma sample_can_deliver:
  "can_deliver toy_world alice_sample bob_sample ''general'' (gm_room ''general'' alice_sample)
     \<lparr>o_chain = replicate 32 7, o_index = 0, o_key_id = ''0a0a0a0a''\<rparr>"
proof -
  have "get_public_key toy_sodium (toy_key_manager 3) \<noteq> []"
    using length_to_b64 [OF toy_sodium_ok, of "replicate 32 3"]
    by (auto simp: get_public_key_def km_base64 [OF toy_sodium_ok] toy_key_manager_def)
  then show ?thesis
    using toy_world_ok jval_api_ok toy_identity
    by (simp add: can_deliver_def alice_sample_def bob_sample_def group_manager_new_def set_username_def gm_room_put
        map_of_gm_put_room cache_key_def get_cached_key_def check_and_pin_status ts_get_def trust_store_new_def
        gm_room_def room_state_new_def peer_chains_def get_public_key_def)
qed

lemma sample_make:
  "\<exists>m g'. make_envelope_for toy_world ''general'' ''bo'' alice_sample = (Some (Some m), g') \<and> fits_server toy_world m"
proof -
  obtain w where w: "wrap_sender_key_envelope jval_api toy_sodium (replicate 24 7) ''general'' ''al'' ''bo'' 1 ''0a0a0a0a''
      (replicate 32 7) (so_box_pk toy_sodium (replicate 32 3)) (replicate 32 3) (replicate 64 3)
      (so_box_pk toy_sodium (replicate 32 4)) = Some (Some w)" "length (we_box_b64 w) \<le> MAX_ROOM_KEY_B64_LENGTH"
    using sample_envelope [of "replicate 24 7" 3] by blast
  have pk: "from_b64 toy_sodium (get_public_key toy_sodium (toy_key_manager 4)) = replicate 32 4"
    by (simp add: get_public_key_def km_base64 [OF toy_sodium_ok] from_to_b64 [OF toy_sodium_ok] toy_key_manager_def)
  have box: "so_box_pk toy_sodium x = x" for x by (simp add: toy_sodium_def)
  have "make_envelope_for toy_world ''general'' ''bo'' alice_sample =
      wrap_for toy_world ''general'' ''bo'' (gm_room ''general'' alice_sample)
        \<lparr>o_chain = replicate 32 7, o_index = 0, o_key_id = ''0a0a0a0a''\<rparr> (replicate 32 4) alice_sample"
    using pk by (simp add: make_envelope_for_def alice_sample_def map_of_gm_put_room gm_room_put set_username_def
        group_manager_new_def get_cached_key_def cache_key_def Let_def)
  moreover have "\<exists>m g'. wrap_for toy_world ''general'' ''bo'' (gm_room ''general'' alice_sample)
        \<lparr>o_chain = replicate 32 7, o_index = 0, o_key_id = ''0a0a0a0a''\<rparr> (replicate 32 4) alice_sample = (Some (Some m), g') \<and>
      m_payload m = room_key_payload jval_api ''bo'' 1 ''0a0a0a0a'' w"
    using w(1) by (simp add: wrap_for_def gm_random_def gm_message_def alice_sample_def gm_room_put set_username_def
        group_manager_new_def cache_key_def toy_key_manager_def box Let_def)
  ultimately show ?thesis using w(2) read_room_key_payload(5) [OF jval_api_ok]
    by (fastforce simp: fits_server_def)
qed

theorem fresh_key_message_readable_witness:
  "\<exists>m ga' gb' payload ga''. make_envelope_for toy_world ''general'' ''bo'' alice_sample = (Some (Some m), ga') \<and>
    process_envelope toy_world m bob_sample = (Some (ENV_OK, ''''), gb') \<and>
    gm_seal toy_world ''general'' ''m1'' ''hello'' ga' = (Inr payload, ga'') \<and>
    fst (gm_open toy_world ''general'' ''al'' payload gb') = Some (Inr ''hello'')"
proof -
  obtain m ga' where m: "make_envelope_for toy_world ''general'' ''bo'' alice_sample = (Some (Some m), ga')"
    "fits_server toy_world m" using sample_make by blast
  have "ro_own_epoch (gm_room ''general'' alice_sample) = ro_epoch (gm_room ''general'' alice_sample)"
    by (simp add: alice_sample_def gm_room_put)
  from fresh_key_message_readable [OF sample_can_deliver _ this, unfolded sample_names, OF _ m, of "''hello''" "''m1''"] m(1)
  show ?thesis by force
qed

lemma chain_at_add: "chain_at S (chain_at S c k) i = chain_at S c (k + i)"
  by (simp add: chain_at_def funpow_add add.commute)

text \<open>
  C38: An envelope made after the sender has already used its chain is accepted, but the
  receiver counts from zero again: the key it derives for a message index is the
  sender's key for that index plus the number of messages sent before the envelope was
  made, so it does not match the index the sender seals with.
\<close>

theorem late_envelope_misaligned:
  assumes "can_deliver W ga gb room st own" and "outbound_tracks (cw_sodium W) c own"
    and "make_envelope_for W room (gm_username gb) ga = (Some (Some m), ga')" and "fits_server W m"
    and "unat (i :: u32) \<le> 200"
  shows "\<exists>gb' cs k. process_envelope W m gb = (Some (ENV_OK, ''''), gb') \<and>
    peer_chains (gm_username ga) (gm_room room gb') =
      cs @ [\<lparr>pc_epoch = ro_own_epoch st, pc_key_id = o_key_id own, pc_chain = k\<rparr>] \<and>
    fst (take_message_key (cw_sodium W) i k) = Some (mkey_at (cw_sodium W) c (unat (o_index own) + unat i))"
proof -
  let ?S = "cw_sodium W" and ?c = "o_chain own"
  have S: "sodium_ok ?S" using assms(1) by (simp add: can_deliver_def random_ok_def)
  have len: "length ?c = 32" by (rule make_envelope_own(1) [OF assms(1,3)])
  have "(201 :: u32) \<le> - 1" by (rule word_order.extremum)
  then have "201 \<le> unat (- 1 :: u32)" unfolding word_le_nat_alt by simp
  with assms(5) have "i \<noteq> - 1" by auto
  moreover have "window_take (unat i) (window_of (inbound_new ?c)) \<noteq> None"
    using assms(5) by (simp add: window_take_def window_of_def inbound_new_def MAX_SKIPPED_MESSAGE_KEYS_def)
  ultimately have key: "fst (take_message_key ?S i (inbound_new ?c)) = Some (mkey_at ?S ?c (unat i))"
    using take_refines [OF S inbound_new_tracks [OF len], of i] by (auto split: option.splits)
  have eq: "mkey_at ?S ?c (unat i) = mkey_at ?S c (unat (o_index own) + unat i)"
    using assms(2) by (simp add: outbound_tracks_def mkey_at_def chain_at_add)
  obtain cs where "map_of (gm_rooms (delivered W ga room st own gb)) room =
      Some ((gm_room room gb)\<lparr>ro_peers := AList.update (gm_username ga) (cs @ [\<lparr>pc_epoch = ro_own_epoch st,
        pc_key_id = o_key_id own, pc_chain = inbound_new ?c\<rparr>]) (ro_peers (gm_room room gb))\<rparr>)"
    by (rule delivered_chain [OF assms(1)])
  then have cs: "peer_chains (gm_username ga) (gm_room room (delivered W ga room st own gb)) =
      cs @ [\<lparr>pc_epoch = ro_own_epoch st, pc_key_id = o_key_id own, pc_chain = inbound_new ?c\<rparr>]"
    by (simp add: peer_chains_def gm_room_rooms update_conv')
  with envelope_delivered [OF assms(1,3,4)] key [unfolded eq] show ?thesis by blast
qed

theorem late_envelope_misaligned_witness:
  "\<exists>m ga' gb' cs k. make_envelope_for toy_world ''general'' ''bo'' alice_sample = (Some (Some m), ga') \<and>
    process_envelope toy_world m bob_sample = (Some (ENV_OK, ''''), gb') \<and>
    peer_chains ''al'' (gm_room ''general'' gb') =
      cs @ [\<lparr>pc_epoch = 1, pc_key_id = ''0a0a0a0a'', pc_chain = k\<rparr>]"
proof -
  obtain m ga' where m: "make_envelope_for toy_world ''general'' ''bo'' alice_sample = (Some (Some m), ga')"
    "fits_server toy_world m" using sample_make by blast
  have e: "ro_own_epoch (gm_room ''general'' alice_sample) = 1" by (simp add: alice_sample_def gm_room_put)
  have "outbound_tracks (cw_sodium toy_world) (replicate 32 7) \<lparr>o_chain = replicate 32 7, o_index = 0, o_key_id = ''0a0a0a0a''\<rparr>"
    by (simp add: outbound_tracks_def)
  from late_envelope_misaligned [OF sample_can_deliver this, unfolded sample_names e, OF m, of 5] m(1)
  show ?thesis by force
qed

theorem envelope_uses_pinned_identity_witness:
  "\<exists>m g' pin. process_envelope toy_world m bob_sample = (Some (ENV_OK, ''''), g') \<and>
    ts_get (m_from m) (gm_trust g') = Some pin"
proof -
  obtain m ga' where m: "make_envelope_for toy_world ''general'' ''bo'' alice_sample = (Some (Some m), ga')"
    "fits_server toy_world m" using sample_make by blast
  have "process_envelope toy_world m bob_sample = (Some (ENV_OK, ''''), delivered toy_world alice_sample ''general''
      (gm_room ''general'' alice_sample) \<lparr>o_chain = replicate 32 7, o_index = 0, o_key_id = ''0a0a0a0a''\<rparr> bob_sample)"
    by (rule envelope_delivered [OF sample_can_deliver, unfolded sample_names, OF m])
  from envelope_uses_pinned_identity [OF this] this show ?thesis by blast
qed

section \<open>Who is sent our key\<close>

definition envelope_to :: "'j client_world \<Rightarrow> string \<Rightarrow> string \<Rightarrow> room_state \<Rightarrow> 'j message \<Rightarrow> string \<Rightarrow> bool" where
  "envelope_to W me room st m r \<longleftrightarrow> m_type m = ROOM_KEY \<and> m_from m = me \<and> m_room m = room \<and>
     (\<exists>own w. ro_own st = Some own \<and>
        m_payload m = room_key_payload (cw_json W) r (ro_own_epoch st) (o_key_id own) w)"

lemma envelope_to_distributed [simp]:
  "envelope_to W me room (st\<lparr>ro_distributed := d\<rparr>) = envelope_to W me room st"
  by (simp add: envelope_to_def fun_eq_iff)

lemma make_envelope_for_to:
  assumes "make_envelope_for W room r g = (Some (Some m), g')" and "map_of (gm_rooms g) room = Some st"
  shows "envelope_to W (gm_username g) room st m r"
proof -
  obtain st' own w where "map_of (gm_rooms g) room = Some st'" "ro_own st' = Some own"
    "m_payload m = room_key_payload (cw_json W) r (ro_own_epoch st') (o_key_id own) w"
    "m_from m = gm_username g" "m_room m = room" "m_type m = ROOM_KEY"
    by (rule make_envelope_for_Some [OF assms(1)])
  with assms(2) show ?thesis by (auto simp: envelope_to_def)
qed

lemma pending_envelopes_spec:
  assumes "pending_envelopes W room ms g = (Some out, g')" and "map_of (gm_rooms g) room = Some st"
  shows "\<exists>rs. list_all2 (envelope_to W (gm_username g) room st) out rs \<and> distinct rs \<and>
    set rs \<subseteq> set ms - {gm_username g} - set (ro_distributed st) \<and>
    map_of (gm_rooms g') room = Some (st\<lparr>ro_distributed := ro_distributed st @ rs\<rparr>)"
  using assms
proof (induction ms arbitrary: g st out)
  case (Cons member ms)
  let ?skip = "member = gm_username g \<or> member \<in> set (ro_distributed st)"
  note run = Cons.prems(1) [simplified, unfolded effect_simps, simplified, unfolded gm_room_rooms [OF Cons.prems(2)]]
  obtain n where n: "snd (make_envelope_for W room member g) = g\<lparr>gm_draws := n\<rparr>"
    using make_envelope_for_frame by blast
  show ?case
  proof (cases ?skip)
    case True
    with run have "pending_envelopes W room ms g = (Some out, g')" by simp
    from Cons.IH [OF this Cons.prems(2)] show ?thesis by auto
  next
    case False
    with run obtain env where env: "make_envelope_for W room member g = (Some env, g\<lparr>gm_draws := n\<rparr>)"
      using n by (cases "make_envelope_for W room member g") (auto split: option.splits)
    show ?thesis
    proof (cases env)
      case None
      with run env False have "pending_envelopes W room ms (g\<lparr>gm_draws := n\<rparr>) = (Some out, g')" by simp
      from Cons.IH [OF this] Cons.prems(2) show ?thesis by auto
    next
      case (Some m)
      let ?st = "st\<lparr>ro_distributed := ro_distributed st @ [member]\<rparr>"
      let ?g = "gm_put_room room ?st (g\<lparr>gm_draws := n\<rparr>)"
      have mark: "mark_distributed room member (g\<lparr>gm_draws := n\<rparr>) = ?g"
        using False Cons.prems(2) by (simp add: mark_distributed_def gm_room_def uset_insert_def Let_def)
      from run env Some False mark obtain out' where out: "pending_envelopes W room ms ?g = (Some out', g')" "out = m # out'"
        by (auto split: prod.splits option.splits)
      from Cons.IH [OF out(1), of ?st] obtain rs where rs:
        "list_all2 (envelope_to W (gm_username g) room st) out' rs" "distinct rs"
        "set rs \<subseteq> set ms - {gm_username g} - set (ro_distributed ?st)"
        "map_of (gm_rooms g') room = Some (?st\<lparr>ro_distributed := ro_distributed ?st @ rs\<rparr>)"
        by (auto simp: map_of_gm_put_room)
      have "envelope_to W (gm_username g) room st m member"
        using make_envelope_for_to [of W room member g m] env Some Cons.prems(2) by simp
      with rs out(2) False show ?thesis by (intro exI [of _ "member # rs"]) auto
    qed
  qed
qed (auto simp: eret_def)

lemma prune_fields [simp]:
  "ro_epoch (prune_peer_chains st) = ro_epoch st" "ro_members (prune_peer_chains st) = ro_members st"
  "ro_own (prune_peer_chains st) = ro_own st" "ro_own_epoch (prune_peer_chains st) = ro_own_epoch st"
  "ro_distributed (prune_peer_chains st) = ro_distributed st"
  by (simp_all add: prune_peer_chains_def)

lemma sync_state_room:
  assumes "sync_state W room epoch members g = (rotated, changed, g1)"
  obtains st where "map_of (gm_rooms g1) room = Some st" and "gm_username g1 = gm_username g"
    and "rotated \<longleftrightarrow> must_rotate epoch (gm_room room g)" and "changed \<longleftrightarrow> ro_members (gm_room room g) \<noteq> members"
    and "ro_epoch st = epoch" and "ro_own_epoch st = epoch" and "ro_members st = members" and "ro_own st \<noteq> None"
    and "rotated \<or> changed \<Longrightarrow> ro_distributed st = []"
    and "rotated \<Longrightarrow> ro_own st = Some (fst (gm_generate W g))"
    and "\<not> rotated \<Longrightarrow> ro_own st = ro_own (gm_room room g)"
proof (cases "must_rotate epoch (gm_room room g)")
  case True
  obtain n where "snd (gm_generate W g) = g\<lparr>gm_draws := n\<rparr>" using gm_generate_frame by blast
  with assms [unfolded sync_state_rotated [OF True]] True that show ?thesis by (auto simp: map_of_gm_put_room)
next
  case False
  then have "ro_own (gm_room room g) \<noteq> None" "ro_own_epoch (gm_room room g) = epoch"
    by (simp_all add: must_rotate_def)
  with assms [unfolded sync_state_kept [OF False]] False that show ?thesis by (auto simp: map_of_gm_put_room)
qed

text \<open>
  C6: A membership update leaves the client with a chain for exactly the announced epoch:
  a new one, at index 0, when the epoch is not the one it had a key for, the old one
  otherwise. It sends that chain at most once to each announced member and never to
  itself, to nobody when neither epoch nor members changed, and it records exactly the
  members it sent it to.
\<close>

theorem sync_room_rotates_and_distributes:
  assumes "sync_room W room epoch members g = (Some out, g')"
  shows "\<exists>st rs. map_of (gm_rooms g') room = Some st \<and>
    ro_epoch st = epoch \<and> ro_own_epoch st = epoch \<and> ro_members st = members \<and>
    ro_own st = (if must_rotate epoch (gm_room room g) then Some (fst (gm_generate W g)) else ro_own (gm_room room g)) \<and>
    list_all2 (envelope_to W (gm_username g) room st) out rs \<and> distinct rs \<and>
    set rs \<subseteq> set members - {gm_username g} \<and>
    (if must_rotate epoch (gm_room room g) \<or> ro_members (gm_room room g) \<noteq> members
     then ro_distributed st = rs else out = [])"
proof -
  obtain rotated changed g1 where s: "sync_state W room epoch members g = (rotated, changed, g1)"
    by (cases "sync_state W room epoch members g")
  obtain st where st: "map_of (gm_rooms g1) room = Some st" "gm_username g1 = gm_username g"
    "rotated \<longleftrightarrow> must_rotate epoch (gm_room room g)" "changed \<longleftrightarrow> ro_members (gm_room room g) \<noteq> members"
    "ro_epoch st = epoch" "ro_own_epoch st = epoch" "ro_members st = members" "ro_own st \<noteq> None"
    "rotated \<or> changed \<Longrightarrow> ro_distributed st = []" "rotated \<Longrightarrow> ro_own st = Some (fst (gm_generate W g))"
    "\<not> rotated \<Longrightarrow> ro_own st = ro_own (gm_room room g)"
    using sync_state_room [OF s] by metis
  have run: "(if \<not> rotated \<and> \<not> changed then (Some [], g1) else pending_envelopes W room members g1) = (Some out, g')"
    using assms by (auto simp: sync_room_def effect_simps s split: if_splits)
  show ?thesis
  proof (cases "rotated \<or> changed")
    case True
    then have "pending_envelopes W room members g1 = (Some out, g')" using run by auto
    from pending_envelopes_spec [OF this st(1)] obtain rs where rs:
      "list_all2 (envelope_to W (gm_username g1) room st) out rs" "distinct rs"
      "set rs \<subseteq> set members - {gm_username g1} - set (ro_distributed st)"
      "map_of (gm_rooms g') room = Some (st\<lparr>ro_distributed := ro_distributed st @ rs\<rparr>)" by blast
    with True st show ?thesis
      by (intro exI [of _ "st\<lparr>ro_distributed := rs\<rparr>"] exI [of _ rs]) auto
  next
    case False
    with run st show ?thesis by (intro exI [of _ st] exI [of _ "[]"]) auto
  qed
qed

theorem sync_room_rotates_and_distributes_witness:
  "\<exists>out g' st. sync_room toy_world ''general'' 2 [''al''] alice_sample = (Some out, g') \<and>
    map_of (gm_rooms g') ''general'' = Some st \<and> ro_own_epoch st = 2 \<and> out = []"
proof -
  have rot: "must_rotate 2 (gm_room ''general'' alice_sample)"
    by (simp add: must_rotate_def alice_sample_def gm_room_put)
  have "gm_username (snd (gm_generate toy_world alice_sample)) = ''al''"
    using gm_generate_frame [of toy_world alice_sample] by auto
  then have "\<exists>g'. sync_room toy_world ''general'' 2 [''al''] alice_sample = (Some [], g')"
    by (simp add: sync_room_def effect_simps sync_state_rotated [OF rot])
  then obtain g' where s: "sync_room toy_world ''general'' 2 [''al''] alice_sample = (Some [], g')" by blast
  from sync_room_rotates_and_distributes [OF s] s show ?thesis by blast
qed

end
