(* ===== verification/Client_Flow.thy ===== *)
theory Client_Flow
  imports Client_App Group_Flow
begin

text \<open>
  What holds of the whole client application whatever the server sends and the user types. The
  locale \<open>gm_network\<close> collects what a property of the group manager must survive to survive every
  message handler of the application, \<open>gm_user\<close> adds what the user's commands do; both are
  interpreted for the invariant of the room state, for the stability of a pin and for the
  agreement of the key cache with the pins.
\<close>

section \<open>Lifting\<close>

lemma keeps_app_gm [keeps_intros]: "keeps P m \<Longrightarrow> keeps (\<lambda>s. P (app_group s)) (app_gm m)"
  by (simp add: keeps_def app_gm_def app_lift_def ih_gm_act_def case_prod_unfold Let_def)

lemma keeps_app_lift: "keeps (\<lambda>i. P (ih_gm i)) m \<Longrightarrow> keeps (\<lambda>s. P (app_group s)) (app_lift m)"
  by (simp add: keeps_def app_lift_def case_prod_unfold Let_def)

lemma keeps_app_frame [keeps_intros]:
  "keeps (\<lambda>s. P (app_group s)) (app_send m)" "keeps (\<lambda>s. P (app_group s)) (app_show m)"
  "keeps (\<lambda>s. P (app_group s)) (app_note W fmt k t)" "keeps (\<lambda>s. P (app_group s)) (app_save W)"
  by (simp_all add: keeps_def app_send_def app_lift_def ih_send_def ih_emit_def emodify_def app_show_def app_note_def
      app_save_def Let_def split: option.split)

lemma keeps_ih_frame [keeps_intros]:
  "keeps (\<lambda>i. P (ih_gm i)) (report_error t)" "keeps (\<lambda>i. P (ih_gm i)) (report_status t)"
  "keeps (\<lambda>i. P (ih_gm i)) (ih_send m)"
  by (simp_all add: keeps_def report_run ih_emit_def)

lemma keeps_case_sum [keeps_intros]:
  "(\<And>a. keeps P (f a)) \<Longrightarrow> (\<And>b. keeps P (g b)) \<Longrightarrow> keeps P (case y of Inl a \<Rightarrow> f a | Inr b \<Rightarrow> g b)"
  by (cases y) auto

lemma keeps_ih_on_gm: "(\<And>g. P g \<Longrightarrow> P (snd (f g))) \<Longrightarrow> keeps (\<lambda>i. P (ih_gm i)) (ih_on_gm f)"
  by (simp add: keeps_def ih_on_gm_run)

section \<open>What the server can cause\<close>

locale gm_network =
  fixes W :: "'j client_world" and P :: "group_manager \<Rightarrow> bool"
  assumes draws: "P g \<Longrightarrow> P (g\<lparr>gm_draws := n\<rparr>)"
    and username: "P g \<Longrightarrow> P (set_username u g)"
    and sync: "keeps P (sync_room W room epoch members)"
    and available: "keeps P (on_key_available W u)"
    and distribute: "keeps P (distribute_new_keys W)"
    and requested: "P g \<Longrightarrow> P (note_key_request_sent room u g)"
    and noted: "P g \<Longrightarrow> P (note_key_available u g)"
    and leave: "P g \<Longrightarrow> P (leave_room room g)"
    and envelope: "keeps P (process_envelope W msg)"
    and opened: "keeps P (gm_open W room sender p)"
    and echo: "P g \<Longrightarrow> P (snd (take_own_message mid g))"
    and check: "P g \<Longrightarrow> P (snd (check_dm_key u x g))"
    and cached: "P g \<Longrightarrow> u \<noteq> [] \<Longrightarrow> x \<noteq> [] \<Longrightarrow> check_dm_key u x g = (status, g') \<Longrightarrow> status \<noteq> CHANGED \<Longrightarrow>
      P (g'\<lparr>gm_keys := cache_key u x (gm_keys g')\<rparr>)"
begin

abbreviation Q :: "'j client_app \<Rightarrow> bool" where
  "Q s \<equiv> P (app_group s)"

lemma keeps_create [keeps_intros]: "keeps Q (app_lift (ih_create W t u r))"
  by (rule keeps_app_lift) (simp add: keeps_def ih_create_run Let_def draws)

lemma keeps_request [keeps_intros]: "keeps Q (send_key_request W user)"
  unfolding send_key_request_def by (intro keeps_intros)

lemma keeps_missing [keeps_intros]: "keeps Q (request_missing_room_keys W)"
  unfolding request_missing_room_keys_def
  by (intro keeps_intros distribute keeps_emodify) (rule requested)

lemma keeps_sync_keys [keeps_intros]: "keeps Q (sync_room_keys W room epoch members)"
  unfolding sync_room_keys_def by (intro keeps_intros sync)

lemma checked_triple:
  assumes "u \<noteq> []" and "x \<noteq> []"
  shows "triple Q (app_gm (elift (check_dm_key u x)))
    (\<lambda>status s. Q s \<and> (status \<noteq> CHANGED \<longrightarrow> P ((app_group s)\<lparr>gm_keys := cache_key u x (gm_keys (app_group s))\<rparr>))) Q"
  using cached [OF _ assms prod.collapse [symmetric]] check [of _ u x]
  by (auto simp: triple_def app_gm_def app_lift_def ih_gm_act_def elift_def case_prod_unfold Let_def)

lemma triple_cache:
  "triple (\<lambda>s. P ((app_group s)\<lparr>gm_keys := cache_key u x (gm_keys (app_group s))\<rparr>))
     (app_gm (emodify (\<lambda>g. g\<lparr>gm_keys := cache_key u x (gm_keys g)\<rparr>))) (\<lambda>_. Q) Q"
  by (simp add: triple_def app_gm_def app_lift_def ih_gm_act_def emodify_def)

lemma keeps_learn_key:
  assumes "u \<noteq> []" and "x \<noteq> []"
  shows "keeps Q (learn_key W fmt u x)"
proof -
  have rest: "keeps Q (eseq (app_gm (emodify (note_key_available u)))
      (ebind (app_gm (on_key_available W u)) (\<lambda>envelopes.
         eseq (eeach app_send envelopes) (ewhen (envelopes \<noteq> []) (app_save W)))))"
    by (intro keeps_intros available keeps_emodify) (rule noted)
  have notice: "keeps Q (app_note W fmt K_ERROR t)" for t by (intro keeps_intros)
  show ?thesis
    unfolding learn_key_def triple_keeps [symmetric]
    by (rule triple_bind [OF checked_triple [OF assms]], rule triple_if, rule keeps_triple [OF notice], simp,
        rule triple_seq [OF triple_pre [OF triple_cache]], simp, rule keeps_triple [OF rest])
qed

lemma keeps_open_dm:
  assumes "from_user \<noteq> []" and "sender_pk \<noteq> []"
  shows "keeps Q (open_dm W msg ct nonce sender_pk from_user)"
  unfolding keeps_def
proof (intro allI impI)
  fix s assume s: "Q s"
  obtain status g where c: "check_dm_key from_user sender_pk (app_group s) = (status, g)" by fastforce
  have g: "P g" using check [OF s, of from_user sender_pk] c by simp
  have k: "status \<noteq> CHANGED \<Longrightarrow> P (g\<lparr>gm_keys := cache_key from_user sender_pk (gm_keys g)\<rparr>)"
    by (rule cached [OF s assms c])
  show "Q (snd (open_dm W msg ct nonce sender_pk from_user s))"
    using g k c by (auto simp: open_dm_def effect_simps app_gm_def app_lift_def ih_gm_act_def app_show_def Let_def
        split: option.split)
qed

lemma keeps_handlers:
  "keeps Q (on_room_key W fmt msg)" "keeps Q (on_room_membership W fmt msg)" "keeps Q (on_encrypted_message W msg)"
  unfolding on_room_key_def on_room_membership_def on_encrypted_message_def Let_def
  by (intro keeps_intros envelope opened keeps_elift echo)+

lemma keeps_key_exchange: "keeps Q (on_key_exchange W fmt msg)"
proof -
  have learn: "keeps Q (ewhen (u \<noteq> [] \<and> x \<noteq> []) (learn_key W fmt u x))" for u x
    by (simp add: ewhen_def keeps_learn_key keeps_eret)
  show ?thesis unfolding on_key_exchange_def Let_def by (intro learn keeps_intros)
qed

lemma keeps_direct_message: "keeps Q (on_direct_message W msg)"
proof -
  have taken: "keeps Q (app_lift (elift (take_sent_dm_plaintext c)))" for c
    by (rule keeps_app_lift, rule keeps_elift) (simp add: take_sent_dm_plaintext_def split: option.split)
  have dm: "keeps Q (if ct \<noteq> [] \<and> n \<noteq> [] \<and> pk \<noteq> [] \<and> u \<noteq> [] then open_dm W msg ct n pk u else app_show msg)"
    for ct n pk u by (simp add: keeps_open_dm keeps_app_frame)
  show ?thesis unfolding on_direct_message_def Let_def by (intro dm taken keeps_intros)
qed

lemma keeps_session_handlers:
  "keeps Q (on_auth_response W msg)" "keeps Q (on_room_event W msg)" "keeps Q (on_presence W msg)"
  unfolding on_auth_response_def on_room_event_def on_presence_def Let_def
  by (intro keeps_intros keeps_app_lift [OF keeps_emodify] keeps_emodify; simp add: username leave)+

lemma keeps_network: "keeps Q (on_network_message W fmt msg)"
  by (simp add: on_network_message_def keeps_handlers keeps_key_exchange keeps_direct_message keeps_session_handlers
      keeps_app_frame split: message_type.split)

end

section \<open>What the user can cause\<close>

text \<open>The command that accepts a changed key.\<close>

definition accepting :: "string list \<Rightarrow> bool" where
  "accepting args \<longleftrightarrow> (case args of user # action # _ \<Rightarrow> map tolower_c action = ''accept'' | _ \<Rightarrow> False)"

definition accepting_line :: "string \<Rightarrow> bool" where
  "accepting_line line \<longleftrightarrow> (case line of
     c # rest \<Rightarrow> c = CHR ''/'' \<and> (case split_ws rest of cmd # args \<Rightarrow> map tolower_c cmd = ''verify'' \<and> accepting args | [] \<Rightarrow> False)
   | [] \<Rightarrow> False)"

locale gm_user = gm_network W P for W :: "'j client_world" and P +
  assumes sealed: "P g \<Longrightarrow> P (snd (gm_seal W room mid t g))"
    and verified: "P g \<Longrightarrow> P (snd (mark_peer_verified u b g))"
begin

lemma keeps_draws [keeps_intros]: "keeps (\<lambda>i. P (ih_gm i)) (ih_draws W)"
  by (simp add: keeps_def ih_draws_run Let_def draws)

lemma keeps_ih_create [keeps_intros]: "keeps (\<lambda>i. P (ih_gm i)) (ih_create W t u r)"
  by (simp add: keeps_def ih_create_run Let_def draws)

lemma keeps_send_command [keeps_intros]: "keeps (\<lambda>i. P (ih_gm i)) (send_command W cmd p)"
  unfolding send_command_def by (intro keeps_intros)

lemma keeps_room_message: "keeps (\<lambda>i. P (ih_gm i)) (send_room_message W line)"
  unfolding send_room_message_def by (intro keeps_intros keeps_ih_on_gm) (rule sealed)

lemma keeps_send_dm: "keeps (\<lambda>i. P (ih_gm i)) (send_dm W recipient message)"
  unfolding send_dm_def Let_def
  by (intro keeps_intros keeps_ih_on_gm keeps_emodify)
    (simp_all add: gm_random_def draws remember_sent_dm_def Let_def)

lemma keeps_roomkeys: "keeps (\<lambda>i. P (ih_gm i)) (handle_roomkeys W args)"
  unfolding handle_roomkeys_def by (intro keeps_intros)

lemma keeps_verify:
  assumes "\<not> accepting args \<or> (\<forall>u g. P g \<longrightarrow> P (snd (accept_peer_key u g)))"
  shows "keeps (\<lambda>i. P (ih_gm i)) (handle_verify W args)"
proof (cases args)
  case Nil
  then show ?thesis unfolding handle_verify_def Let_def by (auto intro!: keeps_intros)
next
  case (Cons user opts)
  have acc: "keeps (\<lambda>i. P (ih_gm i)) (if (case opts of a # _ \<Rightarrow> map tolower_c a | [] \<Rightarrow> []) = ''accept''
      then ebind (ih_on_gm (accept_peer_key user)) f else n)"
    if "\<And>b. keeps (\<lambda>i. P (ih_gm i)) (f b)" "keeps (\<lambda>i. P (ih_gm i)) n" for f n
    using assms that by (auto simp: Cons accepting_def split: list.splits intro!: keeps_intros keeps_ih_on_gm)
  show ?thesis
    unfolding handle_verify_def Let_def Cons list.case
    by (intro keeps_if [of _ "ebind (ih_on_gm (mark_peer_verified user True)) _"] acc keeps_intros keeps_ih_on_gm)
      (rule verified)
qed

lemma keeps_command:
  assumes "cmd = ''verify'' \<Longrightarrow> \<not> accepting args \<or> (\<forall>u g. P g \<longrightarrow> P (snd (accept_peer_key u g)))"
  shows "keeps (\<lambda>i. P (ih_gm i)) (client_command W cmd args)"
proof -
  have quit: "keeps (\<lambda>i. P (ih_gm i)) (emodify (ih_emit e))" for e
    by (rule keeps_emodify) (simp add: ih_emit_def)
  have verify: "keeps (\<lambda>i. P (ih_gm i)) (if cmd = ''verify'' then handle_verify W args else n)"
    if "keeps (\<lambda>i. P (ih_gm i)) n" for n
    using assms that by (simp add: keeps_verify)
  show ?thesis
    unfolding client_command_def Let_def
    by (intro verify quit keeps_send_dm keeps_roomkeys keeps_intros)
qed

lemma keeps_line:
  assumes "\<not> accepting_line line \<or> (\<forall>u g. P g \<longrightarrow> P (snd (accept_peer_key u g)))"
  shows "keeps (\<lambda>s. P (app_group s)) (app_lift (process_line W line))"
proof -
  have "keeps (\<lambda>i. P (ih_gm i)) (process_line W line)"
    using assms
    by (auto simp: process_line_def accepting_line_def keeps_eret keeps_room_message split: list.split
        intro!: keeps_command)
  then show ?thesis by (rule keeps_app_lift)
qed

end

section \<open>Runs of the client\<close>

datatype 'j app_event = FromServer "'j message" | UserLine string | RetryTick

definition app_react :: "'j client_world \<Rightarrow> (i64 \<Rightarrow> string) \<Rightarrow> 'j app_event \<Rightarrow> 'j client_app \<Rightarrow> 'j client_app" where
  "app_react W fmt e s = snd ((case e of
     FromServer m \<Rightarrow> on_network_message W fmt m
   | UserLine line \<Rightarrow> app_lift (process_line W line)
   | RetryTick \<Rightarrow> request_missing_room_keys W) s)"

definition app_run :: "'j client_world \<Rightarrow> (i64 \<Rightarrow> string) \<Rightarrow> 'j app_event list \<Rightarrow> 'j client_app \<Rightarrow> 'j client_app" where
  "app_run W fmt es s = fold (app_react W fmt) es s"

fun accepting_event :: "'j app_event \<Rightarrow> bool" where
  "accepting_event (UserLine line) = accepting_line line"
| "accepting_event _ = False"

context gm_user begin

lemma react_keeps:
  assumes "\<not> accepting_event e \<or> (\<forall>u g. P g \<longrightarrow> P (snd (accept_peer_key u g)))" and "P (app_group s)"
  shows "P (app_group (app_react W fmt e s))"
  using assms keepsD [OF keeps_network, of s fmt] keepsD [OF keeps_line, of _ s] keepsD [OF keeps_missing, of s]
  by (cases e) (auto simp: app_react_def)

lemma run_keeps:
  assumes "(\<forall>e \<in> set es. \<not> accepting_event e) \<or> (\<forall>u g. P g \<longrightarrow> P (snd (accept_peer_key u g)))" and "P (app_group s)"
  shows "P (app_group (app_run W fmt es s))"
  using assms
proof (induction es arbitrary: s)
  case (Cons e es)
  have "P (app_group (app_react W fmt e s))" by (rule react_keeps) (use Cons.prems in auto)
  with Cons show ?case by (auto simp: app_run_def)
qed (simp add: app_run_def)

end

section \<open>The room state\<close>

definition room_inv :: "'j client_world \<Rightarrow> group_manager \<Rightarrow> bool" where
  "room_inv W g \<longleftrightarrow> (random_ok W \<longrightarrow> gm_inv g)"

lemma keeps_room_inv: "(random_ok W \<Longrightarrow> keeps gm_inv m) \<Longrightarrow> keeps (room_inv W) m"
  by (auto simp: keeps_def room_inv_def)

lemma gm_inv_accept: "gm_inv g \<Longrightarrow> gm_inv (snd (accept_peer_key u g))"
  by (auto simp: accept_peer_key_def Let_def case_prod_unfold split: option.split)

interpretation ri: gm_user W "room_inv W" for W :: "'j client_world"
proof unfold_locales
  show "keeps (room_inv W) (sync_room W room epoch members)" for room epoch members
    by (rule keeps_room_inv) (rule keeps_sync_room)
  show "keeps (room_inv W) (on_key_available W u)" for u
    unfolding on_key_available_def by (intro keeps_room_inv keeps_intros)
  show "keeps (room_inv W) (distribute_new_keys W)"
    unfolding distribute_new_keys_def by (intro keeps_room_inv keeps_intros)
  show "keeps (room_inv W) (process_envelope W msg)" for msg
    by (intro keeps_room_inv keeps_process_envelope)
  show "keeps (room_inv W) (gm_open W room sender p)" for room sender p
    by (intro keeps_room_inv keepsI gm_open_inv)
  show "room_inv W g \<Longrightarrow> room_inv W (snd (check_dm_key u x g))" for g u x
    by (simp add: room_inv_def check_dm_key_def Let_def case_prod_unfold)
  show "room_inv W (g'\<lparr>gm_keys := cache_key u x (gm_keys g')\<rparr>)"
    if "room_inv W g" "check_dm_key u x g = (status, g')" for g u x status g'
    using that by (auto simp: room_inv_def check_dm_key_def Let_def case_prod_unfold split: if_splits)
  show "room_inv W g \<Longrightarrow> room_inv W (snd (mark_peer_verified u b g))" for g u b
    by (simp add: room_inv_def mark_peer_verified_def Let_def case_prod_unfold)
qed (simp_all add: room_inv_def set_username_def note_key_request_sent_def note_key_available_def leave_room_inv
    gm_seal_inv take_own_message_inv)

section \<open>Pins and cached keys\<close>

text \<open>The key a peer's messages are encrypted with is the pinned one.\<close>

definition cache_pinned :: "group_manager \<Rightarrow> bool" where
  "cache_pinned g \<longleftrightarrow> (\<forall>u k. km_cache (gm_keys g) u = Some k \<longrightarrow>
     (\<exists>t. ts_get u (gm_trust g) = Some t \<and> ti_x25519 t = k))"

definition pin_kept :: "string \<Rightarrow> trusted_identity \<Rightarrow> group_manager \<Rightarrow> bool" where
  "pin_kept u t g \<longleftrightarrow> (\<exists>t'. ts_get u (gm_trust g) = Some t' \<and> pin_extends t t')"

definition pins_inv :: "string \<Rightarrow> trusted_identity option \<Rightarrow> group_manager \<Rightarrow> bool" where
  "pins_inv u t g \<longleftrightarrow> cache_pinned g \<and> (case t of None \<Rightarrow> True | Some t \<Rightarrow> pin_kept u t g)"

lemma keeps_if_guard: "(b \<Longrightarrow> keeps P m) \<Longrightarrow> (\<not> b \<Longrightarrow> keeps P n) \<Longrightarrow> keeps P (if b then m else n)"
  by simp

definition same_keys :: "group_manager \<Rightarrow> group_manager \<Rightarrow> bool" where
  "same_keys g0 g \<longleftrightarrow> gm_keys g = gm_keys g0 \<and> gm_trust g = gm_trust g0"

lemma keeps_same_keys:
  "keeps (same_keys g0) (make_envelope_for W room member)" "keeps (same_keys g0) (emodify (mark_distributed room member))"
proof -
  have "same_keys g0 (snd (make_envelope_for W room member g)) = same_keys g0 g" for g
    using make_envelope_for_frame [of W room member g] by (auto simp: same_keys_def)
  then show "keeps (same_keys g0) (make_envelope_for W room member)" by (simp add: keeps_def)
qed (simp add: keeps_def emodify_def mark_distributed_def Let_def same_keys_def)

lemma same_keys_pending: "keeps (same_keys g0) (pending_envelopes W room ms)"
  by (induction ms) (auto intro!: keeps_intros keeps_same_keys)

lemma same_keys_distribute: "keeps (same_keys g0) (distribute_rooms W rooms)"
  by (induction rooms) (auto intro!: keeps_intros same_keys_pending)

lemma same_keys_available: "keeps (same_keys g0) (envelopes_for_user W u rooms)"
  by (induction rooms) (auto intro!: keeps_intros keeps_same_keys)

lemma same_keys_sync: "keeps (same_keys g0) (sync_room W room epoch members)"
  unfolding sync_room_def
  by (intro keeps_intros keeps_elift same_keys_pending)
    (auto simp: same_keys_def sync_state_def gm_generate_def gm_random_def Let_def case_prod_unfold split: if_splits)

lemma same_keys_open: "keeps (same_keys g0) (gm_open W room sender p)"
proof -
  have "keeps (same_keys g0) (open_with_chain W room sender epoch key_id index p st cs)" for epoch key_id index st cs
    by (auto simp: keeps_def open_with_chain_def Let_def case_prod_unfold same_keys_def split: option.split)
  then show ?thesis unfolding gm_open_def Let_def by (intro keeps_intros)
qed

lemma same_keys_seal: "same_keys g0 g \<Longrightarrow> same_keys g0 (snd (gm_seal W room mid t g))"
  by (auto simp: gm_seal_def gm_random_def Let_def case_prod_unfold remember_echo_def same_keys_def split: option.split)

lemma keeps_same:
  assumes "\<And>g0. keeps (same_keys g0) m" and "\<And>g g'. gm_keys g' = gm_keys g \<Longrightarrow> gm_trust g' = gm_trust g \<Longrightarrow> P g' = P g"
  shows "keeps P m"
  using assms(1) by (auto simp: keeps_def same_keys_def) (metis assms(2))

lemma pins_inv_cong: "gm_keys g' = gm_keys g \<Longrightarrow> gm_trust g' = gm_trust g \<Longrightarrow> pins_inv u t g' = pins_inv u t g"
  by (simp add: pins_inv_def cache_pinned_def pin_kept_def split: option.split)

lemma pins_inv_same: "pins_inv u t g \<Longrightarrow> same_keys g g' \<Longrightarrow> pins_inv u t g'"
  unfolding same_keys_def using pins_inv_cong by blast

lemma check_extends:
  "ts_get u ts = Some t \<Longrightarrow> \<exists>t'. ts_get u (snd (check_and_pin v x e ts)) = Some t' \<and> pin_extends t t'"
  using apply_trust_op_pin [of u ts t "Check v x e"] by simp

lemma check_pins:
  "v \<noteq> [] \<Longrightarrow> x \<noteq> [] \<Longrightarrow> fst (check_and_pin v x e ts) \<noteq> CHANGED \<Longrightarrow>
   \<exists>t. ts_get v (snd (check_and_pin v x e ts)) = Some t \<and> ti_x25519 t = x"
  by (auto simp: check_and_pin_def ts_get_put ts_get_def [symmetric] split: option.splits if_splits)

lemma pins_inv_check:
  assumes "pins_inv u t g" and "gm_keys g' = gm_keys g" and "gm_trust g' = snd (check_and_pin v x e (gm_trust g))"
  shows "pins_inv u t g'"
  using assms check_extends [of _ "gm_trust g" _ v x e]
  by (fastforce simp: pins_inv_def cache_pinned_def pin_kept_def pin_extends_def split: option.splits
      intro: pin_extends_trans)

lemma pins_inv_cache:
  assumes "pins_inv u t g" and "ts_get v (gm_trust g) = Some t'" and "ti_x25519 t' = x"
  shows "pins_inv u t (g\<lparr>gm_keys := cache_key v x (gm_keys g)\<rparr>)"
  using assms by (auto simp: pins_inv_def cache_pinned_def pin_kept_def cache_key_def split: option.splits)

lemma pins_inv_accept_envelope:
  assumes "pins_inv u t g" and "sender \<noteq> []" and "ef_sx f \<noteq> []"
  shows "pins_inv u t (snd (accept_envelope W room sender f g))"
proof -
  let ?c = "check_and_pin sender (ef_sx f) (ef_se f) (gm_trust g)"
  let ?g = "g\<lparr>gm_trust := snd ?c\<rparr>"
  have 1: "pins_inv u t ?g" by (rule pins_inv_check [OF assms(1)]) simp_all
  have 2: "pins_inv u t (?g\<lparr>gm_keys := cache_key sender (ef_sx f) (gm_keys ?g)\<rparr>)" if "fst ?c \<noteq> CHANGED"
    using check_pins [OF assms(2,3) that] pins_inv_cache [OF 1, of sender] by auto
  have "pins_inv u t (snd (store_chain room sender f ck ?g))" if "fst ?c \<noteq> CHANGED" for ck
  proof -
    have "gm_trust (snd (store_chain room sender f ck ?g)) = gm_trust ?g"
      "gm_keys (snd (store_chain room sender f ck ?g)) = gm_keys ?g \<or>
       gm_keys (snd (store_chain room sender f ck ?g)) = cache_key sender (ef_sx f) (gm_keys ?g)"
      by (auto simp: store_chain_def Let_def)
    from this(2) show ?thesis
    proof
      assume "gm_keys (snd (store_chain room sender f ck ?g)) = gm_keys ?g"
      from iffD2 [OF pins_inv_cong [OF this] 1] show ?thesis by (simp add: store_chain_def Let_def)
    next
      let ?g2 = "?g\<lparr>gm_keys := cache_key sender (ef_sx f) (gm_keys ?g)\<rparr>"
      assume "gm_keys (snd (store_chain room sender f ck ?g)) = cache_key sender (ef_sx f) (gm_keys ?g)"
      then have "gm_keys (snd (store_chain room sender f ck ?g)) = gm_keys ?g2" by simp
      from iffD2 [OF pins_inv_cong [OF this] 2 [OF that]] show ?thesis by (simp add: store_chain_def Let_def)
    qed
  qed
  moreover have "pins_inv u t (?g\<lparr>gm_changed := ch\<rparr>)" for ch
    using 1 pins_inv_cong [of "?g\<lparr>gm_changed := ch\<rparr>" ?g] by simp
  ultimately show ?thesis
    using 1 by (simp add: accept_envelope_def Let_def case_prod_unfold split: option.split)
qed

interpretation pi: gm_user W "pins_inv u t" for W :: "'j client_world" and u t
proof unfold_locales
  have cong: "gm_keys g' = gm_keys g \<Longrightarrow> gm_trust g' = gm_trust g \<Longrightarrow> pins_inv u t g' = pins_inv u t g" for g g'
    by (rule pins_inv_cong)
  show "keeps (pins_inv u t) (sync_room W room epoch members)" for room epoch members
    by (rule keeps_same [OF same_keys_sync cong])
  show "keeps (pins_inv u t) (on_key_available W v)" for v
    by (rule keeps_same [OF _ cong]) (auto simp: on_key_available_def intro!: keeps_intros same_keys_available)
  show "keeps (pins_inv u t) (distribute_new_keys W)"
    by (rule keeps_same [OF _ cong]) (auto simp: distribute_new_keys_def intro!: keeps_intros same_keys_distribute)
  show "keeps (pins_inv u t) (gm_open W room sender p)" for room sender p
    by (rule keeps_same [OF same_keys_open cong])
  show "pins_inv u t g \<Longrightarrow> pins_inv u t (snd (gm_seal W room mid tx g))" for g room mid tx
    by (erule pins_inv_same, rule same_keys_seal) (simp add: same_keys_def)
  show "keeps (pins_inv u t) (process_envelope W msg)" for msg
    unfolding process_envelope_def Let_def
    by (intro keeps_ebind keeps_eread keeps_eopt keeps_eret keeps_if_guard keeps_elift pins_inv_accept_envelope) simp_all
  show "pins_inv u t g \<Longrightarrow> pins_inv u t (snd (check_dm_key v x g))" for g v x
    by (rule pins_inv_check [of u t g _ v x "''''"])
      (simp_all add: check_dm_key_def Let_def case_prod_unfold)
  show "pins_inv u t (g'\<lparr>gm_keys := cache_key v x (gm_keys g')\<rparr>)"
    if "pins_inv u t g" "v \<noteq> []" "x \<noteq> []" "check_dm_key v x g = (status, g')" "status \<noteq> CHANGED" for g v x status g'
  proof -
    have g': "g' = g\<lparr>gm_trust := snd (check_and_pin v x '''' (gm_trust g))\<rparr>" "fst (check_and_pin v x '''' (gm_trust g)) \<noteq> CHANGED"
      using that(4,5) by (auto simp: check_dm_key_def Let_def case_prod_unfold split: if_splits)
    from check_pins [OF that(2,3) g'(2)] show ?thesis
      using pins_inv_cache [of u t g' v] pins_inv_check [OF that(1), of g' v x "''''"] g'(1) by auto
  qed
  show "pins_inv u t g \<Longrightarrow> pins_inv u t (snd (mark_peer_verified v b g))" for g v b
  proof -
    assume g: "pins_inv u t g"
    have "\<exists>t''. ts_get w (snd (mark_verified v b (gm_trust g))) = Some t'' \<and> pin_extends t' t''"
      if "ts_get w (gm_trust g) = Some t'" for w t'
      using apply_trust_op_pin [OF that, of "Verify v b"] by simp
    with g show ?thesis
      by (fastforce simp: pins_inv_def cache_pinned_def pin_kept_def pin_extends_def mark_peer_verified_def Let_def
          case_prod_unfold split: option.splits intro: pin_extends_trans)
  qed
qed (erule pins_inv_same, simp add: same_keys_def set_username_def note_key_request_sent_def note_key_available_def
    leave_room_def take_own_message_def split: option.split)+

section \<open>Properties\<close>

text \<open>
  C5: Whatever the server sends and the user types, in any order, the client's encryption
  state stays bounded and well formed: each peer has at most six chains per room, no two
  with the same epoch and key id, every chain key has 32 bytes, at most 200 skipped
  message keys are cached per chain and at most 200 own messages are remembered.
\<close>

theorem client_state_bounded:
  assumes "random_ok W"
  shows "let g = app_group (app_run W fmt es (client_app_new (group_manager_new keys))) in
    (\<forall>room st user cs. map_of (gm_rooms g) room = Some st \<longrightarrow> map_of (ro_peers st) user = Some cs \<longrightarrow>
      length cs \<le> 6 \<and> distinct (map chain_id cs) \<and>
      (\<forall>c \<in> set cs. length (i_chain (pc_chain c)) = 32 \<and> length (i_skipped (pc_chain c)) \<le> 200)) \<and>
    card (dom (gm_echo g)) \<le> 200"
proof -
  have "room_inv W (app_group (client_app_new (group_manager_new keys)))"
    by (simp add: room_inv_def gm_inv_def client_app_new_def input_handler_new_def group_manager_new_def)
  then have "room_inv W (app_group (app_run W fmt es (client_app_new (group_manager_new keys))))"
    by (intro ri.run_keeps) (simp_all add: room_inv_def gm_inv_accept)
  then show ?thesis using assms by (simp add: room_inv_def Let_def gm_inv_bounds)
qed

theorem client_state_bounded_witness:
  "card (dom (gm_echo (app_group (app_run toy_world (\<lambda>_. '''') [UserLine ''hello'', UserLine ''/verify bob accept'', RetryTick]
      (client_app_new (group_manager_new key_manager_new)))))) \<le> 200"
  using client_state_bounded [OF toy_world_ok, where fmt = "\<lambda>_. ''''"
      and es = "[UserLine ''hello'', UserLine ''/verify bob accept'', RetryTick]" and keys = key_manager_new]
  by (simp add: Let_def)

text \<open>
  C2: A server cannot substitute keys: from a state in which the keys in use are the pinned
  ones, no sequence of messages from the server and commands of the user, short of the
  user accepting a changed key, moves the pin of a user or makes the client encrypt for that
  user with another key than the pinned one.
\<close>

theorem server_cannot_substitute_keys:
  assumes "cache_pinned (app_group s)" and "ts_get u (gm_trust (app_group s)) = Some t"
    and "\<forall>e \<in> set es. \<not> accepting_event e"
  shows "let g = app_group (app_run W fmt es s) in
    (\<exists>t'. ts_get u (gm_trust g) = Some t' \<and> pin_extends t t') \<and>
    (\<forall>k. get_cached_key u (gm_keys g) = Some k \<longrightarrow> k = ti_x25519 t)"
proof -
  have "pins_inv u (Some t) (app_group s)"
    using assms(1,2) by (simp add: pins_inv_def pin_kept_def)
  then have "pins_inv u (Some t) (app_group (app_run W fmt es s))"
    using assms(3) by (intro pi.run_keeps) auto
  then show ?thesis
    by (fastforce simp: pins_inv_def pin_kept_def cache_pinned_def pin_extends_def get_cached_key_def Let_def)
qed

definition evil_key :: "jval message" where
  "evil_key = \<lparr>m_type = KEY_EXCHANGE, m_id = ''1'', m_timestamp = 0, m_from = ''server'', m_room = '''',
     m_payload = JObj [(''action'', JStr ''key_response''), (''found'', JBool True), (''username'', JStr ''bo''),
       (''public_key'', JStr ''EVIL'')]\<rparr>"

definition pinned_sample :: "jval client_app" where
  "pinned_sample = client_app_new ((group_manager_new key_manager_new)
     \<lparr>gm_trust := ts_put ''bo'' \<lparr>ti_x25519 = ''GOOD'', ti_ed25519 = '''', ti_verified = True\<rparr> trust_store_new\<rparr>)"

theorem server_cannot_substitute_keys_witness:
  "get_cached_key ''bo'' (gm_keys (app_group (app_run toy_world (\<lambda>_. '''') [FromServer evil_key, UserLine ''/dm bo hi'']
     pinned_sample))) \<noteq> Some ''EVIL''"
proof -
  have "cache_pinned (app_group pinned_sample)"
    "ts_get ''bo'' (gm_trust (app_group pinned_sample)) = Some \<lparr>ti_x25519 = ''GOOD'', ti_ed25519 = '''', ti_verified = True\<rparr>"
    by (simp_all add: pinned_sample_def client_app_new_def input_handler_new_def group_manager_new_def cache_pinned_def
        key_manager_new_def ts_get_put)
  moreover have "\<not> accepting_line ''/dm bo hi''"
    by (simp add: accepting_line_def split_ws.simps isspace_c_def tolower_c_def isupper_c_def)
  then have "\<forall>e \<in> set [FromServer evil_key, UserLine ''/dm bo hi'']. \<not> accepting_event e" by simp
  ultimately show ?thesis
    using server_cannot_substitute_keys [of pinned_sample "''bo''" _ "[FromServer evil_key, UserLine ''/dm bo hi'']"
        toy_world "\<lambda>_. ''''"] by (fastforce simp: Let_def)
qed

text \<open>
  Accepting a changed key moves the pin and nothing else: the key that was cached for the peer
  stays in use for direct messages and envelopes, so they go on being encrypted for the old
  key until the server is asked again.
\<close>

theorem accepted_key_not_in_use:
  assumes "accept_peer_key u g = (True, g')" and "gm_changed g u = Some (x, e)"
    and "get_cached_key u (gm_keys g) = Some k" and "k \<noteq> x"
  shows "map_option ti_x25519 (ts_get u (gm_trust g')) = Some x \<and> get_cached_key u (gm_keys g') = Some k \<and>
    \<not> cache_pinned g'"
  using assms
  by (auto simp: accept_peer_key_def accept_new_key_def Let_def ts_get_put get_cached_key_def cache_pinned_def
      split: if_splits)

theorem accepted_key_not_in_use_witness:
  "let g = (group_manager_new (cache_key ''bo'' ''OLD'' key_manager_new))\<lparr>gm_changed := [''bo'' \<mapsto> (''NEW'', '''')]\<rparr>;
       g' = snd (accept_peer_key ''bo'' g)
   in map_option ti_x25519 (ts_get ''bo'' (gm_trust g')) = Some ''NEW'' \<and> get_cached_key ''bo'' (gm_keys g') = Some ''OLD''"
proof -
  let ?g = "(group_manager_new (cache_key ''bo'' ''OLD'' key_manager_new))\<lparr>gm_changed := [''bo'' \<mapsto> (''NEW'', '''')]\<rparr>"
  have "accept_peer_key ''bo'' ?g = (True, snd (accept_peer_key ''bo'' ?g))"
    by (simp add: accept_peer_key_def accept_new_key_def Let_def)
  moreover have "gm_changed ?g ''bo'' = Some (''NEW'', '''')" "get_cached_key ''bo'' (gm_keys ?g) = Some ''OLD''"
    by (simp_all add: group_manager_new_def cache_key_def get_cached_key_def)
  ultimately show ?thesis using accepted_key_not_in_use [of "''bo''" ?g] by (simp add: Let_def)
qed

end
