(* ===== verification/Postgres_Storage.thy ===== *)
theory Postgres_Storage
  imports Sqlite_Storage "HOL-Library.Sorting_Algorithms"
begin

text \<open>
  \<^verbatim>\<open>server/storage/postgres_storage.{hpp,cpp}\<close>. The tables are those of the SQLite backend;
  each method opens a connection, which may throw, and executes one statement or two. The
  database server is a parameter: it decides whether the n-th connection or statement
  succeeds, and a statement may also be executed and its reply be lost, which libpq
  reports as a failure. Every statement is one transaction. Sequence values are drawn
  outside of transactions, so ids may have gaps; the collation of the database orders
  names; the rows of \<^verbatim>\<open>RETURNING\<close> come in an order the server chooses. A 64-bit number is
  sent as decimal text, which the column type \<^verbatim>\<open>BIGINT\<close> refuses above the largest signed
  value, and a text is refused when it is not valid in the encoding of the database.
\<close>

datatype pg_reply = Executed | Refused | ReplyLost

record pg_engine =
  pg_enabled :: bool
  pg_connect_ok :: "nat \<Rightarrow> bool"
  pg_replies :: "nat \<Rightarrow> pg_reply"
  pg_gap :: "nat \<Rightarrow> string \<Rightarrow> nat"
  pg_text_ok :: "string \<Rightarrow> bool"
  pg_collation :: "string comparator"
  pg_returned :: "nat \<Rightarrow> envelope_row list \<Rightarrow> envelope_row list"

section \<open>Connections and statements\<close>

definition postgres_storage_new :: "pg_engine \<Rightarrow> string \<Rightarrow> string option" where
  "postgres_storage_new E connection_string =
     (if connection_string = [] then None
      else if \<not> pg_enabled E then None
      else Some connection_string)"

definition connect_or_throw :: "pg_engine \<Rightarrow> (sqlite_db, unit) act" where
  "connect_or_throw E = (\<lambda>db.
     if \<not> pg_enabled E then (None, db)
     else (if pg_connect_ok E (db_ticks db) then Some () else None, db\<lparr>db_ticks := Suc (db_ticks db)\<rparr>))"

definition seq_skip :: "nat \<Rightarrow> i64 \<Rightarrow> i64" where
  "seq_skip k seq = (if sint seq + int k \<le> sint sql_max_int then seq + of_nat k else sql_max_int)"

definition pg_gaps :: "pg_engine \<Rightarrow> nat \<Rightarrow> sqlite_db \<Rightarrow> sqlite_db" where
  "pg_gaps E t db = db\<lparr>
     db_users_seq := seq_skip (pg_gap E t ''users'') (db_users_seq db),
     db_rooms_seq := seq_skip (pg_gap E t ''rooms'') (db_rooms_seq db),
     db_messages_seq := seq_skip (pg_gap E t ''messages'') (db_messages_seq db),
     db_envelopes_seq := seq_skip (pg_gap E t ''room_key_envelopes'') (db_envelopes_seq db)\<rparr>"

text \<open>
  \<^verbatim>\<open>PQexecParams\<close> with its text and number parameters and the tables the statement names.
  The function is the effect of the statement, \<open>None\<close> when a constraint or the range of a
  column is violated.
\<close>

definition pg_exec :: "pg_engine \<Rightarrow> string list \<Rightarrow> u64 list \<Rightarrow> string list \<Rightarrow>
    (sqlite_db \<Rightarrow> ('a \<times> sqlite_db) option) \<Rightarrow> sqlite_db \<Rightarrow> 'a option \<times> sqlite_db" where
  "pg_exec E texts numbers objs f db =
     (let t = db_ticks db; db = pg_gaps E t (db\<lparr>db_ticks := Suc t\<rparr>)
      in if pg_replies E t = Refused \<or> \<not> list_all (pg_text_ok E) texts \<or>
            \<not> list_all (\<lambda>n. 0 \<le> sint n) numbers \<or> \<not> list_all (\<lambda>x. x \<in> set (db_objects db)) objs
         then (None, db)
         else case f db of
            None \<Rightarrow> (None, db)
          | Some (r, db) \<Rightarrow> (if pg_replies E t = ReplyLost then None else Some r, db))"

text \<open>\<^verbatim>\<open>command_ok\<close>, and the rows of a \<^verbatim>\<open>SELECT\<close>, which changes nothing.\<close>

definition pg_command :: "pg_engine \<Rightarrow> string list \<Rightarrow> u64 list \<Rightarrow> string list \<Rightarrow>
    (sqlite_db \<Rightarrow> sqlite_db option) \<Rightarrow> sqlite_db \<Rightarrow> bool \<times> sqlite_db" where
  "pg_command E texts numbers objs f db =
     (case pg_exec E texts numbers objs (\<lambda>db. map_option (Pair ()) (f db)) db of (r, db) \<Rightarrow> (r \<noteq> None, db))"

definition pg_select :: "pg_engine \<Rightarrow> string list \<Rightarrow> u64 list \<Rightarrow> string list \<Rightarrow>
    (sqlite_db \<Rightarrow> 'r list) \<Rightarrow> sqlite_db \<Rightarrow> 'r list option \<times> sqlite_db" where
  "pg_select E texts numbers objs f = pg_exec E texts numbers objs (\<lambda>db. Some (f db, db))"

text \<open>An \<^verbatim>\<open>UPDATE\<close> of user rows and the number of rows it reports (\<^verbatim>\<open>PQcmdTuples\<close>).\<close>

definition pg_update_users :: "u64 \<Rightarrow> (sqlite_db \<Rightarrow> sqlite_db option) \<Rightarrow> sqlite_db \<Rightarrow> (nat \<times> sqlite_db) option" where
  "pg_update_users user_id f db =
     map_option (Pair (length (filter (\<lambda>x. u_id x = user_id) (db_users db)))) (f db)"

text \<open>\<^verbatim>\<open>parse_uint64_cell(\<dots>).value_or(0)\<close>.\<close>

definition pg_u64_cell :: "i64 \<Rightarrow> u64" where
  "pg_u64_cell v = (if sint v < 0 then 0 else v)"

definition pg_read_user :: "user \<Rightarrow> user" where
  "pg_read_user x = x\<lparr>u_id := pg_u64_cell (u_id x)\<rparr>"

definition pg_read_room :: "room_row \<Rightarrow> room" where
  "pg_read_room r = (room.truncate r)\<lparr>r_id := pg_u64_cell (r_id r)\<rparr>"

definition pg_read_message :: "stored_message \<Rightarrow> stored_message" where
  "pg_read_message m = m\<lparr>smsg_id := pg_u64_cell (smsg_id m), smsg_sender_id := pg_u64_cell (smsg_sender_id m)\<rparr>"

definition pg_read_envelope :: "envelope_row \<Rightarrow> room_key_envelope" where
  "pg_read_envelope r = (room_key_envelope.truncate r)
     \<lparr>e_id := pg_u64_cell (e_id r), e_epoch := pg_u64_cell (e_epoch r)\<rparr>"

definition pg_first :: "('r \<Rightarrow> 'a) \<Rightarrow> 'r list option \<Rightarrow> 'a option" where
  "pg_first f res = (case res of None \<Rightarrow> None | Some [] \<Rightarrow> None | Some (r # _) \<Rightarrow> Some (f r))"

definition pg_rows :: "('r \<Rightarrow> 'a) \<Rightarrow> 'r list option \<Rightarrow> 'a list" where
  "pg_rows f res = (case res of None \<Rightarrow> [] | Some rs \<Rightarrow> map f rs)"

section \<open>Users\<close>

definition pg_create_user :: "pg_engine \<Rightarrow> i64 \<Rightarrow> string \<Rightarrow> string \<Rightarrow> (sqlite_db, bool) act" where
  "pg_create_user E now username password_hash =
     eseq (connect_or_throw E) (elift (pg_command E [c_str username, c_str password_hash] [] [''users'']
       (sql_insert_user (c_str username) (c_str password_hash) now)))"

definition pg_get_user :: "pg_engine \<Rightarrow> u64 \<Rightarrow> (sqlite_db, user option) act" where
  "pg_get_user E i =
     eseq (connect_or_throw E) (elift (\<lambda>db.
       case pg_select E [] [i] [''users''] (\<lambda>db. filter (\<lambda>x. u_id x = i) (db_users db)) db of
         (res, db) \<Rightarrow> (pg_first pg_read_user res, db)))"

definition pg_get_user_by_username :: "pg_engine \<Rightarrow> string \<Rightarrow> (sqlite_db, user option) act" where
  "pg_get_user_by_username E username =
     eseq (connect_or_throw E) (elift (\<lambda>db.
       case pg_select E [c_str username] [] [''users'']
           (\<lambda>db. filter (\<lambda>x. u_username x = c_str username) (db_users db)) db of
         (res, db) \<Rightarrow> (pg_first pg_read_user res, db)))"

text \<open>The three updates report success only when a row was matched.\<close>

definition pg_updated :: "nat option \<times> sqlite_db \<Rightarrow> bool \<times> sqlite_db" where
  "pg_updated res = (case res of (None, db) \<Rightarrow> (False, db) | (Some n, db) \<Rightarrow> (n \<noteq> 0, db))"

definition pg_update_last_login :: "pg_engine \<Rightarrow> i64 \<Rightarrow> u64 \<Rightarrow> (sqlite_db, bool) act" where
  "pg_update_last_login E now user_id =
     eseq (connect_or_throw E) (elift (\<lambda>db. pg_updated (pg_exec E [] [user_id] [''users'']
       (pg_update_users user_id (\<lambda>db. Some (db\<lparr>db_users :=
          sql_update_where (\<lambda>x. u_id x = user_id) (\<lambda>x. x\<lparr>u_last_login := now\<rparr>) (db_users db)\<rparr>))) db)))"

definition pg_update_password :: "pg_engine \<Rightarrow> u64 \<Rightarrow> string \<Rightarrow> (sqlite_db, bool) act" where
  "pg_update_password E user_id new_hash =
     eseq (connect_or_throw E) (elift (\<lambda>db. pg_updated (pg_exec E [c_str new_hash] [user_id] [''users'']
       (pg_update_users user_id (\<lambda>db. Some (db\<lparr>db_users :=
          sql_update_where (\<lambda>x. u_id x = user_id) (\<lambda>x. x\<lparr>u_password_hash := c_str new_hash\<rparr>) (db_users db)\<rparr>))) db)))"

definition pg_rename_user :: "pg_engine \<Rightarrow> u64 \<Rightarrow> string \<Rightarrow> (sqlite_db, bool) act" where
  "pg_rename_user E user_id new_username =
     eseq (connect_or_throw E) (elift (\<lambda>db. pg_updated (pg_exec E [c_str new_username] [user_id] [''users'']
       (pg_update_users user_id (sql_rename_user user_id (c_str new_username))) db)))"

section \<open>Rooms\<close>

text \<open>The id is drawn before the conflict is found, so an exhausted sequence fails in either case.\<close>

definition sql_insert_room_do_nothing :: "string \<Rightarrow> string \<Rightarrow> i64 \<Rightarrow> sqlite_db \<Rightarrow> sqlite_db option" where
  "sql_insert_room_do_nothing name description now db =
     (if sql_next_id (db_rooms_seq db) = None then None
      else sql_insert_or_ignore_room name description now db)"

definition pg_create_room :: "pg_engine \<Rightarrow> i64 \<Rightarrow> string \<Rightarrow> string \<Rightarrow> (sqlite_db, bool) act" where
  "pg_create_room E now name description =
     eseq (connect_or_throw E) (elift (pg_command E [c_str name, c_str description] [] [''rooms'']
       (sql_insert_room_do_nothing (c_str name) (c_str description) now)))"

definition pg_get_room :: "pg_engine \<Rightarrow> string \<Rightarrow> (sqlite_db, room option) act" where
  "pg_get_room E name =
     eseq (connect_or_throw E) (elift (\<lambda>db.
       case pg_select E [c_str name] [] [''rooms''] (\<lambda>db. filter (\<lambda>r. r_name r = c_str name) (db_rooms db)) db of
         (res, db) \<Rightarrow> (pg_first pg_read_room res, db)))"

definition pg_list_rooms :: "pg_engine \<Rightarrow> (sqlite_db, room list) act" where
  "pg_list_rooms E =
     eseq (connect_or_throw E) (elift (\<lambda>db.
       case pg_select E [] [] [''rooms'']
           (\<lambda>db. Sorting_Algorithms.sort (key r_name (pg_collation E)) (filter (\<lambda>r. \<not> r_is_private r) (db_rooms db))) db of
         (res, db) \<Rightarrow> (pg_rows pg_read_room res, db)))"

definition pg_room_epoch :: "pg_engine \<Rightarrow> string \<Rightarrow> (sqlite_db, u64) act" where
  "pg_room_epoch E room =
     eseq (connect_or_throw E) (elift (\<lambda>db.
       case pg_select E [c_str room] [] [''rooms'', ''rooms.epoch'']
           (\<lambda>db. map rr_epoch (filter (\<lambda>r. r_name r = c_str room) (db_rooms db))) db of
         (res, db) \<Rightarrow> (case pg_first pg_u64_cell res of None \<Rightarrow> 0 | Some e \<Rightarrow> e, db)))"

text \<open>\<^verbatim>\<open>epoch + 1\<close> beyond the largest \<^verbatim>\<open>BIGINT\<close> is an error of the statement.\<close>

definition sql_bump_returning :: "string \<Rightarrow> sqlite_db \<Rightarrow> (i64 list \<times> sqlite_db) option" where
  "sql_bump_returning room db =
     (if list_ex (\<lambda>r. r_name r = room \<and> rr_epoch r = sql_max_int) (db_rooms db) then None
      else let rooms = sql_update_where (\<lambda>r. r_name r = room) (\<lambda>r. r\<lparr>rr_epoch := rr_epoch r + 1\<rparr>) (db_rooms db)
           in Some (map rr_epoch (filter (\<lambda>r. r_name r = room) rooms), db\<lparr>db_rooms := rooms\<rparr>))"

definition pg_bump_room_epoch :: "pg_engine \<Rightarrow> string \<Rightarrow> (sqlite_db, u64) act" where
  "pg_bump_room_epoch E room =
     eseq (connect_or_throw E) (elift (\<lambda>db.
       case pg_exec E [c_str room] [] [''rooms'', ''rooms.epoch''] (sql_bump_returning (c_str room)) db of
         (res, db) \<Rightarrow> (case pg_first pg_u64_cell res of None \<Rightarrow> 0 | Some e \<Rightarrow> e, db)))"

section \<open>Messages\<close>

definition pg_store_message :: "pg_engine \<Rightarrow> stored_message \<Rightarrow> (sqlite_db, bool) act" where
  "pg_store_message E m =
     eseq (connect_or_throw E) (elift (pg_command E
       [c_str (smsg_message_id m), c_str (smsg_room m), c_str (smsg_content m)] [smsg_sender_id m] [''messages'']
       (sql_insert_message
         (m\<lparr>smsg_message_id := c_str (smsg_message_id m), smsg_room := c_str (smsg_room m),
            smsg_content := c_str (smsg_content m)\<rparr>))))"

definition pg_get_room_messages :: "pg_engine \<Rightarrow> string \<Rightarrow> u64 \<Rightarrow> u64 \<Rightarrow> (sqlite_db, stored_message list) act" where
  "pg_get_room_messages E room limit before_id =
     eseq (connect_or_throw E) (elift (\<lambda>db.
       case (if before_id > 0
             then pg_select E [c_str room] [before_id, limit] [''messages''] (\<lambda>db.
               take (unat limit) (rev (sql_order_by_id smsg_id
                 (filter (\<lambda>m. smsg_room m = c_str room \<and> sint (smsg_id m) < sint before_id) (db_messages db))))) db
             else pg_select E [c_str room] [limit] [''messages''] (\<lambda>db.
               take (unat limit) (rev (sql_order_by_id smsg_id
                 (filter (\<lambda>m. smsg_room m = c_str room) (db_messages db))))) db) of
         (res, db) \<Rightarrow> (rev (pg_rows pg_read_message res), db)))"

section \<open>Public keys\<close>

definition sql_upsert_key :: "u64 \<Rightarrow> string \<Rightarrow> i64 \<Rightarrow> sqlite_db \<Rightarrow> sqlite_db option" where
  "sql_upsert_key user_id public_key now db =
     (if \<not> has_user_id user_id db then None
      else Some (db\<lparr>db_keys :=
        (if list_ex (\<lambda>k. k_user_id k = user_id) (db_keys db)
         then sql_update_where (\<lambda>k. k_user_id k = user_id)
                (\<lambda>k. k\<lparr>k_public_key := public_key, k_updated_at := now\<rparr>) (db_keys db)
         else db_keys db @ [\<lparr>k_user_id = user_id, k_public_key = public_key, k_created_at = now, k_updated_at = now\<rparr>])\<rparr>))"

definition pg_store_public_key :: "pg_engine \<Rightarrow> i64 \<Rightarrow> u64 \<Rightarrow> string \<Rightarrow> (sqlite_db, bool) act" where
  "pg_store_public_key E now user_id public_key =
     eseq (connect_or_throw E) (elift (pg_command E [c_str public_key] [user_id] [''user_keys'']
       (sql_upsert_key user_id (c_str public_key) now)))"

definition pg_get_public_key :: "pg_engine \<Rightarrow> u64 \<Rightarrow> (sqlite_db, string option) act" where
  "pg_get_public_key E user_id =
     eseq (connect_or_throw E) (elift (\<lambda>db.
       case pg_select E [] [user_id] [''user_keys''] (\<lambda>db. filter (\<lambda>k. k_user_id k = user_id) (db_keys db)) db of
         (res, db) \<Rightarrow> (pg_first k_public_key res, db)))"

definition pg_get_public_key_by_username :: "pg_engine \<Rightarrow> string \<Rightarrow> (sqlite_db, string option) act" where
  "pg_get_public_key_by_username E username =
     eseq (connect_or_throw E) (elift (\<lambda>db.
       case pg_select E [c_str username] [] [''user_keys'', ''users''] (\<lambda>db.
           filter (\<lambda>k. list_ex (\<lambda>x. u_id x = k_user_id k \<and> u_username x = c_str username) (db_users db))
             (db_keys db)) db of
         (res, db) \<Rightarrow> (pg_first k_public_key res, db)))"

section \<open>Queued room key envelopes\<close>

definition pg_store_room_key_envelope ::
  "pg_engine \<Rightarrow> i64 \<Rightarrow> u64 \<Rightarrow> string \<Rightarrow> string \<Rightarrow> u64 \<Rightarrow> string \<Rightarrow> (sqlite_db, bool) act" where
  "pg_store_room_key_envelope E now recipient sender room epoch payload =
     eseq (connect_or_throw E) (elift (\<lambda>db.
       let (ok, db) = pg_command E [c_str sender, c_str room, c_str payload] [recipient, epoch] [''room_key_envelopes'']
             (sql_insert_envelope recipient (c_str sender) (c_str room) epoch (c_str payload) now) db
       in if \<not> ok then (False, db)
          else (True, snd (pg_command E [] [recipient] [''room_key_envelopes''] (sql_trim_envelopes recipient) db))))"

definition sql_delete_returning :: "pg_engine \<Rightarrow> u64 \<Rightarrow> sqlite_db \<Rightarrow> (envelope_row list \<times> sqlite_db) option" where
  "sql_delete_returning E recipient db =
     Some (pg_returned E (db_ticks db) (filter (\<lambda>r. er_recipient_id r = recipient) (db_envelopes db)),
       db\<lparr>db_envelopes := filter (\<lambda>r. er_recipient_id r \<noteq> recipient) (db_envelopes db)\<rparr>)"

definition pg_take_room_key_envelopes :: "pg_engine \<Rightarrow> u64 \<Rightarrow> (sqlite_db, room_key_envelope list) act" where
  "pg_take_room_key_envelopes E recipient =
     (if \<not> pg_enabled E then eret []
      else eseq (connect_or_throw E) (elift (\<lambda>db.
        case pg_exec E [] [recipient] [''room_key_envelopes''] (sql_delete_returning E recipient) db of
          (res, db) \<Rightarrow> (pg_rows pg_read_envelope res, db))))"

section \<open>Health and schema\<close>

definition pg_is_healthy :: "pg_engine \<Rightarrow> (sqlite_db, bool) act" where
  "pg_is_healthy E =
     (if \<not> pg_enabled E then eret False
      else ecatch (eseq (connect_or_throw E) (elift (\<lambda>db.
          case pg_select E [] [] [] (\<lambda>_. [()]) db of
            (res, db) \<Rightarrow> (case res of None \<Rightarrow> False | Some rows \<Rightarrow> length rows = 1, db))))
        (eret False))"

text \<open>The schema is one multi-statement string, which the server runs as one transaction.\<close>

definition pg_schema_objects :: "string list" where
  "pg_schema_objects = [''users'', ''rooms'', ''messages'', ''idx_messages_room'', ''idx_users_username'',
     ''user_keys'', ''rooms.epoch'', ''room_key_envelopes'', ''idx_rke_recipient'']"

definition pg_run_or_throw :: "(sqlite_db \<Rightarrow> bool \<times> sqlite_db) \<Rightarrow> (sqlite_db, unit) act" where
  "pg_run_or_throw m = (\<lambda>db. case m db of (ok, db) \<Rightarrow> (if ok then Some () else None, db))"

definition pg_init_schema :: "pg_engine \<Rightarrow> i64 \<Rightarrow> (sqlite_db, unit) act" where
  "pg_init_schema E now =
     eseq (connect_or_throw E)
     (eseq (pg_run_or_throw (pg_command E [] [] []
         (\<lambda>db. Some (db\<lparr>db_objects := foldl (\<lambda>os n. uset_insert n os) (db_objects db) pg_schema_objects\<rparr>))))
       (pg_run_or_throw (pg_command E [''general''] [] [''rooms'']
         (sql_insert_room_do_nothing ''general'' ''General discussion'' now))))"

section \<open>Well-formedness\<close>

lemma sint_seq_skip:
  assumes "0 \<le> sint seq"
  shows "sint seq \<le> sint (seq_skip k seq)"
proof (cases "sint seq + int k \<le> sint sql_max_int")
  case True
  then have "int k < 2 ^ 63" using assms by (simp add: sql_max_int_def)
  then have "sint (of_nat k :: i64) = int k" by (simp add: signed_of_nat signed_take_bit_int_eq_self)
  then have "sint (seq + of_nat k) = sint seq + int k"
    using True assms by (simp add: sint_word_ariths signed_take_bit_int_eq_self sql_max_int_def)
  with True show ?thesis by (simp add: seq_skip_def)
next
  case False
  then show ?thesis using sint_lt [of seq] by (simp add: seq_skip_def sql_max_int_def)
qed

lemma table_ids_skip: "table_ids ids seq \<Longrightarrow> table_ids ids (seq_skip k seq)"
  using sint_seq_skip [of seq k] by (fastforce simp: table_ids_def)

lemma db_ok_gaps: "db_ok db \<Longrightarrow> db_ok (pg_gaps E t db)"
  by (auto simp: db_ok_def pg_gaps_def has_user_id_def table_ids_skip)

lemma pg_gaps_tables [simp]:
  "db_users (pg_gaps E t db) = db_users db" "db_rooms (pg_gaps E t db) = db_rooms db"
  "db_messages (pg_gaps E t db) = db_messages db" "db_keys (pg_gaps E t db) = db_keys db"
  "db_envelopes (pg_gaps E t db) = db_envelopes db" "db_objects (pg_gaps E t db) = db_objects db"
  "db_ticks (pg_gaps E t db) = db_ticks db"
  "sqlite_view (pg_gaps E t db) = sqlite_view db"
  by (simp_all add: pg_gaps_def sqlite_view_def)

text \<open>What one statement can do: nothing but use up time and ids, or its effect, with or without a reply.\<close>

lemma pg_execE:
  assumes "pg_exec E ts ns objs f db = (r, db')"
  obtains (failed) n where "r = None" "db' = pg_gaps E (db_ticks db) (db\<lparr>db_ticks := n\<rparr>)"
    | (executed) n x where "f (pg_gaps E (db_ticks db) (db\<lparr>db_ticks := n\<rparr>)) = Some (x, db')"
        "r = Some x \<or> r = None \<and> pg_replies E (db_ticks db) = ReplyLost"
  using assms by (auto simp: pg_exec_def Let_def split: if_splits option.splits)

lemma pg_exec_keeps:
  assumes "db_ok db" and "\<And>db1 x db2. db_ok db1 \<Longrightarrow> f db1 = Some (x, db2) \<Longrightarrow> db_ok db2"
  shows "db_ok (snd (pg_exec E ts ns objs f db))"
proof -
  obtain r db' where e: "pg_exec E ts ns objs f db = (r, db')" by force
  then show ?thesis
  proof (cases rule: pg_execE)
    case (executed n x)
    with assms(2) [OF _ executed(1)] show ?thesis using assms(1) by (simp add: e db_ok_gaps)
  qed (use assms(1) in \<open>simp add: e db_ok_gaps\<close>)
qed

lemma pg_command_keeps:
  assumes "db_ok db" and "\<And>db1 db2. db_ok db1 \<Longrightarrow> f db1 = Some db2 \<Longrightarrow> db_ok db2"
  shows "db_ok (snd (pg_command E ts ns objs f db))"
  using pg_exec_keeps [OF assms(1), of "\<lambda>db. map_option (Pair ()) (f db)" E ts ns objs] assms(2)
  by (auto simp: pg_command_def case_prod_unfold)

lemma pg_select_keeps: "db_ok db \<Longrightarrow> db_ok (snd (pg_select E ts ns objs f db))"
  unfolding pg_select_def by (rule pg_exec_keeps) auto

lemma pg_updated_keeps:
  assumes "db_ok db" and "\<And>db1 db2. db_ok db1 \<Longrightarrow> f db1 = Some db2 \<Longrightarrow> db_ok db2"
  shows "db_ok (snd (pg_updated (pg_exec E ts ns objs (pg_update_users i f) db)))"
  using pg_exec_keeps [OF assms(1), of "pg_update_users i f" E ts ns objs] assms(2)
  by (auto simp: pg_updated_def pg_update_users_def split: prod.split option.split)

lemma upsert_key_ok:
  assumes "db_ok db" and "sql_upsert_key i k now db = Some db'"
  shows "db_ok db'" and "has_user_id i db"
    and "sqlite_view db' = (sqlite_view db)\<lparr>v_key := (v_key (sqlite_view db))(i \<mapsto> k)\<rparr>"
proof -
  show has: "has_user_id i db" using assms(2) by (simp add: sql_upsert_key_def split: if_splits)
  let ?f = "\<lambda>k'. k'\<lparr>k_public_key := k, k_updated_at := now\<rparr>"
  let ?new = "\<lparr>k_user_id = i, k_public_key = k, k_created_at = now, k_updated_at = now\<rparr>"
  have "db_ok db' \<and> sqlite_view db' = (sqlite_view db)\<lparr>v_key := (v_key (sqlite_view db))(i \<mapsto> k)\<rparr>"
  proof (cases "list_ex (\<lambda>k. k_user_id k = i) (db_keys db)")
    case True
    then obtain x where x: "find (\<lambda>k. k_user_id k = i) (db_keys db) = Some x"
      by (cases "find (\<lambda>k. k_user_id k = i) (db_keys db)") (auto simp: find_None_iff list_ex_iff)
    from True assms(2) have db': "db' = db\<lparr>db_keys := sql_update_where (\<lambda>k. k_user_id k = i) ?f (db_keys db)\<rparr>"
      by (simp add: sql_upsert_key_def split: if_splits)
    have "\<forall>x \<in> set (db_keys db'). has_user_id (k_user_id x) db"
      using assms(1) by (auto simp: db' sql_update_where_def db_ok_def)
    then have "db_ok db'"
      using assms(1) by (simp add: db' db_ok_def has_user_id_def sql_update_where_map)
    moreover have "sqlite_view db' = (sqlite_view db)\<lparr>v_key := (v_key (sqlite_view db))(i \<mapsto> k)\<rparr>"
      by (auto simp: db' sqlite_view_def fun_eq_iff find_update_where x)
    ultimately show ?thesis by blast
  next
    case False
    with assms(2) have db': "db' = db\<lparr>db_keys := db_keys db @ [?new]\<rparr>"
      by (simp add: sql_upsert_key_def split: if_splits)
    from False have "find (\<lambda>k. k_user_id k = i) (db_keys db) = None" by (simp add: find_None_iff list_ex_iff)
    with False assms(1) has show ?thesis
      by (auto simp: db' db_ok_def has_user_id_def sqlite_view_def find_snoc fun_eq_iff list_ex_iff split: option.split)
  qed
  then show "db_ok db'" and "sqlite_view db' = (sqlite_view db)\<lparr>v_key := (v_key (sqlite_view db))(i \<mapsto> k)\<rparr>"
    by blast+
qed

lemma filter_unique:
  assumes "distinct (map f xs)"
  shows "filter (\<lambda>r. f r = n) xs = (case find (\<lambda>r. f r = n) xs of None \<Rightarrow> [] | Some r \<Rightarrow> [r])"
  using assms
proof (induction xs)
  case (Cons x xs)
  have "filter (\<lambda>r. f r = f x) xs = []" using Cons.prems by (auto simp: filter_empty_conv image_iff)
  with Cons show ?case by (cases "f x = n") (fastforce split: option.split)+
qed simp

lemma bump_returning_ok:
  assumes "db_ok db" and "sql_bump_returning n db = Some (es, db')"
  shows "db_ok db'"
    and "v_epoch (sqlite_view db) n = None \<Longrightarrow> es = [] \<and> sqlite_view db' = sqlite_view db"
    and "v_epoch (sqlite_view db) n = Some e \<Longrightarrow> es = [e + 1] \<and> 0 < sint (e + 1) \<and>
      sqlite_view db' = (sqlite_view db)\<lparr>v_epoch := (v_epoch (sqlite_view db))(n \<mapsto> e + 1)\<rparr>"
proof -
  let ?inc = "\<lambda>r. r\<lparr>rr_epoch := rr_epoch r + 1\<rparr>"
  from assms(2) have es: "es = map rr_epoch (filter (\<lambda>r. r_name r = n) (sql_update_where (\<lambda>r. r_name r = n) ?inc (db_rooms db)))"
    and db': "db' = db\<lparr>db_rooms := sql_update_where (\<lambda>r. r_name r = n) ?inc (db_rooms db)\<rparr>"
    and small: "\<forall>r \<in> set (db_rooms db). r_name r = n \<longrightarrow> rr_epoch r \<noteq> sql_max_int"
    by (auto simp: sql_bump_returning_def Let_def list_ex_iff split: if_splits)
  have incr: "sql_update_where (\<lambda>r. r_name r = n) ?inc (db_rooms db)
      = sql_update_where (\<lambda>r. r_name r = n) (\<lambda>r. r\<lparr>rr_epoch := sql_incr (rr_epoch r)\<rparr>) (db_rooms db)"
    using small by (auto simp: sql_update_where_def sql_incr_def)
  note up = bump_rooms_ok [OF assms(1), of db' n, unfolded db' incr [symmetric], OF refl]
  show "db_ok db'" using up(1) by (simp add: db')
  have "distinct (map r_name (sql_update_where (\<lambda>r. r_name r = n) ?inc (db_rooms db)))"
    using db_okD(4) [OF assms(1)] by (simp add: sql_update_where_map)
  from filter_unique [OF this] have es1: "es = (case find (\<lambda>r. r_name r = n) (db_rooms db) of None \<Rightarrow> [] | Some r \<Rightarrow> [rr_epoch r + 1])"
    by (simp add: es find_update_where split: option.split)
  { assume "v_epoch (sqlite_view db) n = None"
    with up(2) es1 show "es = [] \<and> sqlite_view db' = sqlite_view db"
      by (auto simp: db' sqlite_view_def fun_upd_idem) }
  { assume e: "v_epoch (sqlite_view db) n = Some e"
    then obtain r where r: "find (\<lambda>r. r_name r = n) (db_rooms db) = Some r" "rr_epoch r = e"
      by (auto simp: sqlite_view_def)
    then have mem: "r \<in> set (db_rooms db)" "r_name r = n" by (auto simp: find_Some_iff in_set_conv_nth)
    with small have "e \<noteq> sql_max_int" using r(2) by auto
    moreover from db_okD(8) [OF assms(1) mem(1)] have "0 < sint e" by (simp add: r(2))
    ultimately show "es = [e + 1] \<and> 0 < sint (e + 1) \<and>
      sqlite_view db' = (sqlite_view db)\<lparr>v_epoch := (v_epoch (sqlite_view db))(n \<mapsto> e + 1)\<rparr>"
      using up(2) es1 r e sint_incr [of e] by (simp add: db' sql_incr_def) }
qed

section \<open>Histories of a database\<close>

inductive pg_step :: "pg_engine \<Rightarrow> sqlite_db \<Rightarrow> sqlite_db \<Rightarrow> bool" for E where
  "pg_step E db (snd (pg_init_schema E now db))"
| "pg_step E db (snd (pg_create_user E now u h db))"
| "pg_step E db (snd (pg_get_user E i db))"
| "pg_step E db (snd (pg_get_user_by_username E u db))"
| "pg_step E db (snd (pg_update_last_login E now i db))"
| "pg_step E db (snd (pg_update_password E i h db))"
| "pg_step E db (snd (pg_rename_user E i n db))"
| "pg_step E db (snd (pg_create_room E now n d db))"
| "pg_step E db (snd (pg_get_room E n db))"
| "pg_step E db (snd (pg_list_rooms E db))"
| "pg_step E db (snd (pg_room_epoch E n db))"
| "pg_step E db (snd (pg_bump_room_epoch E n db))"
| "pg_step E db (snd (pg_store_message E m db))"
| "pg_step E db (snd (pg_get_room_messages E n l b db))"
| "pg_step E db (snd (pg_store_public_key E now i k db))"
| "pg_step E db (snd (pg_get_public_key E i db))"
| "pg_step E db (snd (pg_get_public_key_by_username E u db))"
| "pg_step E db (snd (pg_store_room_key_envelope E now i s n e pl db))"
| "pg_step E db (snd (pg_take_room_key_envelopes E i db))"
| "pg_step E db (snd (pg_is_healthy E db))"

lemma keeps_connect [keeps_intros]: "keeps db_ok (connect_or_throw E)"
  by (simp add: keeps_def connect_or_throw_def)

lemma keeps_run_or_throw:
  "(\<And>db. db_ok db \<Longrightarrow> db_ok (snd (m db))) \<Longrightarrow> keeps db_ok (pg_run_or_throw m)"
  by (simp add: keeps_def pg_run_or_throw_def case_prod_unfold)

lemma insert_room_do_nothing_ok: "db_ok db \<Longrightarrow> sql_insert_room_do_nothing n d now db = Some db' \<Longrightarrow> db_ok db'"
  by (auto simp: sql_insert_room_do_nothing_def intro: insert_room_ok split: if_splits)

lemmas pg_user_methods = pg_create_user_def pg_get_user_def pg_get_user_by_username_def
  pg_update_last_login_def pg_update_password_def pg_rename_user_def

lemmas pg_room_methods = pg_create_room_def pg_get_room_def pg_list_rooms_def pg_room_epoch_def
  pg_bump_room_epoch_def pg_store_message_def pg_get_room_messages_def

lemmas pg_key_methods = pg_store_public_key_def pg_get_public_key_def pg_get_public_key_by_username_def
  pg_store_room_key_envelope_def pg_take_room_key_envelopes_def

lemma keeps_pg_command [keeps_intros]:
  "(\<And>db1 db2. db_ok db1 \<Longrightarrow> f db1 = Some db2 \<Longrightarrow> db_ok db2) \<Longrightarrow> keeps db_ok (elift (pg_command E ts ns objs f))"
  by (rule keeps_elift) (rule pg_command_keeps)

lemma keeps_pg_updated [keeps_intros]:
  "(\<And>db1 db2. db_ok db1 \<Longrightarrow> f db1 = Some db2 \<Longrightarrow> db_ok db2) \<Longrightarrow>
    keeps db_ok (elift (\<lambda>db. pg_updated (pg_exec E ts ns objs (pg_update_users i f) db)))"
  by (rule keeps_elift) (rule pg_updated_keeps)

lemma keeps_pg_exec [keeps_intros]:
  "(\<And>db1 x db2. db_ok db1 \<Longrightarrow> f db1 = Some (x, db2) \<Longrightarrow> db_ok db2) \<Longrightarrow>
    keeps db_ok (elift (\<lambda>db. case pg_exec E ts ns objs f db of (res, db) \<Rightarrow> (g res, db)))"
  using pg_exec_keeps [of _ f] by (intro keeps_elift) (simp add: case_prod_unfold)

lemma keeps_pg_select [keeps_intros]:
  "keeps db_ok (elift (\<lambda>db. case pg_select E ts ns objs f db of (res, db) \<Rightarrow> (g res, db)))"
  using pg_select_keeps by (intro keeps_elift) (simp add: case_prod_unfold)

lemma pg_users_keep:
  "keeps db_ok (pg_create_user E now u h)" "keeps db_ok (pg_get_user E i)"
  "keeps db_ok (pg_get_user_by_username E u)" "keeps db_ok (pg_update_last_login E now i)"
  "keeps db_ok (pg_update_password E i h)" "keeps db_ok (pg_rename_user E i n)"
  unfolding pg_user_methods
  by (intro keeps_intros; (erule (1) insert_user_ok(1) rename_user_ok(1) | force intro: update_users_keeps))+

lemma pg_rooms_keep:
  "keeps db_ok (pg_create_room E now n d)" "keeps db_ok (pg_get_room E n)" "keeps db_ok (pg_list_rooms E)"
  "keeps db_ok (pg_room_epoch E n)" "keeps db_ok (pg_bump_room_epoch E n)"
  "keeps db_ok (pg_store_message E m)" "keeps db_ok (pg_get_room_messages E n l b)"
  unfolding pg_room_methods
  by (intro keeps_intros; erule (1) insert_room_do_nothing_ok bump_returning_ok(1) insert_message_ok)+
    (cases "b > 0"; simp; intro keeps_intros)

lemma pg_keys_keep:
  "keeps db_ok (pg_store_public_key E now i k)" "keeps db_ok (pg_get_public_key E i)"
  "keeps db_ok (pg_get_public_key_by_username E u)" "keeps db_ok (pg_take_room_key_envelopes E i)"
  unfolding pg_key_methods
  by (intro keeps_intros; (erule (1) upsert_key_ok(1) | auto simp: sql_delete_returning_def intro!: filter_envelopes_ok))+

lemma pg_store_envelope_keep: "keeps db_ok (pg_store_room_key_envelope E now i s n e pl)"
  unfolding pg_store_room_key_envelope_def
proof (intro keeps_intros keeps_elift)
  fix db assume "db_ok db"
  then have "db_ok (snd (pg_command E [c_str s, c_str n, c_str pl] [i, e] [''room_key_envelopes'']
      (sql_insert_envelope i (c_str s) (c_str n) e (c_str pl) now) db))"
    by (rule pg_command_keeps) (erule (1) insert_envelope_ok(1))
  then show "db_ok (snd (let (ok, db) = pg_command E [c_str s, c_str n, c_str pl] [i, e] [''room_key_envelopes'']
             (sql_insert_envelope i (c_str s) (c_str n) e (c_str pl) now) db
       in if \<not> ok then (False, db)
          else (True, snd (pg_command E [] [i] [''room_key_envelopes''] (sql_trim_envelopes i) db))))"
    using trim_envelopes_ok(1) by (auto simp: case_prod_unfold Let_def intro: pg_command_keeps)
qed

lemma pg_schema_keep:
  "keeps db_ok (pg_init_schema E now)" "keeps db_ok (pg_is_healthy E)"
proof -
  have objs: "db_ok (db\<lparr>db_objects := os\<rparr>) = db_ok db" for db os by (simp add: db_ok_def has_user_id_def)
  show "keeps db_ok (pg_init_schema E now)"
    unfolding pg_init_schema_def
    by (intro keeps_intros keeps_run_or_throw pg_command_keeps) (auto simp: objs intro: insert_room_do_nothing_ok)
  show "keeps db_ok (pg_is_healthy E)"
    unfolding pg_is_healthy_def by (intro keeps_intros)
qed

lemmas pg_keep = pg_users_keep pg_rooms_keep pg_keys_keep pg_store_envelope_keep pg_schema_keep

lemma pg_step_keeps: "pg_step E db db' \<Longrightarrow> db_ok db \<Longrightarrow> db_ok db'"
  by (induction rule: pg_step.induct) (erule keepsD [rotated], rule pg_keep)+

section \<open>The interface contract\<close>

text \<open>
  A database server that can always be reached and does not lose replies; it may still refuse
  any statement. With it no method throws, so the backend is an \<open>istorage\<close>.
\<close>

definition pg_steady :: "pg_engine \<Rightarrow> pg_engine" where
  "pg_steady E = E\<lparr>pg_enabled := True, pg_connect_ok := \<lambda>_. True,
     pg_replies := \<lambda>t. if pg_replies E t = ReplyLost then Refused else pg_replies E t\<rparr>"

definition pg_answer :: "'a \<Rightarrow> (sqlite_db, 'a) act \<Rightarrow> sqlite_db \<Rightarrow> 'a \<times> sqlite_db" where
  "pg_answer d m db = (case m db of (None, db) \<Rightarrow> (d, db) | (Some a, db) \<Rightarrow> (a, db))"

definition pg_storage :: "pg_engine \<Rightarrow> sqlite_db istorage" where
  "pg_storage E = \<lparr>
     st_create_user = (\<lambda>now u h. pg_answer False (pg_create_user E now u h)),
     st_get_user = (\<lambda>i. pg_answer None (pg_get_user E i)),
     st_get_user_by_username = (\<lambda>u. pg_answer None (pg_get_user_by_username E u)),
     st_update_last_login = (\<lambda>now i. pg_answer False (pg_update_last_login E now i)),
     st_update_password = (\<lambda>i h. pg_answer False (pg_update_password E i h)),
     st_rename_user = (\<lambda>i n. pg_answer False (pg_rename_user E i n)),
     st_create_room = (\<lambda>now n d. pg_answer False (pg_create_room E now n d)),
     st_get_room = (\<lambda>n. pg_answer None (pg_get_room E n)),
     st_list_rooms = pg_answer [] (pg_list_rooms E),
     st_room_epoch = (\<lambda>n. pg_answer 0 (pg_room_epoch E n)),
     st_bump_room_epoch = (\<lambda>n. pg_answer 0 (pg_bump_room_epoch E n)),
     st_store_message = (\<lambda>m. pg_answer False (pg_store_message E m)),
     st_get_room_messages = (\<lambda>n l b. pg_answer [] (pg_get_room_messages E n l b)),
     st_store_public_key = (\<lambda>now i k. pg_answer False (pg_store_public_key E now i k)),
     st_get_public_key = (\<lambda>i. pg_answer None (pg_get_public_key E i)),
     st_get_public_key_by_username = (\<lambda>u. pg_answer None (pg_get_public_key_by_username E u)),
     st_store_room_key_envelope = (\<lambda>now i s n e p. pg_answer False (pg_store_room_key_envelope E now i s n e p)),
     st_take_room_key_envelopes = (\<lambda>i. pg_answer [] (pg_take_room_key_envelopes E i)),
     st_is_healthy = pg_answer False (pg_is_healthy E),
     st_init_schema = pg_init_schema E\<rparr>"

lemma pg_answer_steady:
  "pg_answer d (eseq (connect_or_throw (pg_steady E)) (elift m)) db = m (db\<lparr>db_ticks := Suc (db_ticks db)\<rparr>)"
  by (simp add: pg_answer_def effect_simps connect_or_throw_def pg_steady_def)

lemma pg_answer_keeps: "keeps P m \<Longrightarrow> P db \<Longrightarrow> P (snd (pg_answer d m db))"
  by (auto simp: keeps_def pg_answer_def split: prod.split option.split)

lemma pg_steady_no_loss: "pg_replies (pg_steady E) t \<noteq> ReplyLost"
  by (simp add: pg_steady_def)

text \<open>On a steady server a statement reports exactly whether it was executed.\<close>

lemma pg_steady_execE:
  assumes "pg_exec (pg_steady E) ts ns objs f db = (r, db')" and "db_ok db"
  obtains (failed) "r = None" "db_ok db'" "sqlite_view db' = sqlite_view db"
    | (executed) db1 x where "r = Some x" "f db1 = Some (x, db')" "db_ok db1" "sqlite_view db1 = sqlite_view db"
        "db_users db1 = db_users db" "db_rooms db1 = db_rooms db" "db_keys db1 = db_keys db"
proof -
  from assms(1) show thesis
  proof (cases rule: pg_execE)
    case (failed n)
    with assms(2) show thesis by (intro that(1)) (simp_all add: db_ok_gaps)
  next
    case (executed n x)
    with assms(2) show thesis
      by (intro that(2) [OF _ executed(1)]) (auto simp: db_ok_gaps pg_steady_no_loss)
  qed
qed

lemma pg_steady_commandE:
  assumes "db_ok db" and "pg_command (pg_steady E) ts ns objs f (db\<lparr>db_ticks := m\<rparr>) = (ok, db')"
  obtains (failed) "\<not> ok" "db_ok db'" "sqlite_view db' = sqlite_view db"
    | (executed) db1 where "ok" "f db1 = Some db'" "db_ok db1" "sqlite_view db1 = sqlite_view db"
        "db_users db1 = db_users db"
proof -
  obtain r where r: "pg_exec (pg_steady E) ts ns objs (\<lambda>db. map_option (Pair ()) (f db)) (db\<lparr>db_ticks := m\<rparr>) = (r, db')"
      "ok = (r \<noteq> None)"
    using assms(2) by (auto simp: pg_command_def split: prod.splits)
  have "db_ok (db\<lparr>db_ticks := m\<rparr>)" using assms(1) by simp
  from r(1) this show thesis
  proof (cases rule: pg_steady_execE)
    case failed
    with r(2) show thesis by (intro that(1)) simp_all
  next
    case (executed db1 x)
    with r(2) show thesis by (intro that(2) [of db1]) auto
  qed
qed

lemma pg_steady_selectE:
  assumes "db_ok db" and "pg_select (pg_steady E) ts ns objs f (db\<lparr>db_ticks := m\<rparr>) = (r, db')"
  obtains "db_ok db'" "sqlite_view db' = sqlite_view db" "r = None \<or> r = Some (f db')"
    "db_users db' = db_users db" "db_rooms db' = db_rooms db" "db_keys db' = db_keys db"
proof -
  from assms(2) show thesis unfolding pg_select_def
    by (cases rule: pg_execE) (use assms(1) in \<open>auto simp: db_ok_gaps intro!: that\<close>)
qed

lemma pg_read_user_id:
  assumes "db_ok db" and "x \<in> set (db_users db)"
  shows "pg_read_user x = x"
proof -
  have "0 < sint (u_id x)" using db_okD(1) [OF assms(1)] assms(2) by (auto simp: table_ids_def)
  then show ?thesis by (simp add: pg_read_user_def pg_u64_cell_def)
qed

lemma pg_first_filter: "pg_first g (Some (filter P xs)) = map_option g (find P xs)"
  by (induction xs) (auto simp: pg_first_def)

lemma pg_first_None [simp]: "pg_first g None = None"
  by (simp add: pg_first_def)

lemma find_mem: "find P xs = Some x \<Longrightarrow> x \<in> set xs \<and> P x"
  by (auto simp: find_Some_iff)

lemma pg_first_user:
  assumes "db_ok db"
  shows "pg_first pg_read_user (Some (filter P (db_users db))) = find P (db_users db)"
  using pg_read_user_id [OF assms]
  by (cases "find P (db_users db)") (auto simp: pg_first_filter dest: find_mem)

lemma pg_update_view:
  assumes "db_ok db"
    and e: "pg_updated (pg_exec (pg_steady E) ts ns objs (pg_update_users i f) (db\<lparr>db_ticks := m\<rparr>)) = (ok, db')"
    and f: "\<And>d d'. db_ok d \<Longrightarrow> f d = Some d' \<Longrightarrow> db_ok d' \<and>
      sqlite_view d' = (sqlite_view d)\<lparr>v_user := (v_user (sqlite_view d))(i := map_option g (v_user (sqlite_view d) i))\<rparr>"
  shows "db_ok db' \<and> (if ok then sqlite_view db' = (sqlite_view db)
      \<lparr>v_user := (v_user (sqlite_view db))(i := map_option g (v_user (sqlite_view db) i))\<rparr>
    else sqlite_view db' = sqlite_view db)"
proof -
  obtain r where r: "pg_exec (pg_steady E) ts ns objs (pg_update_users i f) (db\<lparr>db_ticks := m\<rparr>) = (r, db')"
    and ok: "ok \<longleftrightarrow> (\<exists>n. r = Some n \<and> n \<noteq> 0)"
    using e by (auto simp: pg_updated_def split: prod.splits option.splits)
  have "db_ok (db\<lparr>db_ticks := m\<rparr>)" using assms(1) by simp
  from r this show ?thesis
  proof (cases rule: pg_steady_execE)
    case failed
    with ok show ?thesis by simp
  next
    case (executed db1 n)
    then have n: "n = length (filter (\<lambda>x. u_id x = i) (db_users db))" and d: "f db1 = Some db'"
      by (auto simp: pg_update_users_def)
    note v = f [OF executed(3) d] executed(4)
    have "v_user (sqlite_view db) i = None" if "\<not> ok"
      using that ok executed(1) n by (auto simp: sqlite_view_def find_None_iff filter_empty_conv)
    then show ?thesis using v by (cases ok) (simp_all add: fun_upd_idem)
  qed
qed

lemma pg_epoch_value:
  assumes "e = (case pg_first pg_u64_cell (Some (map rr_epoch (filter (\<lambda>r. r_name r = n) (db_rooms db)))) of
      None \<Rightarrow> 0 | Some e \<Rightarrow> e)" and "e \<noteq> 0"
  shows "v_epoch (sqlite_view db) n = Some e"
proof -
  have "pg_first pg_u64_cell (Some (map rr_epoch (filter P xs))) = map_option (\<lambda>r. pg_u64_cell (rr_epoch r)) (find P xs)"
    for P and xs :: "room_row list"
    by (induction xs) (auto simp: pg_first_def)
  with assms show ?thesis
    by (cases "find (\<lambda>r. r_name r = n) (db_rooms db)") (auto simp: sqlite_view_def pg_u64_cell_def split: if_splits)
qed

lemma insert_message_view: "sql_insert_message m db = Some db' \<Longrightarrow> sqlite_view db' = sqlite_view db"
  by (auto simp: sql_insert_message_def sqlite_view_def split: if_splits option.splits)

lemmas pg_steady_runs = pg_storage_def pg_user_methods pg_room_methods pg_key_methods pg_answer_steady

lemma pg_bump_view:
  assumes "db_ok db" and "pg_answer 0 (pg_bump_room_epoch (pg_steady E) n) db = (e, db')"
  shows "db_ok db' \<and> (e \<noteq> 0 \<longrightarrow> v_epoch (sqlite_view db') (c_str n) = Some e) \<and>
    (sqlite_view db' = sqlite_view db \<or>
     (\<exists>e0. v_epoch (sqlite_view db) (c_str n) = Some e0 \<and>
       sqlite_view db' = (sqlite_view db)\<lparr>v_epoch := (v_epoch (sqlite_view db))(c_str n \<mapsto> e0 + 1)\<rparr>))"
proof -
  obtain r where r: "pg_exec (pg_steady E) [c_str n] [] [''rooms'', ''rooms.epoch''] (sql_bump_returning (c_str n))
      (db\<lparr>db_ticks := Suc (db_ticks db)\<rparr>) = (r, db')"
    and e: "e = (case pg_first pg_u64_cell r of None \<Rightarrow> 0 | Some e \<Rightarrow> e)"
    using assms(2) by (auto simp: pg_bump_room_epoch_def pg_answer_steady split: prod.splits)
  have "db_ok (db\<lparr>db_ticks := Suc (db_ticks db)\<rparr>)" using assms(1) by simp
  from r this show ?thesis
  proof (cases rule: pg_steady_execE)
    case failed
    with e show ?thesis by (simp add: pg_first_def)
  next
    case (executed db1 es)
    note b = bump_returning_ok [OF executed(3,2)]
    show ?thesis
    proof (cases "v_epoch (sqlite_view db1) (c_str n)")
      case None
      with b(1,2) executed(1,4) e show ?thesis by (simp add: pg_first_def)
    next
      case (Some e0)
      with b(1) b(3) [OF Some] executed(1,4) e show ?thesis by (auto simp: pg_first_def pg_u64_cell_def)
    qed
  qed
qed

interpretation pg: storage_contract "pg_storage (pg_steady E)" sqlite_view db_ok for E
proof (unfold_locales, goal_cases)
  case (1 st i x)
  then show ?case by (rule sq.view_ids)
next
  case (2 st i x k y)
  then show ?case by (rule sq.view_names)
next
  case (3 st now u h ok st')
  from 3(1) 3(2) [unfolded pg_steady_runs istorage.simps] show ?case
  proof (cases rule: pg_steady_commandE)
    case (executed db1)
    with insert_user_ok [OF executed(3,2)] show ?thesis by simp
  qed simp
next
  case (4 st i r st')
  then obtain q where q: "pg_select (pg_steady E) [] [i] [''users''] (\<lambda>db. filter (\<lambda>x. u_id x = i) (db_users db))
      (st\<lparr>db_ticks := Suc (db_ticks st)\<rparr>) = (q, st')" "r = pg_first pg_read_user q"
    by (auto simp: pg_steady_runs split: prod.splits)
  from 4(1) q(1) show ?case
    by (rule pg_steady_selectE)
      (use q(2) pg_first_user [OF 4(1)] in \<open>auto simp: sqlite_view_def\<close>)
next
  case (5 st u r st')
  then obtain q where q: "pg_select (pg_steady E) [c_str u] [] [''users'']
      (\<lambda>db. filter (\<lambda>x. u_username x = c_str u) (db_users db))
      (st\<lparr>db_ticks := Suc (db_ticks st)\<rparr>) = (q, st')" "r = pg_first pg_read_user q"
    by (auto simp: pg_steady_runs split: prod.splits)
  from 5(1) q(1) show ?case
    by (rule pg_steady_selectE)
      (use q(2) pg_first_user [OF 5(1)] find_by_id [OF db_okD(1) [OF 5(1)]] in
        \<open>auto simp: sqlite_view_def dest!: find_mem\<close>)
next
  case (6 st now i ok st')
  from 6(1) 6(2) [unfolded pg_steady_runs istorage.simps] show ?case
    by (rule pg_update_view) (use update_users_ok [OF _ _ _ refl] in \<open>auto simp: sql_update_where_map db_okD(2)\<close>)
next
  case (7 st i h ok st')
  from 7(1) 7(2) [unfolded pg_steady_runs istorage.simps] show ?case
    by (rule pg_update_view) (use update_users_ok [OF _ _ _ refl] in \<open>auto simp: sql_update_where_map db_okD(2)\<close>)
next
  case (8 st i n ok st')
  from 8(1) 8(2) [unfolded pg_steady_runs istorage.simps] show ?case
    by (rule pg_update_view) (rule conjI, erule (1) rename_user_ok(1), erule (1) rename_user_ok(2))
next
  case (9 st rm e st')
  then obtain q where q: "pg_select (pg_steady E) [c_str rm] [] [''rooms'', ''rooms.epoch'']
      (\<lambda>db. map rr_epoch (filter (\<lambda>r. r_name r = c_str rm) (db_rooms db)))
      (st\<lparr>db_ticks := Suc (db_ticks st)\<rparr>) = (q, st')" "e = (case pg_first pg_u64_cell q of None \<Rightarrow> 0 | Some e \<Rightarrow> e)"
    by (auto simp: pg_steady_runs split: prod.splits)
  from 9(1) q(1) show ?case
  proof (rule pg_steady_selectE)
    assume st': "db_ok st'" "sqlite_view st' = sqlite_view st"
      and q1: "q = None \<or> q = Some (map rr_epoch (filter (\<lambda>r. r_name r = c_str rm) (db_rooms st')))"
    have "v_epoch (sqlite_view st') (c_str rm) = Some e" if "e \<noteq> 0"
      using q1 q(2) that by (auto intro: pg_epoch_value)
    with st' show ?case by simp
  qed
next
  case (10 st rm e st')
  then show ?case by (intro pg_bump_view) (simp_all add: pg_storage_def)
next
  case (11 st i pk st')
  then obtain q where q: "pg_select (pg_steady E) [] [i] [''user_keys''] (\<lambda>db. filter (\<lambda>k. k_user_id k = i) (db_keys db))
      (st\<lparr>db_ticks := Suc (db_ticks st)\<rparr>) = (q, st')" "pk = pg_first k_public_key q"
    by (auto simp: pg_steady_runs split: prod.splits)
  from 11(1) q(1) show ?case
    by (rule pg_steady_selectE)
      (use q(2) in \<open>auto simp: pg_first_filter sqlite_view_def\<close>)
next
  case (12 st now i key ok st')
  from 12(1) 12(2) [unfolded pg_steady_runs istorage.simps] show ?case
  proof (cases rule: pg_steady_commandE)
    case (executed db1)
    with upsert_key_ok [OF executed(3,2)] show ?thesis
      by (auto simp: has_user_id_def sqlite_view_def find_None_iff)
  qed simp
next
  case (13 st now rm d)
  then show ?case by (simp add: pg_storage_def pg_answer_keeps [OF pg_rooms_keep(1)])
next
  case (14 st rm)
  then show ?case
    by (auto simp: pg_steady_runs split: prod.splits elim: pg_steady_selectE [OF 14])
next
  case (15 st)
  then show ?case
    by (auto simp: pg_steady_runs split: prod.splits elim: pg_steady_selectE [OF 15])
next
  case (16 st msg)
  obtain ok st' where c: "pg_answer False (pg_store_message (pg_steady E) msg) st = (ok, st')" by force
  from 16 c [unfolded pg_steady_runs] have "db_ok st' \<and> sqlite_view st' = sqlite_view st"
  proof (cases rule: pg_steady_commandE)
    case (executed db1)
    with insert_message_ok [OF executed(3,2)] insert_message_view [OF executed(2)] show ?thesis by simp
  qed simp
  with c show ?case by (simp add: pg_storage_def)
next
  case (17 st u)
  then show ?case
    by (auto simp: pg_steady_runs split: prod.splits elim: pg_steady_selectE [OF 17])
next
  case (18 st now i s rm ep pl)
  then show ?case by (simp add: pg_storage_def pg_answer_keeps [OF pg_store_envelope_keep])
next
  case (19 st i)
  then show ?case by (simp add: pg_storage_def pg_answer_keeps [OF pg_keys_keep(4)])
qed

section \<open>Properties\<close>

text \<open>
  Whatever methods run on a database that started empty, in whatever order, with
  connections that fail, statements that are refused or whose replies are lost and ids
  that are skipped, the tables stay consistent: names and ids are unique, ids stay within
  their sequences, every message, key and envelope refers to an existing user and every
  epoch is at least one.
\<close>

theorem pg_reachable_ok:
  assumes "(pg_step E)\<^sup>*\<^sup>* sqlite_empty db"
  shows "db_ok db"
  using assms
proof induction
  case base
  then show ?case by (simp add: db_ok_def sqlite_empty_def table_ids_def)
next
  case (step y z)
  then show ?case by (blast intro: pg_step_keeps)
qed

definition pg_reliable :: pg_engine where
  "pg_reliable = \<lparr>pg_enabled = True, pg_connect_ok = (\<lambda>_. True), pg_replies = (\<lambda>_. Executed), pg_gap = (\<lambda>_ _. 0),
     pg_text_ok = (\<lambda>_. True), pg_collation = Comparator.flat, pg_returned = (\<lambda>_. id)\<rparr>"

definition pg_sample :: sqlite_db where
  "pg_sample = snd (pg_create_user pg_reliable 10 ''ann'' ''h1'' (snd (pg_init_schema pg_reliable 9 sqlite_empty)))"

theorem pg_reachable_ok_witness: "db_ok pg_sample"
  by (rule pg_reachable_ok, unfold pg_sample_def, rule rtranclp.intros(2) [OF rtranclp.intros(2) [OF rtranclp.intros(1)]])
    (rule pg_step.intros)+

lemma pg_read_envelope_nonneg:
  "0 \<le> sint (e_id r) \<Longrightarrow> 0 \<le> sint (e_epoch r) \<Longrightarrow> pg_read_envelope r = room_key_envelope.truncate r"
  by (simp add: pg_read_envelope_def pg_u64_cell_def room_key_envelope.truncate_def)

text \<open>
  C20: Taking the queued envelopes of a user has three outcomes. The database could not be
  reached or refused: nothing is returned and the queue is kept. The statement was executed:
  every queued envelope is returned exactly once, in an order the database chooses, and
  the queue is empty. The statement was executed and its reply was lost: nothing is
  returned and the queue is empty. Unlike with SQLite no failure returns only a part.
\<close>

theorem pg_take_outcomes:
  assumes ok: "db_ok db" and ret: "\<forall>t rows. mset (pg_returned E t rows) = mset rows"
    and ep: "\<forall>x \<in> set (v_queue (sqlite_view db) i). 0 \<le> sint (e_epoch x)"
  shows "let (r, db') = pg_take_room_key_envelopes E i db; v = sqlite_view db;
      taken = v\<lparr>v_queue := (v_queue v)(i := [])\<rparr> in
    (r = None \<or> r = Some []) \<and> sqlite_view db' = v \<or>
    (\<exists>es. r = Some es \<and> mset es = mset (v_queue v i)) \<and> sqlite_view db' = taken \<or>
    r = Some [] \<and> pg_replies E (Suc (db_ticks db)) = ReplyLost \<and> sqlite_view db' = taken"
proof (cases "pg_enabled E \<and> pg_connect_ok E (db_ticks db)")
  case False
  then show ?thesis
    by (auto simp: pg_take_room_key_envelopes_def effect_simps connect_or_throw_def)
next
  case True
  let ?mine = "filter (\<lambda>r. er_recipient_id r = i) (db_envelopes db)"
  let ?db = "db\<lparr>db_ticks := Suc (db_ticks db)\<rparr>"
  obtain q db' where q: "pg_exec E [] [i] [''room_key_envelopes''] (sql_delete_returning E i) ?db = (q, db')" by force
  have run: "pg_take_room_key_envelopes E i db = (Some (pg_rows pg_read_envelope q), db')"
    using True by (simp add: pg_take_room_key_envelopes_def effect_simps connect_or_throw_def q)
  have rd: "pg_read_envelope r = room_key_envelope.truncate r" if "r \<in> set ?mine" for r
  proof (rule pg_read_envelope_nonneg)
    show "0 \<le> sint (e_id r)" using that db_okD(7) [OF ok] by (auto simp: table_ids_def)
    show "0 \<le> sint (e_epoch r)" using that ep by (force simp: sqlite_view_def room_key_envelope.truncate_def)
  qed
  from q show ?thesis
  proof (cases rule: pg_execE)
    case (failed n)
    then show ?thesis by (simp add: run pg_rows_def)
  next
    case (executed n x)
    have other: "filter (\<lambda>r. er_recipient_id r = j) (filter (\<lambda>r. er_recipient_id r \<noteq> i) rows)
        = (if j = i then [] else filter (\<lambda>r. er_recipient_id r = j) rows)" for j and rows :: "envelope_row list"
      by (induction rows) auto
    from executed have x: "x = pg_returned E n ?mine" and v: "sqlite_view db' = (sqlite_view db)\<lparr>v_queue := (v_queue (sqlite_view db))(i := [])\<rparr>"
      by (auto simp: sql_delete_returning_def sqlite_view_def fun_eq_iff other simp del: filter_filter)
    have "mset x = mset ?mine" using ret x by simp
    then have "mset (map pg_read_envelope x) = image_mset pg_read_envelope (mset ?mine)" by simp
    also have "\<dots> = image_mset room_key_envelope.truncate (mset ?mine)" by (rule image_mset_cong) (use rd in auto)
    finally have "mset (map pg_read_envelope x) = mset (v_queue (sqlite_view db) i)" by (simp add: sqlite_view_def)
    with executed(2) v show ?thesis by (auto simp: run pg_rows_def)
  qed
qed

lemma seq_skip_0 [simp]: "seq_skip 0 seq = seq"
proof -
  have "sint seq < 2 ^ 63" using sint_lt [of seq] by simp
  then have "sint seq \<le> sint sql_max_int" by (simp add: sql_max_int_def)
  then show ?thesis by (simp add: seq_skip_def)
qed

lemma pg_reliable_simps:
  "connect_or_throw pg_reliable db = (Some (), db\<lparr>db_ticks := Suc (db_ticks db)\<rparr>)"
  "pg_gaps pg_reliable t db = db"
  "pg_exec pg_reliable ts ns objs f db =
     (let db = db\<lparr>db_ticks := Suc (db_ticks db)\<rparr> in
      if list_all (\<lambda>n. 0 \<le> sint n) ns \<and> list_all (\<lambda>x. x \<in> set (db_objects db)) objs
      then (case f db of None \<Rightarrow> (None, db) | Some (r, db) \<Rightarrow> (Some r, db)) else (None, db))"
proof -
  show g: "pg_gaps pg_reliable t db = db" for t db by (simp add: pg_gaps_def pg_reliable_def)
  show "pg_exec pg_reliable ts ns objs f db =
     (let db = db\<lparr>db_ticks := Suc (db_ticks db)\<rparr> in
      if list_all (\<lambda>n. 0 \<le> sint n) ns \<and> list_all (\<lambda>x. x \<in> set (db_objects db)) objs
      then (case f db of None \<Rightarrow> (None, db) | Some (r, db) \<Rightarrow> (Some r, db)) else (None, db))"
    unfolding pg_exec_def Let_def g by (simp add: pg_reliable_def list_all_iff split: option.split)
qed (simp add: connect_or_throw_def pg_reliable_def)

lemmas pg_eval = effect_simps pg_reliable_simps pg_init_schema_def pg_run_or_throw_def pg_command_def
  pg_schema_objects_def uset_insert_def sql_insert_room_do_nothing_def
  sql_insert_or_ignore_room_def sql_next_id_def sql_max_int_def sqlite_empty_def pg_create_user_def
  sql_insert_user_def c_str_def pg_store_room_key_envelope_def sql_insert_envelope_def has_user_id_def
  sql_trim_envelopes_def sql_order_by_id_def MAX_QUEUED_ENVELOPES_def

definition pg_sample_queue :: sqlite_db where
  "pg_sample_queue = snd (pg_store_room_key_envelope pg_reliable 11 1 ''bo'' ''general'' 1 ''key'' pg_sample)"

lemma pg_sample_eq: "pg_sample = sqlite_sample\<lparr>db_ticks := 5\<rparr>"
  by (simp add: pg_sample_def sqlite_sample_eq pg_eval)

lemma pg_sample_queue_eq:
  "v_queue (sqlite_view pg_sample_queue) 1 =
     [\<lparr>e_id = 1, e_sender = ''bo'', e_room = ''general'', e_epoch = 1, e_payload = ''key''\<rparr>]"
  "db_ok pg_sample_queue"
proof -
  show "v_queue (sqlite_view pg_sample_queue) 1 =
     [\<lparr>e_id = 1, e_sender = ''bo'', e_room = ''general'', e_epoch = 1, e_payload = ''key''\<rparr>]"
    by (simp add: pg_sample_queue_def sqlite_view_def pg_sample_eq sqlite_sample_eq pg_eval room_key_envelope.truncate_def)
  have "keeps db_ok (pg_store_room_key_envelope pg_reliable 11 1 ''bo'' ''general'' 1 ''key'')"
    "keeps db_ok (pg_create_user pg_reliable 10 ''ann'' ''h1'')" "keeps db_ok (pg_init_schema pg_reliable 9)"
    by (rule pg_keep)+
  moreover have "db_ok sqlite_empty" by (simp add: db_ok_def sqlite_empty_def table_ids_def)
  ultimately show "db_ok pg_sample_queue"
    unfolding pg_sample_queue_def pg_sample_def by (blast dest: keepsD)
qed

theorem pg_take_outcomes_witness:
  "let (r, db') = pg_take_room_key_envelopes pg_reliable 1 pg_sample_queue in
     r \<noteq> None \<and> v_queue (sqlite_view db') 1 \<in> {[], v_queue (sqlite_view pg_sample_queue) 1}"
  using pg_take_outcomes [of pg_sample_queue pg_reliable 1] pg_sample_queue_eq
  by (auto simp: Let_def pg_reliable_def pg_take_room_key_envelopes_def effect_simps connect_or_throw_def split: prod.splits)

end
