(* ===== verification/Storage_Backends.thy ===== *)
theory Storage_Backends
  imports Postgres_Storage
begin

text \<open>
  The two implementations of the storage interface side by side. Calls of the interface
  are data; each backend runs a sequence of them and gives the answers. On working
  engines the answers are the same as long as the calls are portable, that is, avoid the
  points where the two backends differ: updates of users that do not exist, the largest
  epoch, numbers that \<^verbatim>\<open>BIGINT\<close> refuses and page sizes that SQLite truncates.
\<close>

datatype store_call =
    CreateUser i64 string string
  | FindUser string
  | UserById u64
  | TouchUser i64 u64
  | SetPassword u64 string
  | RenameUser u64 string
  | CreateRoom i64 string string
  | FindRoom string
  | RoomEpoch string
  | BumpEpoch string
  | StoreMessage stored_message
  | History string u64 u64
  | StoreKey i64 u64 string
  | KeyOf u64
  | StoreEnvelope i64 u64 string string u64 string
  | TakeEnvelopes u64

datatype store_answer =
    Success bool
  | UserFound "user option"
  | RoomFound "room option"
  | Epoch u64
  | Messages "stored_message list"
  | KeyFound "string option"
  | Envelopes "room_key_envelope list"

fun sqlite_call :: "store_call \<Rightarrow> sqlite_db \<Rightarrow> store_answer \<times> sqlite_db" where
  "sqlite_call (CreateUser now u h) db = map_prod Success id (sqlite_create_user sql_reliable now u h db)"
| "sqlite_call (FindUser u) db = map_prod UserFound id (sqlite_get_user_by_username sql_reliable u db)"
| "sqlite_call (UserById i) db = map_prod UserFound id (sqlite_get_user sql_reliable i db)"
| "sqlite_call (TouchUser now i) db = map_prod Success id (sqlite_update_last_login sql_reliable now i db)"
| "sqlite_call (SetPassword i h) db = map_prod Success id (sqlite_update_password sql_reliable i h db)"
| "sqlite_call (RenameUser i n) db = map_prod Success id (sqlite_rename_user sql_reliable i n db)"
| "sqlite_call (CreateRoom now n d) db = map_prod Success id (sqlite_create_room sql_reliable now n d db)"
| "sqlite_call (FindRoom n) db = map_prod RoomFound id (sqlite_get_room sql_reliable n db)"
| "sqlite_call (RoomEpoch n) db = map_prod Epoch id (sqlite_room_epoch sql_reliable n db)"
| "sqlite_call (BumpEpoch n) db = map_prod Epoch id (sqlite_bump_room_epoch sql_reliable n db)"
| "sqlite_call (StoreMessage m) db = map_prod Success id (sqlite_store_message sql_reliable m db)"
| "sqlite_call (History n l b) db = map_prod Messages id (sqlite_get_room_messages sql_reliable n l b db)"
| "sqlite_call (StoreKey now i k) db = map_prod Success id (sqlite_store_public_key sql_reliable now i k db)"
| "sqlite_call (KeyOf i) db = map_prod KeyFound id (sqlite_get_public_key sql_reliable i db)"
| "sqlite_call (StoreEnvelope now i s n e p) db =
     map_prod Success id (sqlite_store_room_key_envelope sql_reliable now i s n e p db)"
| "sqlite_call (TakeEnvelopes i) db = map_prod Envelopes id (sqlite_take_room_key_envelopes sql_reliable i db)"

text \<open>An exception is the answer \<open>None\<close>.\<close>

fun pg_call :: "store_call \<Rightarrow> (sqlite_db, store_answer) act" where
  "pg_call (CreateUser now u h) db = map_prod (map_option Success) id (pg_create_user pg_reliable now u h db)"
| "pg_call (FindUser u) db = map_prod (map_option UserFound) id (pg_get_user_by_username pg_reliable u db)"
| "pg_call (UserById i) db = map_prod (map_option UserFound) id (pg_get_user pg_reliable i db)"
| "pg_call (TouchUser now i) db = map_prod (map_option Success) id (pg_update_last_login pg_reliable now i db)"
| "pg_call (SetPassword i h) db = map_prod (map_option Success) id (pg_update_password pg_reliable i h db)"
| "pg_call (RenameUser i n) db = map_prod (map_option Success) id (pg_rename_user pg_reliable i n db)"
| "pg_call (CreateRoom now n d) db = map_prod (map_option Success) id (pg_create_room pg_reliable now n d db)"
| "pg_call (FindRoom n) db = map_prod (map_option RoomFound) id (pg_get_room pg_reliable n db)"
| "pg_call (RoomEpoch n) db = map_prod (map_option Epoch) id (pg_room_epoch pg_reliable n db)"
| "pg_call (BumpEpoch n) db = map_prod (map_option Epoch) id (pg_bump_room_epoch pg_reliable n db)"
| "pg_call (StoreMessage m) db = map_prod (map_option Success) id (pg_store_message pg_reliable m db)"
| "pg_call (History n l b) db = map_prod (map_option Messages) id (pg_get_room_messages pg_reliable n l b db)"
| "pg_call (StoreKey now i k) db = map_prod (map_option Success) id (pg_store_public_key pg_reliable now i k db)"
| "pg_call (KeyOf i) db = map_prod (map_option KeyFound) id (pg_get_public_key pg_reliable i db)"
| "pg_call (StoreEnvelope now i s n e p) db =
     map_prod (map_option Success) id (pg_store_room_key_envelope pg_reliable now i s n e p db)"
| "pg_call (TakeEnvelopes i) db = map_prod (map_option Envelopes) id (pg_take_room_key_envelopes pg_reliable i db)"

fun portable :: "sqlite_db \<Rightarrow> store_call \<Rightarrow> bool" where
  "portable db (TouchUser now i) \<longleftrightarrow> has_user_id i db"
| "portable db (SetPassword i h) \<longleftrightarrow> has_user_id i db"
| "portable db (RenameUser i n) \<longleftrightarrow> has_user_id i db"
| "portable db (CreateRoom now n d) \<longleftrightarrow> db_rooms_seq db \<noteq> sql_max_int"
| "portable db (BumpEpoch n) \<longleftrightarrow> v_epoch (sqlite_view db) (c_str n) \<noteq> Some sql_max_int"
| "portable db (History n l b) \<longleftrightarrow> unat l < 2 ^ 31"
| "portable db (StoreEnvelope now i s n e p) \<longleftrightarrow> 0 \<le> sint e"
| "portable db _ \<longleftrightarrow> True"

fun sqlite_calls :: "store_call list \<Rightarrow> sqlite_db \<Rightarrow> store_answer list \<times> sqlite_db" where
  "sqlite_calls [] db = ([], db)"
| "sqlite_calls (c # cs) db = (let (a, db) = sqlite_call c db; (as, db) = sqlite_calls cs db in (a # as, db))"

fun pg_calls :: "store_call list \<Rightarrow> sqlite_db \<Rightarrow> store_answer option list \<times> sqlite_db" where
  "pg_calls [] db = ([], db)"
| "pg_calls (c # cs) db = (let (a, db) = pg_call c db; (as, db) = pg_calls cs db in (a # as, db))"

fun portable_calls :: "store_call list \<Rightarrow> sqlite_db \<Rightarrow> bool" where
  "portable_calls [] db \<longleftrightarrow> True"
| "portable_calls (c # cs) db \<longleftrightarrow> portable db c \<and> portable_calls cs (snd (sqlite_call c db))"

section \<open>The same tables\<close>

definition same_tables :: "sqlite_db \<Rightarrow> sqlite_db \<Rightarrow> bool" where
  "same_tables a b \<longleftrightarrow> db_objects b = db_objects a \<and>
     db_users b = db_users a \<and> db_users_seq b = db_users_seq a \<and>
     db_rooms b = db_rooms a \<and> db_rooms_seq b = db_rooms_seq a \<and>
     db_messages b = db_messages a \<and> db_messages_seq b = db_messages_seq a \<and>
     db_envelopes b = db_envelopes a \<and> db_envelopes_seq b = db_envelopes_seq a \<and>
     v_key (sqlite_view b) = v_key (sqlite_view a)"

definition agree :: "sqlite_db \<Rightarrow> sqlite_db \<Rightarrow> bool" where
  "agree a b \<longleftrightarrow> same_tables a b \<and> db_ok a \<and> db_ok b \<and> sqlite_ready a \<and>
     (\<forall>r \<in> set (db_envelopes a). 0 \<le> sint (e_epoch r))"

lemma call_keeps_ok:
  "db_ok db \<Longrightarrow> db_ok (snd (sqlite_call c db))"
  "db_ok db \<Longrightarrow> db_ok (snd (pg_call c db))"
proof -
  assume ok: "db_ok db"
  show "db_ok (snd (sqlite_call c db))"
    by (cases c) (use ok in \<open>auto intro: sqlite_step_keeps [OF sqlite_step.intros(3)] sqlite_step_keeps [OF sqlite_step.intros(6)]
      sqlite_step_keeps [OF sqlite_step.intros(7)] sqlite_step_keeps [OF sqlite_step.intros(8)]
      sqlite_step_keeps [OF sqlite_step.intros(9)] sqlite_step_keeps [OF sqlite_step.intros(13)]
      sqlite_step_keeps [OF sqlite_step.intros(14)] sqlite_step_keeps [OF sqlite_step.intros(16)]
      simp: sqlite_select_keeps store_envelope_keeps take_envelopes_keeps\<close>)
  show "db_ok (snd (pg_call c db))"
    by (cases c) (use ok in \<open>auto simp: keepsD [OF pg_keep(1)] keepsD [OF pg_keep(2)] keepsD [OF pg_keep(3)]
      keepsD [OF pg_keep(4)] keepsD [OF pg_keep(5)] keepsD [OF pg_keep(6)] keepsD [OF pg_keep(7)] keepsD [OF pg_keep(8)]
      keepsD [OF pg_keep(10)] keepsD [OF pg_keep(11)] keepsD [OF pg_keep(12)] keepsD [OF pg_keep(13)]
      keepsD [OF pg_keep(14)] keepsD [OF pg_keep(15)] keepsD [OF pg_keep(17)] keepsD [OF pg_keep(18)]\<close>)
qed

text \<open>A call answered alike, with the tables alike afterwards.\<close>

definition alike :: "sqlite_db \<Rightarrow> sqlite_db \<Rightarrow> store_call \<Rightarrow> bool" where
  "alike a b c \<longleftrightarrow> fst (pg_call c b) = Some (fst (sqlite_call c a)) \<and>
     same_tables (snd (sqlite_call c a)) (snd (pg_call c b)) \<and> sqlite_ready (snd (sqlite_call c a)) \<and>
     (\<forall>r \<in> set (db_envelopes (snd (sqlite_call c a))). 0 \<le> sint (e_epoch r))"

lemma agreeD:
  assumes "agree a b"
  shows "db_objects b = db_objects a" "db_users b = db_users a" "db_users_seq b = db_users_seq a"
    "db_rooms b = db_rooms a" "db_rooms_seq b = db_rooms_seq a"
    "db_messages b = db_messages a" "db_messages_seq b = db_messages_seq a"
    "db_envelopes b = db_envelopes a" "db_envelopes_seq b = db_envelopes_seq a"
    "find (\<lambda>k. k_user_id k = i) (db_keys b) = None \<longleftrightarrow> find (\<lambda>k. k_user_id k = i) (db_keys a) = None"
    "map_option k_public_key (find (\<lambda>k. k_user_id k = i) (db_keys b)) = map_option k_public_key (find (\<lambda>k. k_user_id k = i) (db_keys a))"
    "(\<lambda>i. map_option k_public_key (find (\<lambda>k. k_user_id k = i) (db_keys b))) = (\<lambda>i. map_option k_public_key (find (\<lambda>k. k_user_id k = i) (db_keys a)))"
    "db_ok a" "db_ok b" "\<forall>r \<in> set (db_envelopes a). 0 \<le> sint (e_epoch r)"
    "x \<in> {''users'', ''rooms'', ''messages'', ''user_keys'', ''rooms.epoch'', ''room_key_envelopes''} \<Longrightarrow> x \<in> set (db_objects a)"
  using assms by (auto simp: agree_def same_tables_def sqlite_view_def sqlite_ready_def fun_eq_iff) (metis option.map_disc_iff)+

lemmas both_calls = alike_def same_tables_def sqlite_ready_def sqlite_view_def effect_simps reliable_simps reliable_write
  pg_reliable_simps pg_command_def pg_select_def pg_updated_def pg_update_users_def

lemma alike_inserts:
  assumes A: "agree a b"
  shows "alike a b (CreateUser now u h)"
    and "portable a (CreateRoom now n d) \<Longrightarrow> alike a b (CreateRoom now n d)"
  using agreeD [OF A]
  by (auto simp: both_calls sqlite_create_user_def pg_create_user_def sql_insert_user_def sqlite_create_room_def
      pg_create_room_def sql_insert_room_do_nothing_def sql_insert_or_ignore_room_def sql_next_id_def Let_def
      split: option.splits if_splits)

lemma alike_updates:
  assumes A: "agree a b"
  shows "portable a (TouchUser now i) \<Longrightarrow> alike a b (TouchUser now i)"
    and "portable a (SetPassword i h) \<Longrightarrow> alike a b (SetPassword i h)"
    and "portable a (RenameUser i n) \<Longrightarrow> alike a b (RenameUser i n)"
proof -
  have pos: "0 \<le> sint i" if "has_user_id i a"
    using that db_okD(1) [OF agreeD(13) [OF A]] by (auto simp: has_user_id_def table_ids_def)
  have some: "filter (\<lambda>x. u_id x = i) (db_users a) \<noteq> []" if "has_user_id i a"
    using that by (auto simp: has_user_id_def filter_empty_conv)
  note D = agreeD [OF A] pos some
  show "portable a (TouchUser now i) \<Longrightarrow> alike a b (TouchUser now i)"
    using D by (auto simp: both_calls sqlite_update_last_login_def pg_update_last_login_def Let_def)
  show "portable a (SetPassword i h) \<Longrightarrow> alike a b (SetPassword i h)"
    using D by (auto simp: both_calls sqlite_update_password_def pg_update_password_def Let_def)
  show "portable a (RenameUser i n) \<Longrightarrow> alike a b (RenameUser i n)"
    using D by (auto simp: both_calls sqlite_rename_user_def pg_rename_user_def sql_rename_user_def has_user_id_def Let_def)
qed

lemma alike_user_lookups:
  assumes A: "agree a b"
  shows "alike a b (FindUser u)" and "alike a b (UserById i)" and "alike a b (KeyOf i)"
proof -
  note D = agreeD [OF A]
  have u: "pg_first pg_read_user (Some (filter P (db_users a))) = find P (db_users a)" for P
    by (rule pg_first_user [OF D(13)])
  have neg: "find (\<lambda>x. u_id x = i) (db_users a) = None" "find (\<lambda>k. k_user_id k = i) (db_keys a) = None" if "\<not> 0 \<le> sint i"
    using that db_okD(1) [OF D(13)] D(13) by (force simp: find_None_iff table_ids_def db_ok_def has_user_id_def)+
  show "alike a b (FindUser u)"
    using D u by (auto simp: both_calls sqlite_get_user_by_username_def pg_get_user_by_username_def sq_first_ok Let_def)
  show "alike a b (UserById i)"
    using D u neg by (auto simp: both_calls sqlite_get_user_def pg_get_user_def sq_first_ok Let_def)
  show "alike a b (KeyOf i)"
    using D neg by (auto simp: both_calls sqlite_get_public_key_def pg_get_public_key_def sq_first_ok pg_first_filter Let_def)
qed

lemma alike_room_lookups:
  assumes A: "agree a b"
  shows "alike a b (FindRoom n)" and "alike a b (RoomEpoch n)"
proof -
  note D = agreeD [OF A]
  have "pg_u64_cell (r_id r) = r_id r \<and> pg_u64_cell (rr_epoch r) = rr_epoch r" if "r \<in> set (db_rooms a)" for r
    using that db_okD(3) [OF D(13)] db_okD(8) [OF D(13) that] by (auto simp: table_ids_def pg_u64_cell_def)
  then have r: "pg_read_room r = room.truncate r" "pg_u64_cell (rr_epoch r) = rr_epoch r"
    if "find P (db_rooms a) = Some r" for P r
    using find_mem [OF that] by (simp_all add: pg_read_room_def room.truncate_def)
  have e: "pg_first f (Some (map g xs)) = pg_first (f \<circ> g) (Some xs)" for f :: "i64 \<Rightarrow> u64" and g xs
    by (cases xs) (simp_all add: pg_first_def)
  show "alike a b (FindRoom n)"
    using D r by (cases "find (\<lambda>r. r_name r = c_str n) (db_rooms a)")
      (auto simp: both_calls sqlite_get_room_def pg_get_room_def sq_first_ok pg_first_filter Let_def)
  show "alike a b (RoomEpoch n)"
    using D r by (cases "find (\<lambda>r. r_name r = c_str n) (db_rooms a)")
      (auto simp: both_calls sqlite_room_epoch_def pg_room_epoch_def sq_first_ok pg_first_filter e Let_def)
qed

lemma bump_returning_portable:
  assumes "v_epoch (sqlite_view db) n \<noteq> Some sql_max_int" and "db_ok db"
  shows "sql_bump_returning n db =
    (let rooms = sql_update_where (\<lambda>r. r_name r = n) (\<lambda>r. r\<lparr>rr_epoch := sql_incr (rr_epoch r)\<rparr>) (db_rooms db)
     in Some (map rr_epoch (filter (\<lambda>r. r_name r = n) rooms), db\<lparr>db_rooms := rooms\<rparr>))"
proof -
  have small: "rr_epoch r \<noteq> sql_max_int" if "r \<in> set (db_rooms db)" "r_name r = n" for r
  proof -
    have "filter (\<lambda>r. r_name r = n) (db_rooms db) = (case find (\<lambda>r. r_name r = n) (db_rooms db) of None \<Rightarrow> [] | Some r \<Rightarrow> [r])"
      by (rule filter_unique [OF db_okD(4) [OF assms(2)]])
    moreover have "r \<in> set (filter (\<lambda>r. r_name r = n) (db_rooms db))" using that by simp
    ultimately have "find (\<lambda>r. r_name r = n) (db_rooms db) = Some r" by (auto split: option.splits)
    then show ?thesis using assms(1) by (simp add: sqlite_view_def)
  qed
  then have "sql_update_where (\<lambda>r. r_name r = n) (\<lambda>r. r\<lparr>rr_epoch := rr_epoch r + 1\<rparr>) (db_rooms db)
      = sql_update_where (\<lambda>r. r_name r = n) (\<lambda>r. r\<lparr>rr_epoch := sql_incr (rr_epoch r)\<rparr>) (db_rooms db)"
    by (auto simp: sql_update_where_def sql_incr_def)
  with small show ?thesis by (auto simp: sql_bump_returning_def list_ex_iff Let_def)
qed

lemma alike_bump:
  assumes A: "agree a b" and "portable a (BumpEpoch n)"
  shows "alike a b (BumpEpoch n)"
proof -
  note D = agreeD [OF A]
  let ?rooms = "sql_update_where (\<lambda>r. r_name r = c_str n) (\<lambda>r. r\<lparr>rr_epoch := sql_incr (rr_epoch r)\<rparr>) (db_rooms a)"
  have "v_epoch (sqlite_view b) (c_str n) \<noteq> Some sql_max_int"
    using assms(2) by (simp add: sqlite_view_def D)
  note br = bump_returning_portable [of "b\<lparr>db_ticks := Suc (Suc (db_ticks b))\<rparr>" "c_str n", simplified, OF this D(14)]
  have pos: "pg_u64_cell (rr_epoch r) = rr_epoch r" if "find P ?rooms = Some r" for P r
  proof -
    from find_mem [OF that] obtain q where "q \<in> set (db_rooms a)" "rr_epoch r = rr_epoch q \<or> rr_epoch r = sql_incr (rr_epoch q)"
      by (auto simp: sql_update_where_def)
    with db_okD(8) [OF D(13)] sint_sql_incr have "0 < sint (rr_epoch r)" by metis
    then show ?thesis by (simp add: pg_u64_cell_def)
  qed
  have e: "pg_first f (Some (map g xs)) = pg_first (f \<circ> g) (Some xs)" for f :: "i64 \<Rightarrow> u64" and g xs
    by (cases xs) (simp_all add: pg_first_def)
  show ?thesis
    using D pos by (cases "find (\<lambda>r. r_name r = c_str n) ?rooms")
      (auto simp: both_calls sqlite_bump_room_epoch_def sqlite_room_epoch_def pg_bump_room_epoch_def br sq_first_ok
        pg_first_filter e Let_def)
qed

lemma alike_messages:
  assumes A: "agree a b"
  shows "alike a b (StoreMessage m)" and "portable a (History n l p) \<Longrightarrow> alike a b (History n l p)"
proof -
  note D = agreeD [OF A]
  have neg: "\<not> has_user_id i a" if "\<not> 0 \<le> sint i" for i
    using that db_okD(1) [OF D(13)] by (auto simp: has_user_id_def table_ids_def)
  show "alike a b (StoreMessage m)"
    using D neg [of "smsg_sender_id m"]
    by (auto simp: both_calls sqlite_store_message_def pg_store_message_def sql_insert_message_def has_user_id_def Let_def
        split: option.splits)
  have msg: "pg_read_message x = x" if "x \<in> set (db_messages a)" for x
    using that db_okD(5) [OF D(13)] D(13) neg [of "smsg_sender_id x"]
    by (auto simp: pg_read_message_def pg_u64_cell_def table_ids_def db_ok_def)
  show "alike a b (History n l p)" if l: "portable a (History n l p)"
  proof -
    let ?sel = "filter (\<lambda>m. smsg_room m = c_str n \<and> (p > 0 \<longrightarrow> sint (smsg_id m) < sint p)) (db_messages a)"
    have sq: "fst (sqlite_get_room_messages sql_reliable n l p a) = drop (length ?sel - unat l) ?sel"
      using sqlite_history [OF D(13) D(16)] l by (simp add: Let_def)
    have o: "sql_order_by_id smsg_id (filter P (db_messages a)) = filter P (db_messages a)" for P
      by (rule table_ids_order [OF table_ids_filter [OF db_okD(5) [OF D(13)]]])
    have rd: "rev (map pg_read_message (take k (rev (filter P (db_messages a)))))
        = drop (length (filter P (db_messages a)) - k) (filter P (db_messages a))" for k P
    proof -
      have "map pg_read_message (take k (rev (filter P (db_messages a)))) = take k (rev (filter P (db_messages a)))"
        by (rule map_idI) (use msg in \<open>auto dest!: in_set_takeD\<close>)
      then show ?thesis by (simp add: rev_take take_rev)
    qed
    have "int (unat l) < int (2 ^ 31)" using l by (simp only: portable.simps of_nat_less_iff)
    then have "uint l < 2 ^ 63" unfolding uint_nat by simp
    moreover have "- (2 ^ 63) \<le> uint l" by (rule order.trans [OF _ uint_ge_0]) simp
    ultimately have "sint l = uint l" by (simp add: sint_uint signed_take_bit_int_eq_self)
    then have l0: "0 \<le> sint l" by simp
    have neg_page: "?sel = []" if "\<not> 0 \<le> sint p" "p > 0"
      using that db_okD(5) [OF D(13)] by (fastforce simp: filter_empty_conv table_ids_def)
    have "fst (pg_get_room_messages pg_reliable n l p b) = Some (drop (length ?sel - unat l) ?sel)"
      using D(6) D(1) D(16) [of "''messages''"] l0 neg_page
      by (auto simp: pg_get_room_messages_def both_calls Let_def o rd pg_rows_def)
    moreover have "same_tables (snd (sqlite_get_room_messages sql_reliable n l p a)) (snd (pg_get_room_messages pg_reliable n l p b))"
      "sqlite_ready (snd (sqlite_get_room_messages sql_reliable n l p a))"
      "db_envelopes (snd (sqlite_get_room_messages sql_reliable n l p a)) = db_envelopes a"
      using D by (auto simp: sqlite_get_room_messages_def pg_get_room_messages_def both_calls Let_def)
    ultimately show ?thesis using sq D(15) by (simp add: alike_def)
  qed
qed

lemma alike_keys:
  assumes A: "agree a b"
  shows "alike a b (StoreKey now i k)"
proof -
  note D = agreeD [OF A]
  have neg: "\<not> has_user_id i a" if "\<not> 0 \<le> sint i"
    using that db_okD(1) [OF D(13)] by (auto simp: has_user_id_def table_ids_def)
  show ?thesis
  proof (cases "has_user_id i a")
    case False
    then show ?thesis using D
      by (auto simp: both_calls sqlite_store_public_key_def pg_store_public_key_def sql_replace_key_def sql_upsert_key_def
          has_user_id_def Let_def)
  next
    case True
    let ?a = "a\<lparr>db_ticks := Suc (db_ticks a)\<rparr>" and ?b = "b\<lparr>db_ticks := Suc (Suc (db_ticks b))\<rparr>"
    from True D have "has_user_id i b" by (simp add: has_user_id_def)
    with True obtain ka kb where ab: "sql_replace_key i (c_str k) now ?a = Some (?a\<lparr>db_keys := ka\<rparr>)"
        "sql_upsert_key i (c_str k) now ?b = Some (?b\<lparr>db_keys := kb\<rparr>)"
      by (simp add: sql_replace_key_def sql_upsert_key_def has_user_id_def)
    let ?a' = "?a\<lparr>db_keys := ka\<rparr>" and ?b' = "?b\<lparr>db_keys := kb\<rparr>"
    have "v_key (sqlite_view ?b') = v_key (sqlite_view ?a')"
      using replace_key_ok(3) [OF _ ab(1)] upsert_key_ok(3) [OF _ ab(2)] D(12-14) by (simp add: sqlite_view_def)
    then have "same_tables ?a' ?b'" using D(1-9) by (simp add: same_tables_def)
    moreover have "sqlite_call (StoreKey now i k) a = (Success True, ?a')" "pg_call (StoreKey now i k) b = (Some (Success True), ?b')"
      using D(1) D(16) [of "''user_keys''"] True neg
      by (auto simp: sqlite_store_public_key_def pg_store_public_key_def reliable_write pg_command_def effect_simps
          pg_reliable_simps ab Let_def)
    ultimately show ?thesis using A by (simp add: alike_def sqlite_ready_def agree_def)
  qed
qed

lemma alike_envelopes:
  assumes A: "agree a b"
  shows "portable a (StoreEnvelope now i s n e p) \<Longrightarrow> alike a b (StoreEnvelope now i s n e p)"
    and "alike a b (TakeEnvelopes i)"
proof -
  note D = agreeD [OF A]
  have neg: "\<not> has_user_id i a" if "\<not> 0 \<le> sint i" for i
    using that db_okD(1) [OF D(13)] by (auto simp: has_user_id_def table_ids_def)
  show "alike a b (StoreEnvelope now i s n e p)" if "portable a (StoreEnvelope now i s n e p)"
    using D neg [of i] that
    by (auto simp: both_calls sqlite_store_room_key_envelope_def pg_store_room_key_envelope_def sql_insert_envelope_def
        sql_trim_envelopes_def has_user_id_def Let_def split: option.splits)
  let ?mine = "filter (\<lambda>r. er_recipient_id r = i) (db_envelopes a)"
  have o: "sql_order_by_id e_id ?mine = ?mine"
    by (rule table_ids_order [OF table_ids_filter [OF db_okD(7) [OF D(13)]]])
  have rd: "map pg_read_envelope ?mine = map room_key_envelope.truncate ?mine"
    using D(15) db_okD(7) [OF D(13)] by (auto simp: table_ids_def intro!: pg_read_envelope_nonneg)
  have empty: "?mine = []" if "\<not> 0 \<le> sint i"
    using neg [OF that] D(13) by (auto simp: filter_empty_conv db_ok_def)
  have none: "filter (\<lambda>r. er_recipient_id r \<noteq> i) (db_envelopes a) = db_envelopes a" if "?mine = []"
    using that by (auto simp: filter_empty_conv filter_id_conv)
  have "pg_returned pg_reliable t = id" "pg_enabled pg_reliable" for t by (simp_all add: pg_reliable_def)
  then show "alike a b (TakeEnvelopes i)"
    using D o rd empty none
    by (cases "?mine = []") (auto simp: both_calls sqlite_take_room_key_envelopes_def pg_take_room_key_envelopes_def
        sql_delete_returning_def pg_rows_def Let_def)
qed

lemma alike_call:
  assumes "agree a b" and "portable a c"
  shows "alike a b c"
  using assms(2)
  by (cases c) (use alike_inserts [OF assms(1)] alike_updates [OF assms(1)] alike_user_lookups [OF assms(1)]
      alike_room_lookups [OF assms(1)] alike_bump [OF assms(1)] alike_messages [OF assms(1)] alike_keys [OF assms(1)]
      alike_envelopes [OF assms(1)] in simp_all)

lemma agree_call:
  assumes "agree a b" and "portable a c"
  shows "fst (pg_call c b) = Some (fst (sqlite_call c a))" and "agree (snd (sqlite_call c a)) (snd (pg_call c b))"
  using alike_call [OF assms] assms(1) call_keeps_ok by (simp_all add: alike_def agree_def)

lemma agree_calls:
  assumes "agree a b" and "portable_calls cs a"
  shows "fst (pg_calls cs b) = map Some (fst (sqlite_calls cs a)) \<and>
    agree (snd (sqlite_calls cs a)) (snd (pg_calls cs b))"
  using assms
proof (induction cs arbitrary: a b)
  case (Cons c cs)
  from Cons.prems have "portable a c" by simp
  note step = agree_call [OF Cons.prems(1) this]
  from Cons.IH [OF step(2)] Cons.prems(2) step(1) show ?case
    by (simp add: Let_def case_prod_unfold)
qed simp

lemma agree_ticks:
  "b = a\<lparr>db_ticks := n\<rparr> \<Longrightarrow> sqlite_ready a \<Longrightarrow> db_envelopes a = [] \<Longrightarrow> db_ok a \<Longrightarrow> db_ok b \<Longrightarrow> agree a b"
  by (simp add: agree_def same_tables_def)



end
