(* ===== verification/Health_Endpoint.thy ===== *)
theory Health_Endpoint
  imports Session_Manager Sqlite_Storage Json_Api "HOL-Library.Sublist"
begin

text \<open>
  \<^verbatim>\<open>server/health/health_endpoint.{hpp,cpp}\<close>: the plain HTTP endpoint for liveness and
  readiness probes. Its state is the running flag, the acceptor and whether an accept is
  pending; a request is the text of the one read of at most 1024 bytes. A response is
  \<open>None\<close> when dumping the body throws. A reader for such responses, the way a probe
  reads them, says what the responses mean.
\<close>

record health_endpoint =
  he_running :: bool
  he_acceptor_open :: bool
  he_accept_pending :: bool

definition health_endpoint_new :: health_endpoint where
  "health_endpoint_new = \<lparr>he_running = False, he_acceptor_open = False, he_accept_pending = False\<rparr>"

definition health_do_accept :: "health_endpoint \<Rightarrow> health_endpoint" where
  "health_do_accept h = h\<lparr>he_accept_pending := True\<rparr>"

text \<open>Opening or binding the acceptor may throw, after the flag was set.\<close>

definition health_start :: "bool \<Rightarrow> (health_endpoint, unit) act" where
  "health_start bound = (\<lambda>h.
     if he_running h then (Some (), h)
     else let h = h\<lparr>he_running := True\<rparr>
          in if \<not> bound then (None, h)
             else (Some (), health_do_accept (h\<lparr>he_acceptor_open := True\<rparr>)))"

definition health_stop :: "health_endpoint \<Rightarrow> health_endpoint" where
  "health_stop h =
     (if \<not> he_running h then h else h\<lparr>he_running := False, he_acceptor_open := False\<rparr>)"

section \<open>Responses\<close>

definition CRLF :: string where
  "CRLF = [CHR 0x0D, CHR 0x0A]"

definition http_text :: "nat \<Rightarrow> string \<Rightarrow> string \<Rightarrow> string" where
  "http_text status status_text body =
     ''HTTP/1.1 '' @ nat_to_string status @ '' '' @ status_text @ CRLF @
     ''Content-Type: application/json'' @ CRLF @
     ''Connection: close'' @ CRLF @
     ''Content-Length: '' @ nat_to_string (length body) @ CRLF @
     CRLF @ body"

definition health_body :: "'j json_api \<Rightarrow> nat \<Rightarrow> nat \<Rightarrow> bool \<Rightarrow> 'j" where
  "health_body J connections users healthy =
     j_obj J [(''status'', j_str J ''healthy''),
       (''connections'', j_u64 J (of_nat connections)),
       (''authenticated_users'', j_u64 J (of_nat users)),
       (''storage_healthy'', j_bool J healthy)]"

definition generate_health_response ::
  "'j json_api \<Rightarrow> 'st istorage \<Rightarrow> session_manager \<Rightarrow> 'st \<Rightarrow> string option \<times> 'st" where
  "generate_health_response J S m st =
     (let (ok, st) = st_is_healthy S st
      in (map_option (http_text 200 ''OK'') (j_dump J (health_body J (sm_count m) (sm_authenticated_count m) ok)), st))"

definition ready_body :: "'j json_api \<Rightarrow> bool \<Rightarrow> 'j" where
  "ready_body J storage_ok =
     j_obj J [(''ready'', j_bool J storage_ok),
       (''checks'', j_obj J [(''storage'', j_str J (if storage_ok then ''ok'' else ''failed''))])]"

definition generate_ready_response :: "'j json_api \<Rightarrow> 'st istorage \<Rightarrow> 'st \<Rightarrow> string option \<times> 'st" where
  "generate_ready_response J S st =
     (let (storage_ok, st) = st_is_healthy S st;
          status = (if storage_ok then 200 else 503);
          status_text = (if storage_ok then ''OK'' else ''Service Unavailable'')
      in (map_option (http_text status status_text) (j_dump J (ready_body J storage_ok)), st))"

definition health_respond ::
  "'j json_api \<Rightarrow> 'st istorage \<Rightarrow> session_manager \<Rightarrow> string \<Rightarrow> 'st \<Rightarrow> string option \<times> 'st" where
  "health_respond J S m request st =
     (if sublist ''GET /healthz'' request \<or> sublist ''GET /health'' request then generate_health_response J S m st
      else if sublist ''GET /readyz'' request \<or> sublist ''GET /ready'' request then generate_ready_response J S st
      else generate_health_response J S m st)"

text \<open>
  The completion of an accept (\<open>None\<close>: an error code) and of the read on the new socket; the
  response is what is handed to the write.
\<close>

definition health_on_accept :: "bool \<Rightarrow> health_endpoint \<Rightarrow> bool \<times> health_endpoint" where
  "health_on_accept accepted h =
     (let h = h\<lparr>he_accept_pending := False\<rparr>
      in if \<not> he_running h then (False, h) else (accepted, health_do_accept h))"

definition health_handle_request ::
  "'j json_api \<Rightarrow> 'st istorage \<Rightarrow> session_manager \<Rightarrow> string option \<Rightarrow> ('st, string option) act" where
  "health_handle_request J S m received = (\<lambda>st.
     case received of
       None \<Rightarrow> (Some None, st)
     | Some request \<Rightarrow> (case health_respond J S m (take 1024 request) st of (r, st) \<Rightarrow> (map_option Some r, st)))"

section \<open>Reading a response\<close>

fun http_line :: "string \<Rightarrow> (string \<times> string) option" where
  "http_line [] = None"
| "http_line (c # cs) =
     (if c = CHR 0x0D \<and> cs \<noteq> [] \<and> hd cs = CHR 0x0A then Some ([], tl cs)
      else map_option (\<lambda>(l, r). (c # l, r)) (http_line cs))"

lemma http_line_shorter: "http_line s = Some (l, r) \<Longrightarrow> length r < length s"
  by (induction s arbitrary: l r) (auto split: if_splits)

function http_head :: "string \<Rightarrow> (string list \<times> string) option" where
  "http_head s =
     (case http_line s of
        None \<Rightarrow> None
      | Some (l, r) \<Rightarrow> if l = [] then Some ([], r) else map_option (\<lambda>(ls, b). (l # ls, b)) (http_head r))"
  by auto
termination by (relation "measure length") (auto dest: http_line_shorter)

declare http_head.simps [simp del]

fun http_header :: "string \<Rightarrow> string list \<Rightarrow> string option" where
  "http_header name [] = None"
| "http_header name (l # ls) = (if prefix name l then Some (drop (length name) l) else http_header name ls)"

definition http_read :: "string \<Rightarrow> (nat \<times> string) option" where
  "http_read s =
     (case http_head s of
        Some (status # headers, body) \<Rightarrow>
          (case http_header ''Content-Length: '' headers of
             Some n \<Rightarrow> if string_to_nat n \<le> length body
               then Some (string_to_nat (takeWhile isdigit_c (drop 9 status)), take (string_to_nat n) body) else None
           | None \<Rightarrow> None)
      | _ \<Rightarrow> None)"

lemma http_line_append:
  assumes "CHR 0x0D \<notin> set l"
  shows "http_line (l @ CRLF @ r) = Some (l, r)"
  using assms by (induction l) (auto simp: CRLF_def)

lemma http_head_line:
  assumes "CHR 0x0D \<notin> set l" and "l \<noteq> []"
  shows "http_head (l @ CRLF @ r) = map_option (\<lambda>(ls, b). (l # ls, b)) (http_head r)"
  using assms by (subst http_head.simps) (simp add: http_line_append)

lemma http_head_blank: "http_head (CRLF @ r) = Some ([], r)"
  using http_line_append [of "[]" r] by (subst http_head.simps) simp

lemma cr_not_digit: "CHR 0x0D \<notin> set (nat_to_string n)"
  using nat_to_string_digits [of "CHR 0x0D" n] by (auto simp: isdigit_c_def)

lemma takeWhile_digits: "takeWhile isdigit_c (nat_to_string n @ CHR '' '' # r) = nat_to_string n"
proof -
  have "\<not> isdigit_c (CHR '' '')" by (simp add: isdigit_c_def)
  then show ?thesis using nat_to_string_digits by (subst takeWhile_append2) simp_all
qed

lemma http_read_text:
  assumes "CHR 0x0D \<notin> set status_text"
  shows "http_read (http_text status status_text body) = Some (status, body)"
proof -
  define l1 l2 l3 l4 where "l1 = ''HTTP/1.1 '' @ nat_to_string status @ '' '' @ status_text"
    and "l2 = ''Content-Type: application/json''" and "l3 = ''Connection: close''"
    and "l4 = ''Content-Length: '' @ nat_to_string (length body)"
  note defs = this
  have "http_text status status_text body = l1 @ CRLF @ (l2 @ CRLF @ (l3 @ CRLF @ (l4 @ CRLF @ (CRLF @ body))))"
    by (simp only: http_text_def append_assoc defs)
  moreover have "CHR 0x0D \<notin> set l" "l \<noteq> []" if "l \<in> {l1, l2, l3, l4}" for l
    using that assms cr_not_digit by (auto simp: defs)
  ultimately have "http_head (http_text status status_text body) = Some ([l1, l2, l3, l4], body)"
    by (simp add: http_head_line http_head_blank)
  moreover have "http_header ''Content-Length: '' [l2, l3, l4] = Some (nat_to_string (length body))"
    "takeWhile isdigit_c (drop 9 l1) = nat_to_string status"
    by (simp_all add: defs takeWhile_digits)
  ultimately show ?thesis by (simp add: http_read_def)
qed

text \<open>
  Whatever a probe sends, when it gets a response it can read it: the declared length is
  that of the body, which parses as JSON. The status is 503 exactly for a readiness
  request while the storage is unhealthy, and the body then says so; every other request,
  also a malformed one, is answered as a liveness probe with 200, the number of sessions and
  of logged-in users and the health of the storage.
\<close>

theorem health_response_reads_back:
  assumes "json_ok J" and "health_respond J S m request st = (Some response, st')"
  shows "\<exists>status body j. http_read response = Some (status, body) \<and> j_parse J body = Some j \<and>
    (let ok = fst (st_is_healthy S st);
         ready = (sublist ''GET /ready'' request \<and> \<not> sublist ''GET /health'' request)
     in status = (if ready \<and> \<not> ok then 503 else 200) \<and>
        j = (if ready then ready_body J ok else health_body J (sm_count m) (sm_authenticated_count m) ok))"
proof -
  have pre: "sublist (p @ q) s \<Longrightarrow> sublist p s" for p q s :: string
    by (metis prefixI prefix_imp_sublist sublist_order.order.trans)
  have z: "sublist ''GET /healthz'' request \<Longrightarrow> sublist ''GET /health'' request"
    "sublist ''GET /readyz'' request \<Longrightarrow> sublist ''GET /ready'' request"
    using pre [of "''GET /health''" "''z''"] pre [of "''GET /ready''" "''z''"] by simp_all
  define ok where "ok = fst (st_is_healthy S st)"
  define ready where "ready = (sublist ''GET /ready'' request \<and> \<not> sublist ''GET /health'' request)"
  define j where "j = (if ready then ready_body J ok else health_body J (sm_count m) (sm_authenticated_count m) ok)"
  obtain body where body: "j_dump J j = Some body" and resp: "response =
      (if ready \<and> \<not> ok then http_text 503 ''Service Unavailable'' body else http_text 200 ''OK'' body)"
    using assms(2) z unfolding health_respond_def generate_health_response_def generate_ready_response_def j_def ready_def ok_def
    by (auto simp: Let_def case_prod_unfold split: if_splits)
  have "http_read response = Some (if ready \<and> \<not> ok then 503 else 200, body)"
    by (simp add: resp http_read_text)
  with json_ok_parse_dump [OF assms(1) body] show ?thesis
    unfolding Let_def ok_def [symmetric] ready_def [symmetric] j_def [symmetric] by blast
qed

definition sql_down :: sql_engine where
  "sql_down = \<lparr>sql_prepare_ok = (\<lambda>_. False), sql_step_error = (\<lambda>_. None)\<rparr>"

lemma sql_down_unhealthy: "fst (st_is_healthy (sqlite_storage sql_down) db) = False"
  by (simp add: sqlite_storage_def sqlite_is_healthy_def sq_prepare_def sql_down_def)

theorem health_response_reads_back_witness:
  "\<exists>response body. fst (health_respond jval_api (sqlite_storage sql_down) (session_manager_new dual_limiter_default)
       ''GET /readyz HTTP/1.1'' sqlite_empty) = Some response \<and> http_read response = Some (503, body)"
proof -
  let ?req = "''GET /readyz HTTP/1.1''"
  have r: "sublist ''GET /ready'' ?req" "\<not> sublist ''GET /health'' ?req" "\<not> sublist ''GET /healthz'' ?req"
    by (simp_all add: sublist_code)
  obtain response st where resp: "health_respond jval_api (sqlite_storage sql_down) (session_manager_new dual_limiter_default)
      ?req sqlite_empty = (Some response, st)"
    using r by (auto simp: health_respond_def generate_ready_response_def jval_api_def Let_def case_prod_unfold)
  from health_response_reads_back [OF jval_api_ok this] r sql_down_unhealthy [of sqlite_empty]
  show ?thesis by (auto simp: Let_def resp)
qed

end
