(* ===== verification/Client_Main.thy ===== *)
theory Client_Main
  imports Chat_Prelude
begin

text \<open>
  \<^verbatim>\<open>client/main.cpp\<close>: the command line of the client. The result says with which address and
  settings the application is started, or that help is shown or a port refused.
\<close>

record client_args =
  ca_host :: string
  ca_port :: u16
  ca_verify_ssl :: bool
  ca_cert_path :: string

datatype main_result = StartApp client_args | ShowHelp | InvalidPort string

definition client_args_default :: client_args where
  "client_args_default = \<lparr>ca_host = ''localhost'', ca_port = 8443, ca_verify_ssl = True, ca_cert_path = ''''\<rparr>"

text \<open>
  \<^verbatim>\<open>std::stoi\<close>: leading white space, a sign, digits; what follows is ignored. It throws without
  a digit and beyond 32 bits.
\<close>

definition stoi :: "string \<Rightarrow> int option" where
  "stoi s =
     (let t = dropWhile isspace_c s;
          neg = (t \<noteq> [] \<and> hd t = CHR ''-'');
          t = (if t \<noteq> [] \<and> (hd t = CHR ''-'' \<or> hd t = CHR ''+'') then tl t else t);
          d = takeWhile isdigit_c t;
          v = (if neg then - int (string_to_nat d) else int (string_to_nat d))
      in if d = [] \<or> v < - (2 ^ 31) \<or> v \<ge> 2 ^ 31 then None else Some v)"

text \<open>\<^verbatim>\<open>arg[0]\<close> of an empty argument is the terminating NUL.\<close>

definition is_option :: "string \<Rightarrow> bool" where
  "is_option arg \<longleftrightarrow> arg \<noteq> [] \<and> hd arg = CHR ''-''"

function parse_args :: "string list \<Rightarrow> client_args \<Rightarrow> main_result" where
  "parse_args [] a = StartApp a"
| "parse_args (arg # args) a =
     (if arg = ''--insecure'' then parse_args args (a\<lparr>ca_verify_ssl := False\<rparr>)
      else if arg = ''--ca-cert'' \<and> args \<noteq> [] then parse_args (tl args) (a\<lparr>ca_cert_path := hd args\<rparr>)
      else if arg = ''--help'' \<or> arg = ''-h'' then ShowHelp
      else if ca_host a = ''localhost'' \<and> \<not> is_option arg then parse_args args (a\<lparr>ca_host := arg\<rparr>)
      else if \<not> is_option arg then
        (case stoi arg of
           None \<Rightarrow> InvalidPort arg
         | Some p \<Rightarrow> parse_args args (a\<lparr>ca_port := of_int p\<rparr>))
      else parse_args args a)"
  by pat_completeness auto
termination by (relation "measure (\<lambda>(args, _). length args)") auto

definition client_main :: "string list \<Rightarrow> main_result" where
  "client_main args = parse_args args client_args_default"

lemma stoi_nat_to_string:
  assumes "n < 2 ^ 31"
  shows "stoi (nat_to_string n) = Some (int n)"
proof -
  have d: "isdigit_c c" if "c \<in> set (nat_to_string n)" for c using nat_to_string_digits [OF that] .
  have "nat_to_string n \<noteq> []" by simp
  then obtain c cs where c: "nat_to_string n = c # cs" by (cases "nat_to_string n") auto
  from d [of c] have "\<not> isspace_c c" "c \<noteq> CHR ''-''" "c \<noteq> CHR ''+''"
    by (auto simp: c isdigit_c_def isspace_c_def)
  moreover have "takeWhile isdigit_c (nat_to_string n) = nat_to_string n" using d by (simp add: takeWhile_eq_all_conv)
  moreover have "int n < 2 ^ 31" using assms by simp
  ultimately show ?thesis using c string_to_nat_nat_to_string [of n]
    by (simp add: stoi_def Let_def)
qed

text \<open>
  A host and a port on the command line are the address of the server, except when the host
  is written as \<^verbatim>\<open>localhost\<close>: the test that the host is still unset compares it with that
  default, so the port is then taken as the host and the default port is used.
\<close>

theorem client_address:
  assumes "\<not> is_option h" and "n < 2 ^ 16"
  shows "client_main [h, nat_to_string n] = StartApp (client_args_default
    \<lparr>ca_host := if h = ''localhost'' then nat_to_string n else h,
     ca_port := if h = ''localhost'' then 8443 else of_nat n\<rparr>)"
proof -
  have "\<not> is_option (nat_to_string n)"
  proof
    assume "is_option (nat_to_string n)"
    then have "CHR ''-'' \<in> set (nat_to_string n)" unfolding is_option_def using hd_in_set by metis
    then have "isdigit_c (CHR ''-'')" by (rule nat_to_string_digits)
    then show False by (simp add: isdigit_c_def)
  qed
  moreover have "n < 2 ^ 31" using assms(2) by simp
  then have "stoi (nat_to_string n) = Some (int n)" by (rule stoi_nat_to_string)
  moreover have "\<not> is_option arg \<Longrightarrow> arg \<noteq> ''--insecure'' \<and> arg \<noteq> ''--ca-cert'' \<and> arg \<noteq> ''--help'' \<and> arg \<noteq> ''-h''" for arg
    by (auto simp: is_option_def)
  ultimately show ?thesis using assms(1)
    by (simp add: client_main_def client_args_default_def)
qed

theorem client_address_witness:
  "client_main [''localhost'', ''9000''] = StartApp (client_args_default\<lparr>ca_host := ''9000''\<rparr>)"
proof -
  have "nat_to_string 9000 = ''9000''"
    by (simp add: nat_to_string.simps [of 9000] nat_to_string.simps [of 900] nat_to_string.simps [of 90]
        nat_to_string.simps [of 9] digit_char_def char_of_def bit_0)
  with client_address [of "''localhost''" 9000] show ?thesis
    by (simp add: is_option_def client_args_default_def)
qed

end
