(* ===== verification/Ui_Renderer.thy ===== *)
theory Ui_Renderer
  imports Message_Store "HOL-Library.Sublist"
begin

text \<open>
  \<^verbatim>\<open>client/ui_renderer.{hpp,cpp}\<close> and \<^verbatim>\<open>client/theme.{hpp,cpp}\<close>: the element that shows an item
  of the message store. The FTXUI library is not interpreted: an element is the term of the
  calls that build it, with one constructor per function of the library the renderer uses.
  Literals outside ASCII are written as their UTF-8 bytes.
\<close>

section \<open>Colours\<close>

datatype ui_color = Black | Blue | Cyan | GrayDark | GrayLight | Green | Magenta | Red | White | Yellow | RGB nat nat nat

record theme =
  t_accent :: ui_color
  t_username :: ui_color
  t_room_name :: ui_color
  t_prompt :: ui_color
  t_success :: ui_color
  t_error :: ui_color
  t_warning :: ui_color
  t_system_msg :: ui_color
  t_dm_color :: ui_color
  t_presence :: ui_color
  t_dim_text :: ui_color
  t_status_bar_bg :: ui_color
  t_status_bar_fg :: ui_color
  t_border_color :: ui_color
  t_banner :: ui_color

definition theme_default :: theme where
  "theme_default = \<lparr>t_accent = Cyan, t_username = Green, t_room_name = Cyan, t_prompt = White,
     t_success = Green, t_error = Red, t_warning = Yellow, t_system_msg = Cyan,
     t_dm_color = Magenta, t_presence = Yellow, t_dim_text = GrayDark, t_status_bar_bg = GrayDark,
     t_status_bar_fg = White, t_border_color = GrayLight, t_banner = Cyan\<rparr>"

definition theme_dark :: theme where
  "theme_dark = \<lparr>t_accent = Cyan, t_username = Green, t_room_name = Cyan, t_prompt = White,
     t_success = Green, t_error = Red, t_warning = Yellow, t_system_msg = Cyan,
     t_dm_color = Magenta, t_presence = Yellow, t_dim_text = GrayDark, t_status_bar_bg = RGB 30 30 30,
     t_status_bar_fg = GrayLight, t_border_color = GrayDark, t_banner = Cyan\<rparr>"

definition theme_light :: theme where
  "theme_light = \<lparr>t_accent = Blue, t_username = RGB 0 100 0, t_room_name = Blue, t_prompt = Black,
     t_success = RGB 0 128 0, t_error = RGB 180 0 0, t_warning = RGB 180 140 0, t_system_msg = Blue,
     t_dm_color = Magenta, t_presence = RGB 180 140 0, t_dim_text = GrayLight, t_status_bar_bg = RGB 230 230 230,
     t_status_bar_fg = Black, t_border_color = GrayLight, t_banner = Blue\<rparr>"

definition theme_copilot :: theme where
  "theme_copilot = \<lparr>t_accent = RGB 88 166 255, t_username = RGB 63 185 80, t_room_name = RGB 88 166 255, t_prompt = White,
     t_success = RGB 63 185 80, t_error = RGB 248 81 73, t_warning = RGB 210 153 34, t_system_msg = RGB 88 166 255,
     t_dm_color = RGB 188 140 255, t_presence = RGB 210 153 34, t_dim_text = RGB 110 118 129, t_status_bar_bg = RGB 22 27 34,
     t_status_bar_fg = RGB 201 209 217, t_border_color = RGB 48 54 61, t_banner = RGB 88 166 255\<rparr>"

definition theme_modern :: theme where
  "theme_modern = \<lparr>t_accent = RGB 88 101 242, t_username = RGB 167 243 208, t_room_name = RGB 147 197 253, t_prompt = RGB 229 229 229,
     t_success = RGB 134 239 172, t_error = RGB 252 165 165, t_warning = RGB 253 224 71, t_system_msg = RGB 165 180 252,
     t_dm_color = RGB 219 112 147, t_presence = RGB 134 239 172, t_dim_text = RGB 155 160 203, t_status_bar_bg = RGB 30 27 75,
     t_status_bar_fg = RGB 229 229 229, t_border_color = RGB 88 101 242, t_banner = RGB 88 101 242\<rparr>"

section \<open>Elements\<close>

datatype border = Light | Rounded

datatype element =
    Text string
  | Bold element
  | Dim element
  | Colored ui_color element
  | Hbox "element list"
  | Vbox "element list"
  | Filler
  | Separator
  | Centered element
  | Flexed element
  | Framed element
  | Bordered border element
  | OnColor ui_color element

definition LOCK :: string where
  "LOCK = [CHR 0xF0, CHR 0x9F, CHR 0x94, CHR 0x92, CHR '' '']"

definition stamp_element :: "'j display_item \<Rightarrow> theme \<Rightarrow> element" where
  "stamp_element item t = Colored (t_dim_text t) (Text (''['' @ di_timestamp item @ ''] ''))"

definition lock_elements :: "'j display_item \<Rightarrow> theme \<Rightarrow> element list" where
  "lock_elements item t = (if di_encrypted item then [Colored (t_success t) (Text LOCK)] else [])"

definition render_chat :: "'j display_item \<Rightarrow> theme \<Rightarrow> element" where
  "render_chat item t = Hbox ([stamp_element item t]
     @ (if di_room item \<noteq> [] then [Colored (t_room_name t) (Text (''#'' @ di_room item @ '' ''))] else [])
     @ lock_elements item t
     @ [Colored (t_username t) (Bold (Text (di_sender item))), Text ('': '' @ di_content item)])"

definition render_dm :: "'j display_item \<Rightarrow> theme \<Rightarrow> element" where
  "render_dm item t = Hbox ([stamp_element item t] @ lock_elements item t
     @ [Colored (t_dm_color t) (Text (di_content item))])"

definition render_system :: "'j display_item \<Rightarrow> theme \<Rightarrow> element" where
  "render_system item t = Hbox [Colored (t_system_msg t) (Text ''* ''), Colored (t_system_msg t) (Text (di_content item))]"

definition render_error :: "'j display_item \<Rightarrow> theme \<Rightarrow> element" where
  "render_error item t = Hbox
     [Colored (t_error t) (Bold (Text ([CHR 0xE2, CHR 0x9C, CHR 0x97] @ '' Error: ''))),
      Colored (t_error t) (Text (di_content item))]"

definition render_presence :: "'j display_item \<Rightarrow> theme \<Rightarrow> element" where
  "render_presence item t = Hbox
     [Colored (t_presence t) (Text [CHR 0xE2, CHR 0x97, CHR 0x8F, CHR '' '']),
      Colored (t_presence t) (Text (di_content item))]"

text \<open>
  The colour of an authentication item is read from the original message, which throws when
  its payload is not an object (as for an item without an original) or the member has
  another type.
\<close>

definition render_auth :: "'j json_api \<Rightarrow> 'j display_item \<Rightarrow> theme \<Rightarrow> element option" where
  "render_auth J item t =
     (case di_original item of
        None \<Rightarrow> None
      | Some m \<Rightarrow> map_option
          (\<lambda>success. Colored (if success then t_success t else t_error t) (Text (di_content item)))
          (j_value_bool J (m_payload m) ''success'' False))"

definition render_room_event :: "'j display_item \<Rightarrow> theme \<Rightarrow> element" where
  "render_room_event item t = Hbox
     [Colored (t_system_msg t) (Text [CHR 0xE2, CHR 0x86, CHR 0x92, CHR '' '']),
      Colored (t_system_msg t) (Text (di_content item))]"

definition render_status :: "'j display_item \<Rightarrow> theme \<Rightarrow> element" where
  "render_status item t = Hbox [Colored (t_system_msg t) (Text ''* ''), Dim (Text (di_content item))]"

definition render_kind :: "'j json_api \<Rightarrow> 'j display_item \<Rightarrow> theme \<Rightarrow> element option" where
  "render_kind J item t =
     (case di_kind item of
        K_CHAT \<Rightarrow> Some (render_chat item t)
      | K_DM \<Rightarrow> Some (render_dm item t)
      | K_SYSTEM \<Rightarrow> Some (render_system item t)
      | K_ERROR \<Rightarrow> Some (render_error item t)
      | K_PRESENCE \<Rightarrow> Some (render_presence item t)
      | K_AUTH \<Rightarrow> render_auth J item t
      | K_ROOM_EVENT \<Rightarrow> Some (render_room_event item t)
      | K_STATUS \<Rightarrow> Some (render_status item t))"

definition render_item :: "'j json_api \<Rightarrow> 'j display_item \<Rightarrow> theme \<Rightarrow> element option" where
  "render_item J item t = map_option (\<lambda>el. if di_is_new item then Dim el else el) (render_kind J item t)"

section \<open>What is shown\<close>

fun text_of :: "element \<Rightarrow> string" where
  "text_of (Text s) = s"
| "text_of (Bold e) = text_of e"
| "text_of (Dim e) = text_of e"
| "text_of (Colored c e) = text_of e"
| "text_of (Hbox es) = concat (map text_of es)"
| "text_of (Vbox es) = concat (map text_of es)"
| "text_of (Centered e) = text_of e"
| "text_of (Flexed e) = text_of e"
| "text_of (Framed e) = text_of e"
| "text_of (Bordered b e) = text_of e"
| "text_of (OnColor c e) = text_of e"
| "text_of Filler = []"
| "text_of Separator = []"

text \<open>The colour an element has as a whole, and the elements of a row.\<close>

fun row_of :: "element \<Rightarrow> element list" where
  "row_of (Hbox es) = es"
| "row_of (Dim e) = row_of e"
| "row_of e = [e]"

definition shows_lock :: "theme \<Rightarrow> element \<Rightarrow> bool" where
  "shows_lock t e \<longleftrightarrow> Colored (t_success t) (Text LOCK) \<in> set (row_of e)"

lemma item_base_simps [simp]:
  "di_kind (item_base fmt k m c) = k" "di_content (item_base fmt k m c) = c"
  "di_original (item_base fmt k m c) = Some m" "di_encrypted (item_base fmt k m c) = False"
  by (simp_all add: item_base_def)

lemma text_of_render:
  "text_of (if b then Dim e else e) = text_of e" "row_of (if b then Dim e else e) = row_of e"
  by simp_all

lemma converted_auth:
  assumes "convert J fmt m = Some item" and "di_kind item = K_AUTH"
  shows "di_original item = Some m \<and> j_value_bool J (m_payload m) ''success'' False \<noteq> None"
proof -
  have "m_type m = AUTH_RESPONSE"
    using assms by (cases "m_type m") (auto simp: convert_def convert_dm_def convert_encrypted_def Let_def bind_eq_Some_conv
        split: if_splits)
  with assms show ?thesis by (auto simp: convert_def Let_def bind_eq_Some_conv)
qed

lemma converted_dm:
  assumes "convert J fmt m = Some item" and "di_kind item = K_DM"
  shows "\<exists>cs. di_content item = CHR ''['' # cs"
proof -
  have "m_type m = DIRECT_MESSAGE"
    using assms by (cases "m_type m") (auto simp: convert_def convert_encrypted_def Let_def bind_eq_Some_conv)
  with assms(1) have "convert_dm J fmt m = Some item" by (simp add: convert_def)
  then show ?thesis
    unfolding convert_dm_def Let_def bind_eq_Some_conv by (elim exE conjE) (auto split: if_splits)
qed

lemma render_lock:
  "shows_lock t (render_chat item t) \<longleftrightarrow> di_encrypted item"
  "di_content item = CHR ''['' # cs \<Longrightarrow> shows_lock t (render_dm item t) \<longleftrightarrow> di_encrypted item"
  by (auto simp: shows_lock_def render_chat_def render_dm_def stamp_element_def lock_elements_def LOCK_def)

text \<open>
  Every message that the store converts can be shown: the renderer does not throw on it,
  the line it draws ends with the content of the item, and for room and direct messages the
  lock is drawn exactly when the item is marked as encrypted.
\<close>

theorem converted_items_render:
  assumes "convert J fmt m = Some item"
  shows "\<exists>e. render_item J item t = Some e \<and> suffix (di_content item) (text_of e) \<and>
    (di_kind item \<in> {K_CHAT, K_DM} \<longrightarrow> (shows_lock t e \<longleftrightarrow> di_encrypted item))"
proof -
  have lock: "shows_lock t (if b then Dim e else e) = shows_lock t e" for b e by (simp add: shows_lock_def)
  show ?thesis
  proof (cases "di_kind item")
    case K_DM
    with converted_dm [OF assms] obtain cs where "di_content item = CHR ''['' # cs" by blast
    with K_DM show ?thesis
      by (auto simp: render_item_def render_kind_def text_of_render lock render_lock)
        (simp add: render_dm_def suffix_def)
  next
    case K_AUTH
    with converted_auth [OF assms] obtain b where "di_original item = Some m"
      "j_value_bool J (m_payload m) ''success'' False = Some b" by auto
    with K_AUTH show ?thesis
      by (cases b; cases "di_is_new item") (simp_all add: render_item_def render_kind_def render_auth_def)
  next
    case K_CHAT
    then show ?thesis
      by (auto simp: render_item_def render_kind_def text_of_render lock render_lock) (simp add: render_chat_def suffix_def)
  qed (auto simp: render_item_def render_kind_def text_of_render render_system_def render_error_def render_presence_def
      render_room_event_def render_status_def suffix_def)
qed

theorem converted_items_render_witness:
  "\<exists>e. render_item jval_api (item_base (\<lambda>_. ''12:00'') K_CHAT good_sample ''hi'') theme_dark = Some e \<and> suffix ''hi'' (text_of e)"
  using converted_items_render [OF samples_convert(2), of "\<lambda>_. ''12:00''" theme_dark] by auto

end
