(* ===== verification/End_To_End.thy ===== *)
theory End_To_End
  imports Command_Handler Client_App Ui_Renderer
begin

text \<open>
  What one user's message becomes on the other user's screen, through the server's handler
  (\<^verbatim>\<open>CommandHandler::handle_dm\<close>), the client's reaction (\<^verbatim>\<open>FtxuiApp::on_network_message\<close>), the
  message store and the renderer.
\<close>

lemma map_of_key: "map_of kvs k = Some v \<Longrightarrow> k \<in> fst ` set kvs"
  by (metis map_of_eq_None_iff not_None_eq)

lemma value_of_member:
  assumes "json_ok J" and "distinct (map fst kvs)"
  shows "map_of kvs k = Some (j_str J x) \<Longrightarrow> j_value_str J (j_obj J kvs) k d = Some x"
    and "map_of kvs k = Some (j_bool J b) \<Longrightarrow> j_value_bool J (j_obj J kvs) k c = Some b"
    and "map_of kvs k = None \<Longrightarrow> j_value_str J (j_obj J kvs) k d = Some d"
    and "map_of kvs k = None \<Longrightarrow> j_value_bool J (j_obj J kvs) k c = Some c"
    and "map_of kvs k = Some (j_str J x) \<Longrightarrow> j_at_str J (j_obj J kvs) k = Some x"
  using assms
  by (simp_all add: j_value_def j_at_str_def json_ok_obj json_ok_get map_of_key map_of_eq_None_iff)

text \<open>The direct message a server passes on for a payload that claims to be encrypted and has no nonce.\<close>

definition claimed_dm :: "'j json_api \<Rightarrow> string \<Rightarrow> string \<Rightarrow> string \<Rightarrow> 'j message \<Rightarrow> bool" where
  "claimed_dm J me to_user raw m \<longleftrightarrow> m_type m = DIRECT_MESSAGE \<and> m_from m = me \<and>
     m_payload m = j_obj J [(''from'', j_str J me), (''to'', j_str J to_user), (''message'', j_str J raw),
       (''encrypted'', j_bool J True)]"

lemma relay_claimed_dm:
  assumes "json_ok (w_json W)" and "conn_is_authenticated (n_objs s i)" and "distinct (map fst kvs)"
    and "map_of kvs ''to'' = Some (j_str (w_json W) to_user)" and "map_of kvs ''message'' = Some (j_str (w_json W) raw)"
    and "map_of kvs ''encrypted'' = Some (j_bool (w_json W) True)"
    and "''nonce'' \<notin> fst ` set kvs" and "''sender_public_key'' \<notin> fst ` set kvs"
    and "raw \<noteq> []" and "length raw \<le> MAX_MESSAGE_SIZE"
    and "cm_get_by_username to_user (n_cm s) = Some t" and "t \<noteq> i"
  shows "\<exists>m. claimed_dm (w_json W) (co_username (n_objs s i)) to_user raw m \<and>
    n_objs (snd (handle_dm W i (j_obj (w_json W) kvs) s)) t = conn_send (w_json W) m (n_objs s t)"
proof -
  note J = assms(1) and v = value_of_member [OF assms(1,3)]
  have "''to'' \<in> fst ` set kvs" "''message'' \<in> fst ` set kvs"
    using assms(4,5) by (simp_all add: map_of_key)
  moreover define m where "m = \<lparr>m_type = DIRECT_MESSAGE,
      m_id = generate_uuid (w_rand W (sv_draws s)) (w_rand W (Suc (sv_draws s))),
      m_timestamp = w_msg_time W, m_from = co_username (n_objs s i), m_room = [],
      m_payload = j_obj (w_json W) [(''from'', j_str (w_json W) (co_username (n_objs s i))),
        (''to'', j_str (w_json W) to_user), (''message'', j_str (w_json W) raw), (''encrypted'', j_bool (w_json W) True)]\<rparr>"
  ultimately have "n_objs (snd (handle_dm W i (j_obj (w_json W) kvs) s)) t = conn_send (w_json W) m (n_objs s t)"
    using assms(2,7-12) v(5) [OF assms(4)] v(5) [OF assms(5)] v(2) [OF assms(6)]
    by (auto simp: handle_dm_def require_auth_def effect_simps json_ok_obj [OF J] Let_def copy_member_def respond_def
        srv_message_def net_send_def message_create_def conn_of_def)
  moreover have "claimed_dm (w_json W) (co_username (n_objs s i)) to_user raw m" by (simp add: claimed_dm_def m_def)
  ultimately show ?thesis by blast
qed

lemma show_claimed_dm:
  assumes "json_ok (cw_json C)" and "claimed_dm (cw_json C) me to_user raw m"
  shows "on_network_message C fmt m a = (Some (), a\<lparr>ap_store := ms_push m (ap_store a)\<rparr>)"
    and "\<exists>item e. convert (cw_json C) fmt m = Some item \<and> di_content item = ''[DM <- '' @ me @ ''] '' @ raw \<and>
      render_item (cw_json C) item t = Some e \<and> shows_lock t e"
proof -
  let ?kvs = "[(''from'', j_str (cw_json C) me), (''to'', j_str (cw_json C) to_user),
    (''message'', j_str (cw_json C) raw), (''encrypted'', j_bool (cw_json C) True)]"
  have "distinct (map fst ?kvs)" by simp
  note v = value_of_member [OF assms(1) this]
  have dm: "m_type m = DIRECT_MESSAGE" "m_payload m = j_obj (cw_json C) ?kvs" using assms(2) by (auto simp: claimed_dm_def)
  show "on_network_message C fmt m a = (Some (), a\<lparr>ap_store := ms_push m (ap_store a)\<rparr>)"
    by (simp add: on_network_message_def on_direct_message_def dm v Let_def effect_simps app_show_def)
  let ?item = "(item_base fmt K_DM m (''[DM <- '' @ me @ ''] '' @ raw))\<lparr>di_encrypted := True, di_sender := me\<rparr>"
  have c: "convert (cw_json C) fmt m = Some ?item"
    by (simp add: convert_def convert_dm_def dm v Let_def)
  obtain e where "render_item (cw_json C) ?item t = Some e" "shows_lock t e"
    using render_lock(2) [of ?item] by (auto simp: render_item_def render_kind_def item_base_def shows_lock_def)
  with c show "\<exists>item e. convert (cw_json C) fmt m = Some item \<and> di_content item = ''[DM <- '' @ me @ ''] '' @ raw \<and>
      render_item (cw_json C) item t = Some e \<and> shows_lock t e" by auto
qed

text \<open>
  C37: A direct message that only claims to be encrypted is shown as encrypted. When a logged-in
  user sends \<^verbatim>\<open>dm\<close> with \<^verbatim>\<open>encrypted: true\<close>, a plaintext and no nonce, the server passes the text on
  without sanitising it, the recipient's client puts it into the store as it is, and the
  line drawn for it has the lock and ends with the raw text.
\<close>

theorem plaintext_dm_shown_locked:
  assumes "json_ok (w_json W)" and "cw_json C = w_json W" and "conn_is_authenticated (n_objs s i)"
    and "distinct (map fst kvs)" and "map_of kvs ''to'' = Some (j_str (w_json W) to_user)"
    and "map_of kvs ''message'' = Some (j_str (w_json W) raw)" and "map_of kvs ''encrypted'' = Some (j_bool (w_json W) True)"
    and "''nonce'' \<notin> fst ` set kvs" and "''sender_public_key'' \<notin> fst ` set kvs"
    and "raw \<noteq> []" and "length raw \<le> MAX_MESSAGE_SIZE"
    and "cm_get_by_username to_user (n_cm s) = Some t" and "t \<noteq> i"
  shows "\<exists>m. n_objs (snd (handle_dm W i (j_obj (w_json W) kvs) s)) t = conn_send (w_json W) m (n_objs s t) \<and>
    on_network_message C fmt m a = (Some (), a\<lparr>ap_store := ms_push m (ap_store a)\<rparr>) \<and>
    (\<exists>item e. convert (cw_json C) fmt m = Some item \<and>
       di_content item = ''[DM <- '' @ co_username (n_objs s i) @ ''] '' @ raw \<and>
       render_item (cw_json C) item th = Some e \<and> shows_lock th e)"
proof -
  from relay_claimed_dm [OF assms(1,3-13)] obtain m where
    m: "claimed_dm (cw_json C) (co_username (n_objs s i)) to_user raw m"
      "n_objs (snd (handle_dm W i (j_obj (w_json W) kvs) s)) t = conn_send (w_json W) m (n_objs s t)"
    using assms(2) by auto
  have "json_ok (cw_json C)" using assms(1,2) by simp
  note show_claimed_dm [OF this m(1)]
  with m(2) show ?thesis by blast
qed

definition sample_pair :: "sqlite_db server" where
  "sample_pair = sample_server\<lparr>n_cm := cm_register_username ''bob'' 2 (n_cm sample_server)\<rparr>"

theorem plaintext_dm_shown_locked_witness:
  "\<exists>m. n_objs (snd (handle_dm (sample_world True) 1 (JObj [(''to'', JStr ''bob''), (''message'', JStr ''pay me''),
       (''encrypted'', JBool True)]) sample_pair)) 2 = conn_send jval_api m (n_objs sample_pair 2) \<and>
     (\<exists>item e. convert jval_api (\<lambda>_. ''t'') m = Some item \<and> di_content item = ''[DM <- ann] pay me'' \<and>
       render_item jval_api item theme_dark = Some e \<and> shows_lock theme_dark e)"
proof -
  have "conn_is_authenticated (n_objs sample_pair 1)" "co_username (n_objs sample_pair 1) = ''ann''"
    "cm_get_by_username ''bob'' (n_cm sample_pair) = Some 2"
    by (simp_all add: sample_pair_def sample_server_def conn_is_authenticated_def cm_get_by_username_def cm_register_username_def)
  moreover have "j_str jval_api = JStr" "j_bool jval_api = JBool" "j_obj jval_api = JObj" "w_json (sample_world True) = jval_api"
    by (simp_all add: jval_api_def sample_world_def)
  ultimately show ?thesis using jval_api_ok
    plaintext_dm_shown_locked [of "sample_world True" toy_world sample_pair 1
      "[(''to'', JStr ''bob''), (''message'', JStr ''pay me''), (''encrypted'', JBool True)]" "''bob''" "''pay me''" 2
      "\<lambda>_. ''t''" "client_app_new (group_manager_new key_manager_new)" theme_dark]
    by (simp add: MAX_MESSAGE_SIZE_def) blast
qed

end
