(* ===== verification/Screen.thy ===== *)
theory Screen
  imports Client_App Ui_Renderer
begin

text \<open>
  \<^verbatim>\<open>client/banner.{hpp,cpp}\<close> and the drawing of \<^verbatim>\<open>client/ftxui_app.cpp\<close>: the whole screen as the
  term of the FTXUI calls that build it, from the state the renderer leaves. The clock is an
  argument in milliseconds, and the rounding of single-precision numbers is a parameter.
\<close>

section \<open>The banner\<close>

definition banner_lines :: "string list" where
  "banner_lines =
     [''   _____ _           _      _____ _      _____  '',
      ''  / ____| |         | |    / ____| |    |_   _| '',
      '' | |    | |__   __ _| |_  | |    | |      | |   '',
      '' | |    | '' @ [CHR 0x27] @ ''_ '' @ [CHR 0x5C] @ '' / _'' @ [CHR 0x60] @ '' | __| | |    | |      | |   '',
      '' | |____| | | | (_| | |_  | |____| |____ _| |_  '',
      ''  '' @ [CHR 0x5C] @ ''_____|_| |_|'' @ [CHR 0x5C] @ ''__,_|'' @ [CHR 0x5C] @ ''__|  '' @ [CHR 0x5C] @ ''_____|______|_____| '']"

definition FRAME_COUNT :: int where "FRAME_COUNT = 6"

definition current_frame :: "int \<Rightarrow> int" where
  "current_frame elapsed =
     min (sint (of_int (elapsed * FRAME_COUNT div ANIMATION_DURATION_MS) :: 32 word)) (FRAME_COUNT - 1)"

definition banner_visible :: "(real \<Rightarrow> real) \<Rightarrow> int \<Rightarrow> int" where
  "banner_visible fl frame =
     (let n = int (length banner_lines);
          k = \<lfloor>fl (fl (of_int (frame + 1) / of_int FRAME_COUNT) * of_int n)\<rfloor>
      in max 1 (min k n))"

definition banner_line :: "ui_color \<Rightarrow> bool \<Rightarrow> int \<Rightarrow> int \<Rightarrow> nat \<Rightarrow> element" where
  "banner_line c animate frame visible i =
     (let e = Colored c (Bold (Text (banner_lines ! i)))
      in if animate \<and> int i = visible - 1 \<and> frame < FRAME_COUNT - 1 then Dim e else e)"

definition banner_render :: "(real \<Rightarrow> real) \<Rightarrow> int \<Rightarrow> ui_color \<Rightarrow> bool \<Rightarrow> element" where
  "banner_render fl elapsed c animate =
     (let frame = (if animate then current_frame elapsed else FRAME_COUNT - 1);
          visible = banner_visible fl frame;
          padding = (if animate then replicate (nat (int (length banner_lines) - visible)) (Text '''') else []);
          subtitle = (if frame \<ge> FRAME_COUNT - 2 \<or> \<not> animate
            then [Text '''', Colored c (Dim (Text ''  Secure Terminal Chat''))] else [])
      in Centered (Vbox (padding @ map (banner_line c animate frame visible) [0..<nat visible] @ subtitle)))"

definition banner_compact :: "ui_color \<Rightarrow> element" where
  "banner_compact c = Hbox [Colored c (Bold (Text '' Chat CLI '')), Dim (Text '' ''), Dim (Text ''Secure Terminal Chat'')]"

section \<open>The parts of the screen\<close>

text \<open>What the drawing reads besides the state of the application.\<close>

record screen_env =
  se_theme :: theme
  se_host :: string
  se_connected :: bool
  se_banner_ms :: int
  se_now_ms :: int
  se_fl :: "real \<Rightarrow> real"

definition render_banner_area :: "screen_env \<Rightarrow> 'j client_app \<Rightarrow> element" where
  "render_banner_area E s = banner_render (se_fl E) (se_banner_ms E) (t_banner (se_theme E)) (ap_state s = BANNER)"

text \<open>\<open>Framed\<close> stands for \<^verbatim>\<open>yframe\<close> with the focus at the bottom.\<close>

fun render_all :: "'j json_api \<Rightarrow> theme \<Rightarrow> 'j display_item list \<Rightarrow> element list option" where
  "render_all J t [] = Some []"
| "render_all J t (i # is) = Option.bind (render_item J i t) (\<lambda>e. map_option (Cons e) (render_all J t is))"

definition render_message_area :: "'j json_api \<Rightarrow> theme \<Rightarrow> 'j message_store \<Rightarrow> element option" where
  "render_message_area J t st =
     (if ms_items st = []
      then Some (Vbox [Filler, Centered (Dim (Text ''No messages yet. Join a room to start chatting.'')), Filler])
      else map_option (\<lambda>es. Framed (Vbox es)) (render_all J t (ms_items st)))"

definition hint_elements :: "theme \<Rightarrow> string list \<Rightarrow> nat \<Rightarrow> element list" where
  "hint_elements t hints i =
     (if i > 0 then [Dim (Text ''  '')] else []) @
     [(if i = 0 then Bold else Dim) (Colored (t_accent t) (Text (hints ! i)))]"

definition render_completion_hints :: "theme \<Rightarrow> string list \<Rightarrow> element" where
  "render_completion_hints t hints =
     OnColor (RGB 40 40 40) (Hbox ([Dim (Text '' '')]
       @ concat (map (hint_elements t hints) [0..<min (length hints) 8])
       @ (if length hints > 8 then [Dim (Text (''  +'' @ nat_to_string (length hints - 8) @ '' more''))] else [])))"

definition render_input_area :: "theme \<Rightarrow> 'j client_app \<Rightarrow> element" where
  "render_input_area t s = Hbox (
     (if ih_username (ap_in s) \<noteq> [] then [Colored (t_username t) (Bold (Text (ih_username (ap_in s)))), Text '' ''] else [])
     @ (if ih_current_room (ap_in s) \<noteq> []
        then [Colored (t_room_name t) (Text (''#'' @ ih_current_room (ap_in s))), Text '' ''] else [])
     @ [Colored (t_accent t) (Bold (Text ([CHR 0xE2, CHR 0x9D, CHR 0xAF] @ '' ''))), Flexed (Text (ap_input s))])"

definition BAR :: string where "BAR = [CHR 0xE2, CHR 0x94, CHR 0x82]"

definition render_status_bar :: "screen_env \<Rightarrow> 'j client_app \<Rightarrow> element" where
  "render_status_bar E s = (let t = se_theme E; user = ih_username (ap_in s); room = ih_current_room (ap_in s) in
     OnColor (t_status_bar_bg t) (Hbox
       [Colored (t_status_bar_fg t) (Text ('' '' @ (if user = [] then ''not logged in'' else user) @ '' '')),
        Colored (t_border_color t) (Text BAR),
        Colored (t_status_bar_fg t) (Text ('' '' @ (if room = [] then ''no room'' else ''#'' @ room) @ '' '')),
        Colored (t_border_color t) (Text BAR),
        Filler,
        Colored (if se_connected E then t_success t else t_error t)
          (Text (if se_connected E then '' '' @ [CHR 0xE2, CHR 0x97, CHR 0x8F] @ '' connected '' else '' '' @ [CHR 0xE2, CHR 0x97, CHR 0x8B] @ '' disconnected ''))]))"

definition spinner_frames :: "string list" where
  "spinner_frames =
     [[CHR 0xE2, CHR 0xA0, CHR 0x8B], [CHR 0xE2, CHR 0xA0, CHR 0x99],
      [CHR 0xE2, CHR 0xA0, CHR 0xB9], [CHR 0xE2, CHR 0xA0, CHR 0xB8],
      [CHR 0xE2, CHR 0xA0, CHR 0xBC], [CHR 0xE2, CHR 0xA0, CHR 0xB4],
      [CHR 0xE2, CHR 0xA0, CHR 0xA6], [CHR 0xE2, CHR 0xA0, CHR 0xA7],
      [CHR 0xE2, CHR 0xA0, CHR 0x87], [CHR 0xE2, CHR 0xA0, CHR 0x8F]]"

definition render_spinner :: "screen_env \<Rightarrow> string \<Rightarrow> element" where
  "render_spinner E label =
     Hbox [Colored (t_accent (se_theme E)) (Bold (Text
         (spinner_frames ! (nat (se_now_ms E) div 80 mod length spinner_frames)))),
       Dim (Text ('' '' @ label))]"

text \<open>The layout the renderer returns; \<open>None\<close> when drawing an item throws.\<close>

definition draw_screen :: "'j json_api \<Rightarrow> screen_env \<Rightarrow> 'j client_app \<Rightarrow> element option" where
  "draw_screen J E s = (let t = se_theme E; line = Colored (t_border_color t) Separator;
       title = (if ap_state s = BANNER \<or> ap_show_banner s then [render_banner_area E s, line]
         else [Colored (t_border_color t) (Bordered Light (banner_compact (t_banner t)))]);
       hints = (if ap_hints s \<noteq> [] then [render_completion_hints t (ap_hints s)] else []);
       frame = (\<lambda>middle. Colored (t_border_color t) (Bordered Rounded (Vbox (title @ middle @ [render_status_bar E s]))))
     in if ap_state s = CONNECTING
        then Some (frame [Filler, Centered (render_spinner E (''Connecting to '' @ se_host E @ ''...'')), Filler])
        else map_option (\<lambda>area. frame ([Flexed area, line] @ hints @ [render_input_area t s]))
               (render_message_area J t (ap_store s)))"

section \<open>What the user sees\<close>

definition drawable :: "'j json_api \<Rightarrow> theme \<Rightarrow> 'j display_item \<Rightarrow> bool" where
  "drawable J t item \<longleftrightarrow> (\<exists>e. render_item J item t = Some e \<and> suffix (di_content item) (text_of e))"

lemma drawable_converted: "convert J fmt m = Some item \<Longrightarrow> drawable J t item"
  using converted_items_render [of J fmt m item t] by (auto simp: drawable_def)

lemma render_kind_seen [simp]: "render_kind J (item\<lparr>di_is_new := b\<rparr>) t = render_kind J item t"
  by (cases "di_kind item"; cases "di_original item")
    (simp_all add: render_kind_def render_chat_def render_dm_def render_system_def render_error_def
      render_presence_def render_auth_def render_room_event_def render_status_def stamp_element_def lock_elements_def)

lemma drawable_kind: "drawable J t item \<longleftrightarrow> (\<exists>e. render_kind J item t = Some e \<and> suffix (di_content item) (text_of e))"
  by (cases "render_kind J item t"; cases "di_is_new item") (auto simp: drawable_def render_item_def)

lemma drawable_seen: "drawable J t item \<Longrightarrow> drawable J t (item\<lparr>di_is_new := False\<rparr>)"
  by (simp add: drawable_kind)

lemma drawable_local:
  "k \<noteq> K_AUTH \<Longrightarrow> drawable J t \<lparr>di_kind = k, di_timestamp = stamp, di_sender = '''', di_room = '''', di_content = c,
     di_is_new = True, di_encrypted = False, di_original = None\<rparr>"
  by (cases k) (simp_all add: drawable_kind render_kind_def render_chat_def render_dm_def render_system_def render_error_def
      render_presence_def render_room_event_def render_status_def suffix_def)

text \<open>All items of the store can be drawn.\<close>

definition store_drawable :: "'j json_api \<Rightarrow> theme \<Rightarrow> 'j message_store \<Rightarrow> bool" where
  "store_drawable J t st \<longleftrightarrow> (\<forall>item \<in> set (ms_items st). drawable J t item)"

lemma keeps_convert_each: "keeps (store_drawable J t) (convert_each J fmt ms)"
proof (rule keeps_eeach)
  fix m show "keeps (store_drawable J t) (ebind (eopt (convert J fmt m)) (\<lambda>item. emodify (ms_append item)))"
    by (cases "convert J fmt m")
      (auto simp: keeps_def effect_simps store_drawable_def ms_append_def dest: drawable_converted)
qed

lemma store_drawable_trim: "store_drawable J t s \<Longrightarrow> store_drawable J t (ms_trim s)"
  by (auto simp: store_drawable_def ms_trim_def pop_front_while_eq dest: in_set_dropD)

lemma store_drawable_run:
  assumes "store_drawable J t s" and "\<forall>stamp c. Noted stamp K_AUTH c \<notin> set es"
  shows "store_drawable J t (store_run J fmt es s)"
  using assms
proof (induction J fmt es s rule: store_run.induct)
  case (3 J fmt es s)
  have "keeps (store_drawable J t) (ms_drain J fmt)"
    unfolding ms_drain_def
    by (intro keeps_intros keeps_emodify keeps_convert_each store_drawable_trim) (simp_all add: store_drawable_def)
  with 3 show ?case by (simp add: keepsD)
next
  case (4 J fmt stamp k c es s)
  then have "k \<noteq> K_AUTH" by auto
  then have "store_drawable J t (push_local stamp k c s)"
    using "4.prems"(1) unfolding push_local_def
    by (intro store_drawable_trim) (auto simp: store_drawable_def ms_append_def drawable_local)
  with 4 show ?case by simp
next
  case (5 J fmt es s)
  then show ?case by (simp add: store_drawable_def mark_all_seen_def drawable_seen)
qed (simp_all add: store_drawable_def ms_push_def)

lemma render_all_drawable:
  "\<forall>item \<in> set is. drawable J t item \<Longrightarrow>
    \<exists>es. render_all J t is = Some es \<and> (\<forall>item \<in> set is. \<exists>e \<in> set es. suffix (di_content item) (text_of e))"
proof (induction "is")
  case (Cons i "is")
  then obtain e es where "render_item J i t = Some e" "suffix (di_content i) (text_of e)" "render_all J t is = Some es"
    "\<forall>item \<in> set is. \<exists>e \<in> set es. suffix (di_content item) (text_of e)" by (auto simp: drawable_def)
  then show ?case by auto
qed simp

lemma sublist_concat: "e \<in> set es \<Longrightarrow> suffix c (text_of e) \<Longrightarrow> sublist c (concat (map text_of es))"
proof (induction es)
  case (Cons a es)
  then show ?case
    by (auto simp: sublist_appendI suffix_imp_sublist intro: sublist_order.order.trans [OF _ sublist_append_rightI]
        sublist_order.order.trans [OF _ sublist_append_leftI])
qed simp


definition sample_env :: screen_env where
  "sample_env = \<lparr>se_theme = theme_modern, se_host = ''localhost'', se_connected = True, se_banner_ms = 0, se_now_ms = 0,
     se_fl = id\<rparr>"


end
