(* ===== verification/Spec2Isabelle.thy ===== *)
theory Spec2Isabelle
  imports Server_Traces Client_Flow Storage_Backends Health_Endpoint Client_Main End_To_End Screen
begin

text \<open>
  A model of the terminal chat system \<^verbatim>\<open>chat_cli\<close>: a TLS server that authenticates users,
  keeps rooms and relays messages, and a client that encrypts room messages end to end.

  \<^bold>\<open>Wire.\<close> \<^verbatim>\<open>Protocol\<close> models \<^verbatim>\<open>common/protocol\<close>: the message structure, its JSON form and the
  length-prefixed framing with its incremental decoder, which does not depend on how the stream
  is cut. \<^verbatim>\<open>Sanitize\<close> models \<^verbatim>\<open>common/sanitize.hpp\<close>, \<^verbatim>\<open>Config\<close> \<^verbatim>\<open>common/config\<close>.

  \<^bold>\<open>Server.\<close> \<^verbatim>\<open>Connection\<close> and \<^verbatim>\<open>Connection_Manager\<close> model \<^verbatim>\<open>server/network\<close>: one connection as a
  record with the operations in flight on its socket (a completion handler is a separate
  step), and the table of connections with the name index and the two room maps.
  \<^verbatim>\<open>Rate_Limiter\<close> and \<^verbatim>\<open>Session_Manager\<close> model \<^verbatim>\<open>server/session\<close>, \<^verbatim>\<open>Auth_Service\<close>
  \<^verbatim>\<open>server/auth\<close>. \<^verbatim>\<open>Storage\<close> is the storage interface as a record of methods with the locale
  \<open>storage_contract\<close>; \<^verbatim>\<open>Sqlite_Storage\<close> and \<^verbatim>\<open>Postgres_Storage\<close> implement it over tables of rows,
  where an arbitrary engine decides which statements fail, and both interpret the contract
  (PostgreSQL for a server that can be reached and does not lose replies).
  \<^verbatim>\<open>Storage_Backends\<close> shows that the two answer alike. \<^verbatim>\<open>Room_Manager\<close> and \<^verbatim>\<open>Command_Handler\<close>
  model \<^verbatim>\<open>server/commands\<close>: every handler as a state transformer that may leave by an exception.
  \<^verbatim>\<open>Handler_Frame\<close> proves once, in a locale, what every handler keeps; \<^verbatim>\<open>Tls_Server\<close> and
  \<^verbatim>\<open>Server_Main\<close> model the accept loop, the handlers of \<^verbatim>\<open>server/main.cpp\<close> and the event loop as
  a step function over completions. \<^verbatim>\<open>Server_Flow\<close> shows the invariant of the running server
  over all event sequences, \<^verbatim>\<open>Server_Traces\<close> what never reaches a socket and what \<^verbatim>\<open>/quit\<close> leaves
  behind. \<^verbatim>\<open>Health_Endpoint\<close> models the HTTP probe.

  \<^bold>\<open>Client.\<close> \<^verbatim>\<open>Room_Crypto\<close> models \<^verbatim>\<open>common/crypto/room_crypto\<close>: base64, the hash ratchet, the
  sending and receiving chains, sealed messages and key envelopes. \<^verbatim>\<open>Ratchet\<close> shows that a
  receiving chain implements a window of acceptable indices, \<^verbatim>\<open>Room_Messages\<close> the round trips
  and authenticity of messages and envelopes. \<^verbatim>\<open>Trust_Store\<close> holds pinned identities,
  \<^verbatim>\<open>Key_Manager\<close> the key pairs, \<^verbatim>\<open>Group_Manager\<close> the rooms of a client and \<^verbatim>\<open>Group_Flow\<close> its
  invariant and the exchange of a key and a message between two clients. \<^verbatim>\<open>Tls_Client\<close> is the
  network side with reconnection, \<^verbatim>\<open>Message_Store\<close> the queue between the two threads and the
  display, \<^verbatim>\<open>Echo_Cache\<close> the locale of the two caches of own messages, \<^verbatim>\<open>Input_Handler\<close> the
  commands, \<^verbatim>\<open>Client_App\<close> the reactions of \<^verbatim>\<open>ftxui_app.cpp\<close> and \<^verbatim>\<open>Client_Flow\<close> the properties of
  the whole client over all sequences of server messages and input. \<^verbatim>\<open>Ui_Renderer\<close> builds the
  element for an item and \<^verbatim>\<open>Screen\<close> the whole screen, as terms over the functions of FTXUI;
  \<^verbatim>\<open>Client_Main\<close> reads the command line. \<^verbatim>\<open>End_To_End\<close> follows a direct
  message from the server's handler to the other user's screen.

  \<^bold>\<open>Shared.\<close> \<^verbatim>\<open>Chat_Prelude\<close> has the machine types, the effect combinators (a call returns \<open>Some\<close>
  or throws, \<open>None\<close>, with the state it leaves), string functions and the collections of lemmas;
  \<^verbatim>\<open>Ordered_Map\<close> models \<^verbatim>\<open>std::map\<close>.

  \<^bold>\<open>Parameters.\<close> The JSON library (\<^verbatim>\<open>Json_Api\<close>), libsodium (\<^verbatim>\<open>Sodium_Api\<close>), the SQL engines, the
  rounding of floating-point numbers, the clock and the random source are arguments; their
  documented laws are the hypotheses \<open>json_ok\<close>, \<open>sodium_ok\<close>, \<open>pwhash_ok\<close> and the like, and each
  theory that uses one has an instance that satisfies them.

  \<^bold>\<open>Bounds.\<close> No function uses fuel: loops recurse on their data or on a measure. The theorems over
  runs of the server bound the number of events by the range of its 64-bit connection counter;
  they are stated for the SQLite backend, whose methods do not throw.

  \<^bold>\<open>Not modelled.\<close> Logging is output only. The publish/subscribe header is a stub that nothing
  calls. What FTXUI makes of an element, TLS itself, certificates and the
  threads of asio are libraries: handlers run one at a time here, as the mutexes of the code
  make the tables they guard, so a data race is not visible in the model.
\<close>

end
